(* ===== verification/Prelude.thy ===== *)
theory Prelude
  imports Main "HOL-Library.AList" "HOL-Library.Word" "HOL-Library.Multiset"
begin

section \<open>Shared vocabulary of the development\<close>

text \<open>
  What every component theory uses: the collections its proofs feed to the
  simplifier, the Go integer and time types, Go maps as association lists, and
  the generic list lemmas the component proofs share.

  \<^item> A Go \<open>int\<close>, \<open>int64\<close> or \<open>time.Duration\<close> is an \<open>int\<close>. Arithmetic that can leave the
    64-bit range goes through \<open>s64\<close>, which wraps as two's complement does.
  \<^item> A \<open>time.Time\<close> is the number of nanoseconds since the zero time (year 1), so
    \<open>IsZero\<close> is equality with 0. The location and the monotonic reading are not
    part of the model.
  \<^item> A Go map is an association list with distinct keys. Its order is the order in
    which the next \<open>range\<close> statement visits it, which Go leaves open: statements
    about an arbitrary list cover every iteration order.
\<close>

named_theorems step_simps \<open>equations of the operations of a component\<close>
named_theorems inv_intros \<open>preservation of a component's invariant\<close>

subsection \<open>Results of fallible operations\<close>

text \<open>A Go pair \<open>(value, error)\<close>: \<open>Inl\<close> carries the error, \<open>Inr\<close> the value.\<close>

fun is_ok :: "'e + 'a \<Rightarrow> bool" where
  "is_ok (Inl e) = False"
| "is_ok (Inr a) = True"

lemma is_ok_iff: "is_ok r \<longleftrightarrow> (\<exists>a. r = Inr a)"
  by (cases r) auto

subsection \<open>64-bit integers, durations and times\<close>

type_synonym gtime = int
type_synonym duration = int

text \<open>The value that a 64-bit register holds after an operation with result \<open>x\<close>.\<close>

definition s64 :: "int \<Rightarrow> int" where
  "s64 x = (x + 2 ^ 63) mod 2 ^ 64 - 2 ^ 63"

definition in_s64 :: "int \<Rightarrow> bool" where
  "in_s64 x \<longleftrightarrow> - (2 ^ 63) \<le> x \<and> x < 2 ^ 63"

lemma s64_id: "in_s64 x \<Longrightarrow> s64 x = x"
  by (simp add: in_s64_def s64_def)

lemma in_s64_s64 [simp]: "in_s64 (s64 x)"
proof -
  have "0 \<le> (x + 2 ^ 63) mod (2 ^ 64 :: int)" and "(x + 2 ^ 63) mod (2 ^ 64 :: int) < 2 ^ 64"
    by simp_all
  then show ?thesis by (simp add: in_s64_def s64_def)
qed

text \<open>Go's \<open>/\<close> and \<open>%\<close> on integers truncate towards zero.\<close>

definition gquot :: "int \<Rightarrow> int \<Rightarrow> int" where
  "gquot a b = sgn a * sgn b * (\<bar>a\<bar> div \<bar>b\<bar>)"

definition grem :: "int \<Rightarrow> int \<Rightarrow> int" where
  "grem a b = a - b * gquot a b"

lemma gquot_nonneg: "0 \<le> a \<Longrightarrow> 0 < b \<Longrightarrow> gquot a b = a div b"
  by (cases "a = 0") (auto simp: gquot_def)

lemma grem_nonneg: "0 \<le> a \<Longrightarrow> 0 < b \<Longrightarrow> grem a b = a mod b"
  by (simp add: grem_def gquot_nonneg minus_mult_div_eq_mod)

definition second :: duration where
  "second = 1000000000"

definition minute :: duration where
  "minute = 60 * second"

definition hour :: duration where
  "hour = 60 * minute"

text \<open>
  \<open>t.Sub(u)\<close> saturates at the largest and the smallest duration;
  \<open>time.Duration(n) * time.Second\<close> is a 64-bit multiplication, which wraps.
\<close>

definition time_sub :: "gtime \<Rightarrow> gtime \<Rightarrow> duration" where
  "time_sub t u = max (- (2 ^ 63)) (min (2 ^ 63 - 1) (t - u))"

definition seconds_dur :: "int \<Rightarrow> duration" where
  "seconds_dur n = s64 (n * second)"

definition time_is_zero :: "gtime \<Rightarrow> bool" where
  "time_is_zero t \<longleftrightarrow> t = 0"

lemma time_sub_mono: "t \<le> t' \<Longrightarrow> time_sub t u \<le> time_sub t' u"
  by (auto simp: time_sub_def)

lemma time_sub_same [simp]: "time_sub t t = 0"
  by (simp add: time_sub_def)

lemma time_sub_nonneg: "u \<le> t \<Longrightarrow> 0 \<le> time_sub t u"
  by (simp add: time_sub_def)

text \<open>Every number of seconds up to about 292 years is a duration without wrap-around.\<close>

definition max_dur_s :: int where
  "max_dur_s = 9223372036"

lemma seconds_dur_id: "0 \<le> n \<Longrightarrow> n \<le> max_dur_s \<Longrightarrow> seconds_dur n = n * second"
  by (simp add: seconds_dur_def max_dur_s_def second_def s64_id in_s64_def)

lemma seconds_dur_nonneg: "0 \<le> n \<Longrightarrow> n \<le> max_dur_s \<Longrightarrow> 0 \<le> seconds_dur n"
  by (simp add: seconds_dur_id second_def)

subsection \<open>Go maps\<close>

type_synonym ('k, 'v) gmap = "('k \<times> 'v) list"

abbreviation mget :: "('k, 'v) gmap \<Rightarrow> 'k \<Rightarrow> 'v option" where
  "mget m k \<equiv> map_of m k"

abbreviation mput :: "'k \<Rightarrow> 'v \<Rightarrow> ('k, 'v) gmap \<Rightarrow> ('k, 'v) gmap" where
  "mput k v m \<equiv> AList.update k v m"

abbreviation mdel :: "'k \<Rightarrow> ('k, 'v) gmap \<Rightarrow> ('k, 'v) gmap" where
  "mdel k m \<equiv> AList.delete k m"

text \<open>An index expression \<open>m[k]\<close> on a missing key yields the zero value of the element type.\<close>

definition mget_zero :: "'v \<Rightarrow> ('k, 'v) gmap \<Rightarrow> 'k \<Rightarrow> 'v" where
  "mget_zero z m k = (case mget m k of None \<Rightarrow> z | Some v \<Rightarrow> v)"

definition mkeys :: "('k, 'v) gmap \<Rightarrow> 'k list" where
  "mkeys m = map fst m"

abbreviation mwf :: "('k, 'v) gmap \<Rightarrow> bool" where
  "mwf m \<equiv> distinct (map fst m)"

lemma mget_mput: "mget (mput k v m) k' = (if k' = k then Some v else mget m k')"
  by (simp add: update_conv')

lemma mget_mdel: "mget (mdel k m) k' = (if k' = k then None else mget m k')"
  by (simp add: delete_conv')

lemma mwf_mput [simp]: "mwf m \<Longrightarrow> mwf (mput k v m)"
  by (rule distinct_update)

lemma mwf_mdel [simp]: "mwf m \<Longrightarrow> mwf (mdel k m)"
  by (rule distinct_delete)

lemma mget_Some_in: "mget m k = Some v \<Longrightarrow> (k, v) \<in> set m"
  by (rule map_of_SomeD)

lemma in_mget_Some: "mwf m \<Longrightarrow> (k, v) \<in> set m \<Longrightarrow> mget m k = Some v"
  by (rule map_of_is_SomeI)

text \<open>Reordering a well-formed map changes no lookup.\<close>

lemma mget_perm:
  assumes "mwf m" and "mset m' = mset m"
  shows "mget m' k = mget m k"
proof -
  have "set m' = set m" using assms(2) by (metis set_mset_mset)
  moreover have "mwf m'"
    using assms by (metis mset_eq_imp_distinct_iff mset_map)
  ultimately show ?thesis using assms(1) by (metis map_of_inject_set)
qed

end
