(* ===== verification/Go_Strings.thy ===== *)
theory Go_Strings
  imports Prelude
begin

section \<open>Go strings and bytes\<close>

text \<open>
  A Go string is a sequence of bytes, here a \<open>string\<close> (a list of 8-bit characters);
  a byte slice is a list of 8-bit words. The theory models the functions of the
  standard library that the program calls: the UTF-8 decoder behind \<open>range\<close> over a
  string, \<open>strings.ToLower\<close>, \<open>strings.TrimSpace\<close>, \<open>strings.Cut\<close>, \<open>strings.Trim\<close>,
  \<open>encoding/hex\<close>, and the decimal and hexadecimal verbs of \<open>fmt.Sprintf\<close>.
\<close>

type_synonym byte = "8 word"
type_synonym bytes = "byte list"

abbreviation code :: "char \<Rightarrow> nat" where
  "code c \<equiv> of_char c"

definition char_of_byte :: "byte \<Rightarrow> char" where
  "char_of_byte b = char_of (unat b)"

definition byte_of_char :: "char \<Rightarrow> byte" where
  "byte_of_char c = word_of_nat (code c)"

definition string_of_bytes :: "bytes \<Rightarrow> string" where
  "string_of_bytes bs = map char_of_byte bs"

definition bytes_of_string :: "string \<Rightarrow> bytes" where
  "bytes_of_string s = map byte_of_char s"

subsection \<open>UTF-8\<close>

definition rune_error :: nat where
  "rune_error = 65533"

definition in_range :: "nat \<Rightarrow> nat \<Rightarrow> nat \<Rightarrow> bool" where
  "in_range lo hi x \<longleftrightarrow> lo \<le> x \<and> x \<le> hi"

text \<open>The allowed second bytes after a given first byte of a multi-byte encoding.\<close>

definition second_lo :: "nat \<Rightarrow> nat" where
  "second_lo b = (if b = 224 then 160 else if b = 240 then 144 else 128)"

definition second_hi :: "nat \<Rightarrow> nat" where
  "second_hi b = (if b = 237 then 159 else if b = 244 then 143 else 191)"

text \<open>\<open>utf8.DecodeRuneInString\<close>: the rune and its width; an invalid byte is U+FFFD of width 1.\<close>

fun decode_rune :: "string \<Rightarrow> nat \<times> nat" where
  "decode_rune [] = (rune_error, 0)"
| "decode_rune (c0 # cs) =
     (let b0 = code c0 in
      if b0 < 128 then (b0, 1)
      else if b0 < 194 \<or> 244 < b0 then (rune_error, 1)
      else (case cs of
          [] \<Rightarrow> (rune_error, 1)
        | c1 # cs1 \<Rightarrow>
            if \<not> in_range (second_lo b0) (second_hi b0) (code c1) then (rune_error, 1)
            else if b0 < 224 then ((b0 - 192) * 64 + (code c1 - 128), 2)
            else (case cs1 of
                [] \<Rightarrow> (rune_error, 1)
              | c2 # cs2 \<Rightarrow>
                  if \<not> in_range 128 191 (code c2) then (rune_error, 1)
                  else if b0 < 240 then
                    ((b0 - 224) * 4096 + (code c1 - 128) * 64 + (code c2 - 128), 3)
                  else (case cs2 of
                      [] \<Rightarrow> (rune_error, 1)
                    | c3 # _ \<Rightarrow>
                        if \<not> in_range 128 191 (code c3) then (rune_error, 1)
                        else ((b0 - 240) * 262144 + (code c1 - 128) * 4096
                              + (code c2 - 128) * 64 + (code c3 - 128), 4)))))"

text \<open>\<open>utf8.EncodeRune\<close>.\<close>

definition encode_rune :: "nat \<Rightarrow> string" where
  "encode_rune r =
     (if r < 128 then [char_of r]
      else if r < 2048 then [char_of (192 + r div 64), char_of (128 + r mod 64)]
      else if 1114111 < r \<or> in_range 55296 57343 r then
        [char_of (239 :: nat), char_of (191 :: nat), char_of (189 :: nat)]
      else if r < 65536 then
        [char_of (224 + r div 4096), char_of (128 + r div 64 mod 64), char_of (128 + r mod 64)]
      else
        [char_of (240 + r div 262144), char_of (128 + r div 4096 mod 64),
         char_of (128 + r div 64 mod 64), char_of (128 + r mod 64)])"

text \<open>The segments that \<open>for _, r := range s\<close> visits: each rune with the bytes it came from.\<close>

function utf8_segs :: "string \<Rightarrow> (nat \<times> string) list" where
  "utf8_segs [] = []"
| "utf8_segs (c # cs) =
     (let (r, w) = decode_rune (c # cs) in (r, take w (c # cs)) # utf8_segs (drop (w - 1) cs))"
  by pat_completeness auto
termination
  by (relation "measure length") auto

definition runes :: "string \<Rightarrow> nat list" where
  "runes s = map fst (utf8_segs s)"

definition is_ascii :: "string \<Rightarrow> bool" where
  "is_ascii s \<longleftrightarrow> (\<forall>c \<in> set s. code c < 128)"

subsection \<open>Case\<close>

definition ascii_lower :: "char \<Rightarrow> char" where
  "ascii_lower c = (if in_range 65 90 (code c) then char_of (code c + 32) else c)"

text \<open>
  The simple lower-case mapping of Unicode beyond ASCII, as in the tables of package
  \<open>unicode\<close>: ranges \<open>(first, last, step, offset)\<close>.
\<close>

definition lower_ranges :: "(nat \<times> nat \<times> nat \<times> int) list" where
  "lower_ranges =
    [
     (192, 214, 1, 32), (216, 222, 1, 32), (256, 302, 2, 1), (304, 304, 1, - 199),
     (306, 310, 2, 1), (313, 327, 2, 1), (330, 374, 2, 1), (376, 376, 1, - 121),
     (377, 381, 2, 1), (385, 385, 1, 210), (386, 388, 2, 1), (390, 390, 1, 206),
     (391, 391, 1, 1), (393, 394, 1, 205), (395, 395, 1, 1), (398, 398, 1, 79),
     (399, 399, 1, 202), (400, 400, 1, 203), (401, 401, 1, 1), (403, 403, 1, 205),
     (404, 404, 1, 207), (406, 406, 1, 211), (407, 407, 1, 209), (408, 408, 1, 1),
     (412, 412, 1, 211), (413, 413, 1, 213), (415, 415, 1, 214), (416, 420, 2, 1),
     (422, 422, 1, 218), (423, 423, 1, 1), (425, 425, 1, 218), (428, 428, 1, 1),
     (430, 430, 1, 218), (431, 431, 1, 1), (433, 434, 1, 217), (435, 437, 2, 1),
     (439, 439, 1, 219), (440, 440, 1, 1), (444, 444, 1, 1), (452, 452, 1, 2),
     (453, 453, 1, 1), (455, 455, 1, 2), (456, 456, 1, 1), (458, 458, 1, 2), (459, 475, 2, 1),
     (478, 494, 2, 1), (497, 497, 1, 2), (498, 500, 2, 1), (502, 502, 1, - 97),
     (503, 503, 1, - 56), (504, 542, 2, 1), (544, 544, 1, - 130), (546, 562, 2, 1),
     (570, 570, 1, 10795), (571, 571, 1, 1), (573, 573, 1, - 163), (574, 574, 1, 10792),
     (577, 577, 1, 1), (579, 579, 1, - 195), (580, 580, 1, 69), (581, 581, 1, 71),
     (582, 590, 2, 1), (880, 882, 2, 1), (886, 886, 1, 1), (895, 895, 1, 116),
     (902, 902, 1, 38), (904, 906, 1, 37), (908, 908, 1, 64), (910, 911, 1, 63),
     (913, 929, 1, 32), (931, 939, 1, 32), (975, 975, 1, 8), (984, 1006, 2, 1),
     (1012, 1012, 1, - 60), (1015, 1015, 1, 1), (1017, 1017, 1, - 7), (1018, 1018, 1, 1),
     (1021, 1023, 1, - 130), (1024, 1039, 1, 80), (1040, 1071, 1, 32), (1120, 1152, 2, 1),
     (1162, 1214, 2, 1), (1216, 1216, 1, 15), (1217, 1229, 2, 1), (1232, 1326, 2, 1),
     (1329, 1366, 1, 48), (4256, 4293, 1, 7264), (4295, 4295, 1, 7264), (4301, 4301, 1, 7264),
     (5024, 5103, 1, 38864), (5104, 5109, 1, 8), (7312, 7354, 1, - 3008),
     (7357, 7359, 1, - 3008), (7680, 7828, 2, 1), (7838, 7838, 1, - 7615), (7840, 7934, 2, 1),
     (7944, 7951, 1, - 8), (7960, 7965, 1, - 8), (7976, 7983, 1, - 8), (7992, 7999, 1, - 8),
     (8008, 8013, 1, - 8), (8025, 8031, 2, - 8), (8040, 8047, 1, - 8), (8072, 8079, 1, - 8),
     (8088, 8095, 1, - 8), (8104, 8111, 1, - 8), (8120, 8121, 1, - 8), (8122, 8123, 1, - 74),
     (8124, 8124, 1, - 9), (8136, 8139, 1, - 86), (8140, 8140, 1, - 9), (8152, 8153, 1, - 8),
     (8154, 8155, 1, - 100), (8168, 8169, 1, - 8), (8170, 8171, 1, - 112),
     (8172, 8172, 1, - 7), (8184, 8185, 1, - 128), (8186, 8187, 1, - 126),
     (8188, 8188, 1, - 9), (8486, 8486, 1, - 7517), (8490, 8490, 1, - 8383),
     (8491, 8491, 1, - 8262), (8498, 8498, 1, 28), (8544, 8559, 1, 16), (8579, 8579, 1, 1),
     (9398, 9423, 1, 26), (11264, 11311, 1, 48), (11360, 11360, 1, 1),
     (11362, 11362, 1, - 10743), (11363, 11363, 1, - 3814), (11364, 11364, 1, - 10727),
     (11367, 11371, 2, 1), (11373, 11373, 1, - 10780), (11374, 11374, 1, - 10749),
     (11375, 11375, 1, - 10783), (11376, 11376, 1, - 10782), (11378, 11378, 1, 1),
     (11381, 11381, 1, 1), (11390, 11391, 1, - 10815), (11392, 11490, 2, 1),
     (11499, 11501, 2, 1), (11506, 11506, 1, 1), (42560, 42604, 2, 1), (42624, 42650, 2, 1),
     (42786, 42798, 2, 1), (42802, 42862, 2, 1), (42873, 42875, 2, 1),
     (42877, 42877, 1, - 35332), (42878, 42886, 2, 1), (42891, 42891, 1, 1),
     (42893, 42893, 1, - 42280), (42896, 42898, 2, 1), (42902, 42920, 2, 1),
     (42922, 42922, 1, - 42308), (42923, 42923, 1, - 42319), (42924, 42924, 1, - 42315),
     (42925, 42925, 1, - 42305), (42926, 42926, 1, - 42308), (42928, 42928, 1, - 42258),
     (42929, 42929, 1, - 42282), (42930, 42930, 1, - 42261), (42931, 42931, 1, 928),
     (42932, 42946, 2, 1), (42948, 42948, 1, - 48), (42949, 42949, 1, - 42307),
     (42950, 42950, 1, - 35384), (42951, 42953, 2, 1), (42960, 42960, 1, 1),
     (42966, 42968, 2, 1), (42997, 42997, 1, 1), (65313, 65338, 1, 32), (66560, 66599, 1, 40),
     (66736, 66771, 1, 40), (66928, 66938, 1, 39), (66940, 66954, 1, 39),
     (66956, 66962, 1, 39), (66964, 66965, 1, 39), (68736, 68786, 1, 64),
     (71840, 71871, 1, 32), (93760, 93791, 1, 32), (125184, 125217, 1, 34)
    ]"

fun find_lower :: "(nat \<times> nat \<times> nat \<times> int) list \<Rightarrow> nat \<Rightarrow> nat" where
  "find_lower [] r = r"
| "find_lower ((lo, hi, st, d) # rs) r =
     (if lo \<le> r \<and> r \<le> hi \<and> (r - lo) mod st = 0 then nat (int r + d) else find_lower rs r)"

definition unicode_to_lower :: "nat \<Rightarrow> nat" where
  "unicode_to_lower r =
     (if r < 128 then (if in_range 65 90 r then r + 32 else r) else find_lower lower_ranges r)"

text \<open>\<open>strings.ToLower\<close>: byte-wise on an ASCII string, rune-wise otherwise.\<close>

definition ToLower :: "string \<Rightarrow> string" where
  "ToLower s =
     (if is_ascii s then map ascii_lower s
      else concat (map (\<lambda>r. encode_rune (unicode_to_lower r)) (runes s)))"

text \<open>\<open>strings.EqualFold(s, t)\<close> for an ASCII \<open>t\<close> without the letters \<open>k\<close> and \<open>s\<close>.\<close>

definition EqualFold_ascii :: "string \<Rightarrow> string \<Rightarrow> bool" where
  "EqualFold_ascii s t \<longleftrightarrow> map ascii_lower s = map ascii_lower t"

subsection \<open>Trimming and cutting\<close>

text \<open>\<open>unicode.IsSpace\<close>.\<close>

definition is_space_rune :: "nat \<Rightarrow> bool" where
  "is_space_rune r \<longleftrightarrow>
     in_range 9 13 r \<or> r = 32 \<or> r = 133 \<or> r = 160 \<or> r = 5760 \<or> in_range 8192 8202 r
     \<or> r = 8232 \<or> r = 8233 \<or> r = 8239 \<or> r = 8287 \<or> r = 12288"

definition trim_both :: "('a \<Rightarrow> bool) \<Rightarrow> 'a list \<Rightarrow> 'a list" where
  "trim_both p xs = rev (dropWhile p (rev (dropWhile p xs)))"

definition TrimSpace :: "string \<Rightarrow> string" where
  "TrimSpace s = concat (map snd (trim_both (\<lambda>(r, bs). is_space_rune r) (utf8_segs s)))"

text \<open>\<open>strings.Trim(s, cutset)\<close> for a one-character ASCII cutset.\<close>

definition Trim_char :: "char \<Rightarrow> string \<Rightarrow> string" where
  "Trim_char c s = trim_both (\<lambda>x. x = c) s"

text \<open>\<open>strings.Cut(s, sep)\<close> for a one-character separator: before, after, found.\<close>

fun Cut_char :: "char \<Rightarrow> string \<Rightarrow> string \<times> string \<times> bool" where
  "Cut_char c [] = ([], [], False)"
| "Cut_char c (x # xs) =
     (if x = c then ([], xs, True)
      else (let (a, b, f) = Cut_char c xs in if f then (x # a, b, True) else (x # a, b, False)))"

text \<open>\<open>strings.ReplaceAll(s, old, "")\<close> for a one-character \<open>old\<close>.\<close>

definition remove_char :: "char \<Rightarrow> string \<Rightarrow> string" where
  "remove_char c s = filter (\<lambda>x. x \<noteq> c) s"

subsection \<open>Numbers as text\<close>

definition hex_digit :: "nat \<Rightarrow> char" where
  "hex_digit n = (if n < 10 then char_of (48 + n) else char_of (87 + n))"

definition hex_digit_upper :: "nat \<Rightarrow> char" where
  "hex_digit_upper n = (if n < 10 then char_of (48 + n) else char_of (55 + n))"

text \<open>The value of a hexadecimal digit in either case.\<close>

definition unhex :: "char \<Rightarrow> nat option" where
  "unhex c =
     (let n = code c in
      if in_range 48 57 n then Some (n - 48)
      else if in_range 97 102 n then Some (n - 87)
      else if in_range 65 70 n then Some (n - 55)
      else None)"

definition hex_byte :: "byte \<Rightarrow> string" where
  "hex_byte b = [hex_digit (unat b div 16), hex_digit (unat b mod 16)]"

text \<open>\<open>hex.EncodeToString\<close> and \<open>hex.DecodeString\<close>.\<close>

definition hex_encode :: "bytes \<Rightarrow> string" where
  "hex_encode bs = concat (map hex_byte bs)"

fun hex_decode :: "string \<Rightarrow> bytes option" where
  "hex_decode [] = Some []"
| "hex_decode [c] = None"
| "hex_decode (c # d # cs) =
     (case unhex c of None \<Rightarrow> None
      | Some h \<Rightarrow> (case unhex d of None \<Rightarrow> None
        | Some l \<Rightarrow> (case hex_decode cs of None \<Rightarrow> None
          | Some bs \<Rightarrow> Some (word_of_nat (16 * h + l) # bs))))"

text \<open>The verbs \<open>%d\<close>, \<open>%04x\<close>, \<open>%04X\<close> and \<open>%02X\<close>.\<close>

fun show_nat :: "nat \<Rightarrow> string" where
  "show_nat n = (if n < 10 then [char_of (48 + n)] else show_nat (n div 10) @ [char_of (48 + n mod 10)])"

declare show_nat.simps [simp del]

definition show_int :: "int \<Rightarrow> string" where
  "show_int i = (if i < 0 then CHR ''-'' # show_nat (nat (- i)) else show_nat (nat i))"

definition hex4 :: "16 word \<Rightarrow> string" where
  "hex4 w =
     [hex_digit (unat w div 4096), hex_digit (unat w div 256 mod 16),
      hex_digit (unat w div 16 mod 16), hex_digit (unat w mod 16)]"

definition hex4_upper :: "16 word \<Rightarrow> string" where
  "hex4_upper w =
     [hex_digit_upper (unat w div 4096), hex_digit_upper (unat w div 256 mod 16),
      hex_digit_upper (unat w div 16 mod 16), hex_digit_upper (unat w mod 16)]"

definition hex2_upper :: "byte \<Rightarrow> string" where
  "hex2_upper b = [hex_digit_upper (unat b div 16), hex_digit_upper (unat b mod 16)]"

subsection \<open>Classes of characters\<close>

definition is_lhex :: "char \<Rightarrow> bool" where
  "is_lhex c \<longleftrightarrow> in_range 48 57 (code c) \<or> in_range 97 102 (code c)"

definition is_digit :: "char \<Rightarrow> bool" where
  "is_digit c \<longleftrightarrow> in_range 48 57 (code c)"

text \<open>Characters that neither trimming nor lower-casing touches.\<close>

definition is_plain :: "char \<Rightarrow> bool" where
  "is_plain c \<longleftrightarrow> code c < 128 \<and> \<not> is_space_rune (code c) \<and> \<not> in_range 65 90 (code c)"

lemma is_digit_lhex: "is_digit c \<Longrightarrow> is_lhex c"
  by (simp add: is_digit_def is_lhex_def)

lemma is_lhex_plain: "is_lhex c \<Longrightarrow> is_plain c"
  by (auto simp: is_lhex_def is_plain_def is_space_rune_def in_range_def)

lemma code_char_of: "n < 256 \<Longrightarrow> code (char_of n) = n"
  by simp

lemma code_less [simp]: "code c < 256"
  by (metis char_of_char of_char_of mod_less_divisor zero_less_numeral)

subsection \<open>Hexadecimal\<close>

lemma hex_digit_lhex: "n < 16 \<Longrightarrow> is_lhex (hex_digit n)"
  by (auto simp: hex_digit_def is_lhex_def in_range_def code_char_of)

lemma unhex_hex_digit: "n < 16 \<Longrightarrow> unhex (hex_digit n) = Some n"
  by (auto simp: hex_digit_def unhex_def in_range_def code_char_of)

lemma unat_byte_less [simp]: "unat (b :: byte) < 256"
  using unsigned_less [of b, where ?'a = nat] by simp

lemma hex_byte_lhex: "c \<in> set (hex_byte b) \<Longrightarrow> is_lhex c"
proof -
  have "unat b div 16 < 16" using unat_byte_less [of b] by linarith
  then show "c \<in> set (hex_byte b) \<Longrightarrow> is_lhex c" by (auto simp: hex_byte_def hex_digit_lhex)
qed

lemma length_hex_byte [simp]: "length (hex_byte b) = 2"
  by (simp add: hex_byte_def)

lemma hex_encode_simps [simp]:
  "hex_encode [] = []" "hex_encode (b # bs) = hex_byte b @ hex_encode bs"
  by (simp_all add: hex_encode_def)

lemma hex_encode_append: "hex_encode (xs @ ys) = hex_encode xs @ hex_encode ys"
  by (simp add: hex_encode_def)

lemma length_hex_encode [simp]: "length (hex_encode bs) = 2 * length bs"
  by (induction bs) auto

lemma hex_encode_lhex: "c \<in> set (hex_encode bs) \<Longrightarrow> is_lhex c"
  by (induction bs) (auto dest: hex_byte_lhex)

lemma hex_decode_byte: "hex_decode (hex_byte b @ s) = map_option (Cons b) (hex_decode s)"
proof -
  have "unat b div 16 < 16" using unat_byte_less [of b] by linarith
  moreover have "16 * (unat b div 16) + unat b mod 16 = unat b" by simp
  ultimately show ?thesis
    by (simp add: hex_byte_def unhex_hex_digit del: of_nat_add of_nat_mult split: option.split)
qed

lemma hex_decode_encode: "hex_decode (hex_encode bs) = Some bs"
  by (induction bs) (simp_all add: hex_decode_byte)

lemma hex_encode_inj: "hex_encode xs = hex_encode ys \<Longrightarrow> xs = ys"
  using hex_decode_encode by (metis option.inject)

subsection \<open>Decimal\<close>

lemma show_nat_digits: "c \<in> set (show_nat n) \<Longrightarrow> is_digit c"
proof (induction n rule: show_nat.induct)
  case (1 n)
  show ?case
  proof (cases "n < 10")
    case True
    with "1.prems" show ?thesis
      by (simp add: show_nat.simps [of n] is_digit_def in_range_def code_char_of)
  next
    case False
    have "n mod 10 < 10" by simp
    then have "is_digit (char_of (48 + n mod 10))"
      unfolding is_digit_def in_range_def by (subst (1 2) code_char_of) auto
    with False "1.prems" "1.IH" show ?thesis by (auto simp: show_nat.simps [of n])
  qed
qed

lemma show_nat_nonempty [simp]: "show_nat n \<noteq> []"
  by (simp add: show_nat.simps [of n])

text \<open>Reading the digits back gives the number, so two numbers never print alike.\<close>

definition read_nat :: "string \<Rightarrow> nat" where
  "read_nat s = foldl (\<lambda>n c. 10 * n + (code c - 48)) 0 s"

lemma read_show_nat: "read_nat (show_nat n) = n"
proof (induction n rule: show_nat.induct)
  case (1 n)
  show ?case
  proof (cases "n < 10")
    case True
    then show ?thesis by (simp add: show_nat.simps [of n] read_nat_def code_char_of)
  next
    case False
    have "n mod 10 < 10" by simp
    then have "code (char_of (48 + n mod 10)) = 48 + n mod 10" by (intro code_char_of) linarith
    with False "1.IH" show ?thesis by (simp add: show_nat.simps [of n] read_nat_def)
  qed
qed

lemma show_nat_inj: "show_nat m = show_nat n \<Longrightarrow> m = n"
  by (metis read_show_nat)

subsection \<open>Trimming, lower-casing and cutting\<close>

lemma utf8_segs_ascii: "is_ascii s \<Longrightarrow> utf8_segs s = map (\<lambda>c. (code c, [c])) s"
  by (induction s) (auto simp: is_ascii_def)

lemma dropWhile_none: "(\<And>x. x \<in> set xs \<Longrightarrow> \<not> p x) \<Longrightarrow> dropWhile p xs = xs"
  by (cases xs) auto

lemma trim_both_none: "(\<And>x. x \<in> set xs \<Longrightarrow> \<not> p x) \<Longrightarrow> trim_both p xs = xs"
  using dropWhile_none [of xs p] dropWhile_none [of "rev xs" p] by (simp add: trim_both_def)

lemma set_trim_both: "x \<in> set (trim_both p xs) \<Longrightarrow> x \<in> set xs"
  by (auto simp: trim_both_def dest!: set_dropWhileD)

lemma concat_map_single: "concat (map (\<lambda>c. [c]) s) = s"
  by (induction s) auto

lemma plain_ascii: "(\<And>c. c \<in> set s \<Longrightarrow> is_plain c) \<Longrightarrow> is_ascii s"
  by (simp add: is_ascii_def is_plain_def)

lemma TrimSpace_plain:
  assumes "\<And>c. c \<in> set s \<Longrightarrow> is_plain c"
  shows "TrimSpace s = s"
proof -
  have "trim_both (\<lambda>(r, bs). is_space_rune r) (map (\<lambda>c. (code c, [c])) s) = map (\<lambda>c. (code c, [c])) s"
    using assms by (intro trim_both_none) (auto simp: is_plain_def)
  then show ?thesis
    by (simp add: TrimSpace_def utf8_segs_ascii plain_ascii assms o_def concat_map_single)
qed

lemma ToLower_plain: "(\<And>c. c \<in> set s \<Longrightarrow> is_plain c) \<Longrightarrow> ToLower s = s"
  by (simp add: ToLower_def plain_ascii ascii_lower_def is_plain_def map_idI)

lemma ToLower_Nil [simp]: "ToLower [] = []"
  by (simp add: ToLower_def is_ascii_def)

lemma TrimSpace_Nil [simp]: "TrimSpace [] = []"
  by (simp add: TrimSpace_def trim_both_def)

lemma Cut_char_found: "c \<notin> set a \<Longrightarrow> Cut_char c (a @ c # b) = (a, b, True)"
  by (induction a) auto

lemma Cut_char_True: "Cut_char c s = (a, b, True) \<Longrightarrow> s = a @ c # b \<and> c \<notin> set a"
  by (induction s arbitrary: a) (auto split: if_splits prod.splits)

end
