(* ===== verification/Sha256.thy ===== *)
theory Sha256
  imports Go_Strings
begin

section \<open>SHA-256\<close>

text \<open>
  \<open>crypto/sha256.Sum256\<close>, which the identity layer uses for the hash suffix of
  free-form entity ids and for manufacturer keys, and the ingest layer for the
  digest of a captured body. The algorithm is that of FIPS 180-4 over 32-bit words.
\<close>

unbundle bit_operations_syntax

type_synonym u32 = "32 word"

text \<open>
  The round constants and the initial hash value are the first 32 bits of the fractional
  parts of the cube and square roots of the first primes. They are computed here: \<open>iroot e n\<close>
  finds, bit by bit, the largest number below \<open>2 ^ b\<close> whose \<open>e\<close>-th power is at most \<open>n\<close>.
\<close>

fun iroot :: "nat \<Rightarrow> nat \<Rightarrow> nat \<Rightarrow> nat \<Rightarrow> nat" where
  "iroot e n 0 r = r"
| "iroot e n (Suc b) r = iroot e n b (if (r + 2 ^ b) ^ e \<le> n then r + 2 ^ b else r)"

definition first_primes :: "nat list" where
  "first_primes =
    [2, 3, 5, 7, 11, 13, 17, 19, 23, 29, 31, 37, 41, 43, 47, 53, 59, 61, 67, 71, 73, 79,
      83, 89, 97, 101, 103, 107, 109, 113, 127, 131, 137, 139, 149, 151, 157, 163, 167,
      173, 179, 181, 191, 193, 197, 199, 211, 223, 227, 229, 233, 239, 241, 251, 257,
      263, 269, 271, 277, 281, 283, 293, 307, 311]"

definition sha_k :: "u32 list" where
  "sha_k = map (\<lambda>p. word_of_nat (iroot 3 (p * 2 ^ 96) 36 0)) first_primes"

definition sha_h0 :: "u32 list" where
  "sha_h0 = map (\<lambda>p. word_of_nat (iroot 2 (p * 2 ^ 64) 36 0)) (take 8 first_primes)"

text \<open>\<open>iroot\<close> is the integer root.\<close>

lemma iroot_bounds:
  assumes "r ^ e \<le> n" "n < (r + 2 ^ b) ^ e"
  shows "iroot e n b r ^ e \<le> n \<and> n < (iroot e n b r + 1) ^ e"
  using assms
proof (induction b arbitrary: r)
  case (Suc b)
  show ?case
  proof (cases "(r + 2 ^ b) ^ e \<le> n")
    case True
    have "r + 2 ^ Suc b = r + 2 ^ b + 2 ^ b" by simp
    with Suc.prems(2) have "n < (r + 2 ^ b + 2 ^ b) ^ e" by metis
    from Suc.IH [OF True this] True show ?thesis by simp
  next
    case False
    with Suc.IH [OF Suc.prems(1)] show ?thesis by simp
  qed
qed simp

definition rotr :: "nat \<Rightarrow> u32 \<Rightarrow> u32" where
  "rotr n x = drop_bit n x OR push_bit (32 - n) x"

definition small_sigma0 :: "u32 \<Rightarrow> u32" where
  "small_sigma0 x = rotr 7 x XOR rotr 18 x XOR drop_bit 3 x"

definition small_sigma1 :: "u32 \<Rightarrow> u32" where
  "small_sigma1 x = rotr 17 x XOR rotr 19 x XOR drop_bit 10 x"

definition big_sigma0 :: "u32 \<Rightarrow> u32" where
  "big_sigma0 x = rotr 2 x XOR rotr 13 x XOR rotr 22 x"

definition big_sigma1 :: "u32 \<Rightarrow> u32" where
  "big_sigma1 x = rotr 6 x XOR rotr 11 x XOR rotr 25 x"

definition sha_ch :: "u32 \<Rightarrow> u32 \<Rightarrow> u32 \<Rightarrow> u32" where
  "sha_ch x y z = (x AND y) XOR (NOT x AND z)"

definition sha_maj :: "u32 \<Rightarrow> u32 \<Rightarrow> u32 \<Rightarrow> u32" where
  "sha_maj x y z = (x AND y) XOR (x AND z) XOR (y AND z)"

text \<open>The message schedule, newest word first.\<close>

fun sha_extend :: "nat \<Rightarrow> u32 list \<Rightarrow> u32 list" where
  "sha_extend 0 ws = ws"
| "sha_extend (Suc n) ws =
     sha_extend n
       ((small_sigma1 (ws ! 1) + ws ! 6 + small_sigma0 (ws ! 14) + ws ! 15) # ws)"

text \<open>One round over the eight working variables.\<close>

fun sha_round :: "u32 list \<Rightarrow> u32 \<times> u32 \<Rightarrow> u32 list" where
  "sha_round [a, b, c, d, e, f, g, h] (k, w) =
     (let t1 = h + big_sigma1 e + sha_ch e f g + k + w;
          t2 = big_sigma0 a + sha_maj a b c
      in [t1 + t2, a, b, c, d + t1, e, f, g])"
| "sha_round vs _ = vs"

definition word_be :: "bytes \<Rightarrow> u32" where
  "word_be bs = foldl (\<lambda>acc b. push_bit 8 acc OR ucast b) 0 bs"

definition bytes_be :: "u32 \<Rightarrow> bytes" where
  "bytes_be w =
     [ucast (drop_bit 24 w), ucast (drop_bit 16 w), ucast (drop_bit 8 w), ucast w]"

fun chunks :: "nat \<Rightarrow> 'a list \<Rightarrow> 'a list list" where
  "chunks n [] = []"
| "chunks n (x # xs) = take (Suc n) (x # xs) # chunks n (drop n xs)"

definition sha_block :: "u32 list \<Rightarrow> bytes \<Rightarrow> u32 list" where
  "sha_block hs blk =
     (let ws = rev (sha_extend 48 (rev (map word_be (chunks 3 blk))))
      in map2 (+) hs (foldl sha_round hs (zip sha_k ws)))"

definition sha_pad :: "bytes \<Rightarrow> bytes" where
  "sha_pad m =
     (let n = length m; bits = (8 * n) mod 2 ^ 64
      in m @ [0x80] @ replicate ((119 - n mod 64) mod 64) 0
           @ map (\<lambda>i. word_of_nat (bits div 256 ^ i mod 256)) [7, 6, 5, 4, 3, 2, 1, 0])"

definition sha256 :: "bytes \<Rightarrow> bytes" where
  "sha256 m = concat (map bytes_be (foldl sha_block sha_h0 (chunks 63 (sha_pad m))))"

subsection \<open>The digest has 32 bytes\<close>

lemma length_sha_round: "length vs = 8 \<Longrightarrow> length (sha_round vs kw) = 8"
  by (cases "(vs, kw)" rule: sha_round.cases) (auto simp: Let_def)

lemma length_sha_rounds: "length vs = 8 \<Longrightarrow> length (foldl sha_round vs kws) = 8"
  by (induction kws arbitrary: vs) (auto simp: length_sha_round)

lemma length_sha_block: "length hs = 8 \<Longrightarrow> length (sha_block hs blk) = 8"
  by (simp add: sha_block_def Let_def length_sha_rounds)

lemma length_sha_blocks: "length hs = 8 \<Longrightarrow> length (foldl sha_block hs bs) = 8"
  by (induction bs arbitrary: hs) (auto simp: length_sha_block)

lemma length_concat_const: "(\<And>x. length (f x) = k) \<Longrightarrow> length (concat (map f xs)) = k * length xs"
  by (induction xs) auto

lemma length_sha256 [simp]: "length (sha256 m) = 32"
proof -
  have "length (foldl sha_block sha_h0 (chunks 63 (sha_pad m))) = 8"
    by (rule length_sha_blocks) (simp add: sha_h0_def first_primes_def)
  moreover have "\<And>w. length (bytes_be w) = 4" by (simp add: bytes_be_def)
  ultimately show ?thesis by (simp add: sha256_def length_concat_const)
qed

text \<open>Padding fills whole 64-byte blocks, so the digest reads the whole message.\<close>

lemma length_sha_pad: "length (sha_pad m) mod 64 = 0"
proof -
  obtain q k where k: "k = length m mod 64" and q: "length m = 64 * q + k" and "k < 64"
    by (metis mod_less_divisor mult_div_mod_eq zero_less_numeral)
  have "length (sha_pad m) = length m + 9 + (119 - k) mod 64"
    by (simp add: sha_pad_def Let_def k)
  then have "length (sha_pad m) mod 64 = (length m + 9 + (119 - k)) mod 64"
    by (simp only: mod_add_right_eq)
  also have "length m + 9 + (119 - k) = 64 * (q + 2)" using q \<open>k < 64\<close> by simp
  finally show ?thesis by simp
qed

end
