(* ===== verification/Ids.thy ===== *)
theory Ids
  imports Sha256 "HOL-Library.Sublist"
begin

section \<open>Validated identities (internal/ids)\<close>

text \<open>
  The identity types that every other package passes around: \<open>BeaconKey\<close>
  (\<open>beacon_key.go\<close>), \<open>APMAC\<close> (\<open>ap_mac.go\<close>), \<open>ZoneLabel\<close> (\<open>zone_label.go\<close>) and
  \<open>PresenceState\<close> (\<open>presence_state.go\<close>). Their fields are unexported in Go, so values
  of these types only come from the constructors below. The regular expressions of
  the source are executable predicates on strings; an error is a value that keeps
  the rejected input, and stands for an error that wraps \<open>ErrInvalid\<close>.

  The theory shows that the slug of a key parses back to it, that entity ids separate
  beacons up to a collision of a 32-bit prefix of SHA-256, that entity ids are built
  from a small safe alphabet, and that MAC canonicalisation is idempotent and does
  not depend on the notation.
\<close>

subsection \<open>Kinds and keys\<close>

type_synonym Kind = string

definition KindIBeacon :: Kind where "KindIBeacon = ''ibeacon''"
definition KindEddystoneUID :: Kind where "KindEddystoneUID = ''eddystone_uid''"
definition KindEddystoneURL :: Kind where "KindEddystoneURL = ''eddystone_url''"
definition KindName :: Kind where "KindName = ''name''"
definition KindMfg :: Kind where "KindMfg = ''mfg''"

lemmas kind_defs =
  KindIBeacon_def KindEddystoneUID_def KindEddystoneURL_def KindName_def KindMfg_def

definition knownKinds :: "Kind list" where
  "knownKinds = [KindIBeacon, KindEddystoneUID, KindEddystoneURL, KindName, KindMfg]"

record BeaconKey =
  kind :: Kind
  key :: string

definition mk_key :: "Kind \<Rightarrow> string \<Rightarrow> BeaconKey" where
  "mk_key kd ky = \<lparr>kind = kd, key = ky\<rparr>"

definition zero_key :: BeaconKey where
  "zero_key = mk_key [] []"

definition key_IsZero :: "BeaconKey \<Rightarrow> bool" where
  "key_IsZero k \<longleftrightarrow> kind k = []"

definition Slug :: "BeaconKey \<Rightarrow> string" where
  "Slug k = kind k @ ''.'' @ key k"

definition ParseSlug :: "string \<Rightarrow> BeaconKey option" where
  "ParseSlug s =
     (let (kStr, ky, found) = Cut_char (CHR ''.'') s in
      if \<not> found \<or> ky = [] then None
      else if kStr \<notin> set knownKinds then None
      else Some (mk_key kStr ky))"

subsection \<open>Entity ids\<close>

definition freeReadableMax :: nat where
  "freeReadableMax = 32"

definition safe_rune :: "nat \<Rightarrow> bool" where
  "safe_rune r \<longleftrightarrow> in_range 97 122 r \<or> in_range 48 57 r \<or> r = 95"

text \<open>
  The loop of \<open>sanitizeFree\<close>: \<open>b\<close> is the builder, \<open>lu\<close> the flag \<open>lastUnderscore\<close>.
  Every rune that it writes is one byte, so \<open>b.Len()\<close> is the length of \<open>b\<close>.
\<close>

fun sanitize_loop :: "nat list \<Rightarrow> bool \<Rightarrow> string \<Rightarrow> string" where
  "sanitize_loop [] lu b = b"
| "sanitize_loop (r0 # rs) lu b =
     (let r = (if safe_rune r0 then r0 else 95) in
      if r = 95 \<and> lu then sanitize_loop rs lu b
      else (let b' = b @ [char_of r] in
            if freeReadableMax \<le> length b' then b'
            else sanitize_loop rs (r = 95) b'))"

definition sanitizeFree :: "string \<Rightarrow> string" where
  "sanitizeFree s = Trim_char (CHR ''_'') (sanitize_loop (runes (ToLower s)) False [])"

definition shortHash :: "string \<Rightarrow> string" where
  "shortHash s = hex_encode (take 4 (sha256 (bytes_of_string s)))"

definition EntityID :: "BeaconKey \<Rightarrow> string" where
  "EntityID k =
     (let base = ''briihass_'' @ kind k @ ''_'' in
      if kind k = KindIBeacon then base @ remove_char (CHR ''-'') (key k)
      else if kind k = KindEddystoneUID \<or> kind k = KindMfg then base @ key k
      else base @ sanitizeFree (key k) @ ''_'' @ shortHash (key k))"

subsection \<open>Constructors\<close>

text \<open>The ways a constructor rejects its input; every one wraps \<open>ErrInvalid\<close>.\<close>

datatype ids_error =
    UuidNotCanonical string
  | NamespaceNotHex string
  | InstanceNotHex string
  | EmptyURL
  | EmptyName
  | EmptyMfgPayload
  | MacEmpty
  | MacUnparsable string
  | MacNotEUI48 string nat
  | LabelEmpty
  | LabelInvalid string

text \<open>\<open>^[0-9a-f]{n}$\<close> and the canonical UUID form.\<close>

definition lhex_n :: "nat \<Rightarrow> string \<Rightarrow> bool" where
  "lhex_n n s \<longleftrightarrow> length s = n \<and> list_all is_lhex s"

definition IsCanonicalUUID :: "string \<Rightarrow> bool" where
  "IsCanonicalUUID s \<longleftrightarrow>
     length s = 36
     \<and> lhex_n 8 (take 8 s) \<and> s ! 8 = CHR ''-''
     \<and> lhex_n 4 (take 4 (drop 9 s)) \<and> s ! 13 = CHR ''-''
     \<and> lhex_n 4 (take 4 (drop 14 s)) \<and> s ! 18 = CHR ''-''
     \<and> lhex_n 4 (take 4 (drop 19 s)) \<and> s ! 23 = CHR ''-''
     \<and> lhex_n 12 (drop 24 s)"

definition NewIBeaconKey :: "string \<Rightarrow> 16 word \<Rightarrow> 16 word \<Rightarrow> ids_error + BeaconKey" where
  "NewIBeaconKey uuid major minor =
     (let u = ToLower (TrimSpace uuid) in
      if \<not> IsCanonicalUUID u then Inl (UuidNotCanonical uuid)
      else Inr (mk_key KindIBeacon
                  (u @ ''_'' @ show_nat (unat major) @ ''_'' @ show_nat (unat minor))))"

definition NewEddystoneUIDKey :: "string \<Rightarrow> string \<Rightarrow> ids_error + BeaconKey" where
  "NewEddystoneUIDKey namespace inst =
     (let ns = ToLower (TrimSpace namespace); i = ToLower (TrimSpace inst) in
      if \<not> lhex_n 20 ns then Inl (NamespaceNotHex namespace)
      else if \<not> lhex_n 12 i then Inl (InstanceNotHex inst)
      else Inr (mk_key KindEddystoneUID (ns @ ''_'' @ i)))"

definition NewEddystoneURLKey :: "string \<Rightarrow> ids_error + BeaconKey" where
  "NewEddystoneURLKey url =
     (let u = ToLower (TrimSpace url) in
      if u = [] then Inl EmptyURL else Inr (mk_key KindEddystoneURL u))"

definition NewNameKey :: "string \<Rightarrow> ids_error + BeaconKey" where
  "NewNameKey name =
     (let n = TrimSpace name in
      if n = [] then Inl EmptyName else Inr (mk_key KindName n))"

definition NewMfgKey :: "16 word \<Rightarrow> bytes \<Rightarrow> ids_error + BeaconKey" where
  "NewMfgKey companyID payload =
     (if payload = [] then Inl EmptyMfgPayload
      else Inr (mk_key KindMfg (hex4 companyID @ ''_'' @ hex_encode (take 8 (sha256 payload)))))"

definition FromStoreKey :: "string \<Rightarrow> string \<Rightarrow> BeaconKey option" where
  "FromStoreKey kd ky =
     (if kd \<notin> set knownKinds \<or> ky = [] then None else Some (mk_key kd ky))"

text \<open>The \<open>Must\<close> variants panic on the error; a panic is \<open>Inl\<close>.\<close>

definition MustNewIBeaconKey :: "string \<Rightarrow> 16 word \<Rightarrow> 16 word \<Rightarrow> ids_error + BeaconKey" where
  "MustNewIBeaconKey uuid major minor =
     (case NewIBeaconKey uuid major minor of Inl e \<Rightarrow> Inl e | Inr k \<Rightarrow> Inr k)"

definition ParseSlugMust :: "string \<Rightarrow> string + BeaconKey" where
  "ParseSlugMust s = (case ParseSlug s of None \<Rightarrow> Inl s | Some k \<Rightarrow> Inr k)"

subsection \<open>MAC addresses\<close>

text \<open>
  \<open>net.ParseMAC\<close> of the standard library. \<open>xtoi2\<close> reads two hexadecimal digits and,
  when more text follows them, requires the separator \<open>e\<close> there.
\<close>

fun xtoi2 :: "string \<Rightarrow> char \<Rightarrow> byte option" where
  "xtoi2 (a # b # rest) e =
     (if rest \<noteq> [] \<and> hd rest \<noteq> e then None
      else (case (unhex a, unhex b) of
          (Some h, Some l) \<Rightarrow> Some (word_of_nat (16 * h + l))
        | _ \<Rightarrow> None))"
| "xtoi2 _ e = None"

fun parse_pairs :: "char \<Rightarrow> nat \<Rightarrow> string \<Rightarrow> bytes option" where
  "parse_pairs e 0 s = Some []"
| "parse_pairs e (Suc n) s =
     (case xtoi2 s e of None \<Rightarrow> None
      | Some b \<Rightarrow> map_option (Cons b) (parse_pairs e n (drop 3 s)))"

fun parse_quads :: "char \<Rightarrow> nat \<Rightarrow> string \<Rightarrow> bytes option" where
  "parse_quads e 0 s = Some []"
| "parse_quads e (Suc n) s =
     (case xtoi2 (take 2 s) (CHR 0x00) of None \<Rightarrow> None
      | Some b \<Rightarrow>
          (case xtoi2 (drop 2 s) e of None \<Rightarrow> None
           | Some c \<Rightarrow> map_option (\<lambda>bs. b # c # bs) (parse_quads e n (drop 5 s))))"

definition ParseMAC :: "string \<Rightarrow> bytes option" where
  "ParseMAC s =
     (if length s < 14 then None
      else if s ! 2 = CHR '':'' \<or> s ! 2 = CHR ''-'' then
        (let n = (length s + 1) div 3 in
         if (length s + 1) mod 3 \<noteq> 0 then None
         else if n \<noteq> 6 \<and> n \<noteq> 8 \<and> n \<noteq> 20 then None
         else parse_pairs (s ! 2) n s)
      else if s ! 4 = CHR ''.'' then
        (let n = 2 * (length s + 1) div 5 in
         if (length s + 1) mod 5 \<noteq> 0 then None
         else if n \<noteq> 6 \<and> n \<noteq> 8 \<and> n \<noteq> 20 then None
         else parse_quads (CHR ''.'') (n div 2) s)
      else None)"

text \<open>\<open>HardwareAddr.String\<close>.\<close>

fun mac_string :: "bytes \<Rightarrow> string" where
  "mac_string [] = []"
| "mac_string [b] = hex_byte b"
| "mac_string (b # bs) = hex_byte b @ '':'' @ mac_string bs"

record APMAC =
  mac :: string

definition NewAPMAC :: "string \<Rightarrow> ids_error + APMAC" where
  "NewAPMAC s =
     (let trimmed = TrimSpace s in
      if trimmed = [] then Inl MacEmpty
      else (case ParseMAC trimmed of
          None \<Rightarrow> Inl (MacUnparsable s)
        | Some hw \<Rightarrow>
            if length hw \<noteq> 6 then Inl (MacNotEUI48 s (length hw))
            else Inr \<lparr>mac = mac_string hw\<rparr>))"

definition MustNewAPMAC :: "string \<Rightarrow> ids_error + APMAC" where
  "MustNewAPMAC s = (case NewAPMAC s of Inl e \<Rightarrow> Inl e | Inr m \<Rightarrow> Inr m)"

definition APMACFromStoreRow :: "string \<Rightarrow> APMAC" where
  "APMACFromStoreRow s = \<lparr>mac = s\<rparr>"

definition APMAC_IsZero :: "APMAC \<Rightarrow> bool" where
  "APMAC_IsZero m \<longleftrightarrow> mac m = []"

subsection \<open>Zone labels and presence states\<close>

record ZoneLabel =
  label :: string

definition label_char :: "char \<Rightarrow> bool" where
  "label_char c \<longleftrightarrow> safe_rune (code c)"

text \<open>The regular expression \<open>^[a-z][a-z0-9_]{0,63}$\<close>.\<close>

fun zoneLabelRE :: "string \<Rightarrow> bool" where
  "zoneLabelRE [] = False"
| "zoneLabelRE (c # cs) \<longleftrightarrow> in_range 97 122 (code c) \<and> length cs \<le> 63 \<and> list_all label_char cs"

definition NewZoneLabel :: "string \<Rightarrow> ids_error + ZoneLabel" where
  "NewZoneLabel s =
     (if s = [] then Inl LabelEmpty
      else if \<not> zoneLabelRE s then Inl (LabelInvalid s)
      else Inr \<lparr>label = s\<rparr>)"

definition MustNewZoneLabel :: "string \<Rightarrow> ids_error + ZoneLabel" where
  "MustNewZoneLabel s = (case NewZoneLabel s of Inl e \<Rightarrow> Inl e | Inr z \<Rightarrow> Inr z)"

definition ZoneLabelFromStoreRow :: "string \<Rightarrow> ZoneLabel" where
  "ZoneLabelFromStoreRow s = \<lparr>label = s\<rparr>"

definition ZoneLabel_IsZero :: "ZoneLabel \<Rightarrow> bool" where
  "ZoneLabel_IsZero z \<longleftrightarrow> label z = []"

definition IsValidZoneLabel :: "string \<Rightarrow> bool" where
  "IsValidZoneLabel s \<longleftrightarrow> s \<noteq> [] \<and> zoneLabelRE s"

type_synonym PresenceState = string

definition StateNotHome :: PresenceState where
  "StateNotHome = ''not_home''"

definition PresenceStateFromZone :: "ZoneLabel \<Rightarrow> PresenceState" where
  "PresenceStateFromZone z = label z"

definition IsNotHome :: "PresenceState \<Rightarrow> bool" where
  "IsNotHome s \<longleftrightarrow> s = StateNotHome"


subsection \<open>Keys that the constructors build\<close>

definition digits_pair :: "string \<Rightarrow> bool" where
  "digits_pair s \<longleftrightarrow>
     (let (a, b, found) = Cut_char (CHR ''_'') s in
      found \<and> a \<noteq> [] \<and> b \<noteq> [] \<and> list_all is_digit a \<and> list_all is_digit b)"

definition hex_pair :: "nat \<Rightarrow> nat \<Rightarrow> string \<Rightarrow> bool" where
  "hex_pair m n s \<longleftrightarrow>
     (let (a, b, found) = Cut_char (CHR ''_'') s in found \<and> lhex_n m a \<and> lhex_n n b)"

definition ibeacon_form :: "string \<Rightarrow> bool" where
  "ibeacon_form s \<longleftrightarrow>
     IsCanonicalUUID (take 36 s) \<and> take 1 (drop 36 s) = ''_'' \<and> digits_pair (drop 37 s)"

text \<open>The documented invariant of \<open>BeaconKey\<close>: a known kind with a canonical, non-empty key.\<close>

definition valid_key :: "BeaconKey \<Rightarrow> bool" where
  "valid_key k \<longleftrightarrow>
     kind k \<in> set knownKinds \<and> key k \<noteq> []
     \<and> (kind k = KindIBeacon \<longrightarrow> ibeacon_form (key k))
     \<and> (kind k = KindEddystoneUID \<longrightarrow> hex_pair 20 12 (key k))
     \<and> (kind k = KindMfg \<longrightarrow> hex_pair 4 16 (key k))"

lemma BeaconKey_eq_iff: "k1 = k2 \<longleftrightarrow> kind k1 = kind k2 \<and> key k1 = key (k2 :: BeaconKey)"
  by (cases k1; cases k2) simp

lemma mk_key_sel [simp]: "kind (mk_key a b) = a" "key (mk_key a b) = b"
  by (simp_all add: mk_key_def)

lemma underscore_not_digit [simp]: "\<not> is_digit (CHR ''_'')"
  by (simp add: is_digit_def in_range_def)

lemma underscore_not_lhex [simp]: "\<not> is_lhex (CHR ''_'')"
  by (simp add: is_lhex_def in_range_def)

lemma dash_not_lhex [simp]: "\<not> is_lhex (CHR ''-'')"
  by (simp add: is_lhex_def in_range_def)

lemma show_nat_no_underscore: "CHR ''_'' \<notin> set (show_nat n)"
  using show_nat_digits underscore_not_digit by blast

lemma lhex_no_underscore: "list_all is_lhex s \<Longrightarrow> CHR ''_'' \<notin> set s"
  by (auto simp: list_all_iff)

lemma lhex_no_dash: "list_all is_lhex s \<Longrightarrow> CHR ''-'' \<notin> set s"
  by (auto simp: list_all_iff)

lemma digits_pair_show: "digits_pair (show_nat m @ ''_'' @ show_nat n)"
  by (simp add: digits_pair_def Cut_char_found show_nat_no_underscore list_all_iff show_nat_digits)

lemma hex_pair_join: "lhex_n m a \<Longrightarrow> lhex_n n b \<Longrightarrow> hex_pair m n (a @ ''_'' @ b)"
  by (simp add: hex_pair_def Cut_char_found lhex_no_underscore lhex_n_def)

lemma hex_pair_split:
  assumes "hex_pair m n s"
  obtains a b where "s = a @ ''_'' @ b" "lhex_n m a" "lhex_n n b"
  using assms unfolding hex_pair_def Let_def
  by (auto split: prod.splits dest!: Cut_char_True)

lemma digits_pair_split:
  assumes "digits_pair s"
  obtains a b where "s = a @ ''_'' @ b" "list_all is_digit a" "list_all is_digit b"
  using assms unfolding digits_pair_def Let_def
  by (auto split: prod.splits dest!: Cut_char_True)

lemma lhex_hex4: "lhex_n 4 (hex4 w)"
proof -
  have "unat w < 65536" using unsigned_less [of w, where ?'a = nat] by simp
  then have "unat w div 4096 < 16" by (simp add: less_mult_imp_div_less)
  then show ?thesis by (simp add: lhex_n_def hex4_def hex_digit_lhex)
qed

lemma lhex_hex_encode: "lhex_n (2 * length bs) (hex_encode bs)"
  by (simp add: lhex_n_def list_all_iff hex_encode_lhex)

text \<open>Every constructor returns a valid key, and \<open>FromStoreKey\<close> returns the row it read.\<close>

lemma NewIBeaconKey_valid: "NewIBeaconKey u a b = Inr k \<Longrightarrow> valid_key k"
  by (auto simp: NewIBeaconKey_def Let_def valid_key_def knownKinds_def ibeacon_form_def
        IsCanonicalUUID_def [of "ToLower (TrimSpace u)"] digits_pair_show [simplified] kind_defs split: if_splits)

lemma NewEddystoneUIDKey_valid: "NewEddystoneUIDKey ns i = Inr k \<Longrightarrow> valid_key k"
  by (auto simp: NewEddystoneUIDKey_def Let_def valid_key_def knownKinds_def kind_defs
        hex_pair_join [simplified] split: if_splits)

lemma NewEddystoneURLKey_valid: "NewEddystoneURLKey u = Inr k \<Longrightarrow> valid_key k"
  by (auto simp: NewEddystoneURLKey_def Let_def valid_key_def knownKinds_def kind_defs split: if_splits)

lemma NewNameKey_valid: "NewNameKey n = Inr k \<Longrightarrow> valid_key k"
  by (auto simp: NewNameKey_def Let_def valid_key_def knownKinds_def kind_defs split: if_splits)

lemma NewMfgKey_valid: "NewMfgKey c p = Inr k \<Longrightarrow> valid_key k"
  using lhex_hex4 [of c] lhex_hex_encode [of "take 8 (sha256 p)"]
  by (auto simp: NewMfgKey_def valid_key_def knownKinds_def kind_defs
        hex_pair_join [simplified] split: if_splits)

lemmas constructors_valid =
  NewIBeaconKey_valid NewEddystoneUIDKey_valid NewEddystoneURLKey_valid NewNameKey_valid
  NewMfgKey_valid


subsection \<open>Slugs\<close>

lemma knownKinds_no_dot: "kd \<in> set knownKinds \<Longrightarrow> CHR ''.'' \<notin> set kd"
  by (auto simp: knownKinds_def kind_defs)

text \<open>
  \<open>ParseSlug\<close> accepts exactly the slugs of keys with a known kind and a non-empty
  key, and gives back the key itself: it is the inverse of \<open>Slug\<close>, also for keys that
  contain further dots.
\<close>

lemma ParseSlug_iff:
  "ParseSlug s = Some k \<longleftrightarrow> kind k \<in> set knownKinds \<and> key k \<noteq> [] \<and> Slug k = s"
proof
  assume "ParseSlug s = Some k"
  then show "kind k \<in> set knownKinds \<and> key k \<noteq> [] \<and> Slug k = s"
    by (auto simp: ParseSlug_def Let_def Slug_def split: prod.splits if_splits dest!: Cut_char_True)
next
  assume k: "kind k \<in> set knownKinds \<and> key k \<noteq> [] \<and> Slug k = s"
  then have "Cut_char (CHR ''.'') s = (kind k, key k, True)"
    by (auto simp: Slug_def intro!: Cut_char_found knownKinds_no_dot)
  with k show "ParseSlug s = Some k"
    by (simp add: ParseSlug_def BeaconKey_eq_iff)
qed

subsection \<open>Entity ids\<close>

lemma remove_char_none: "c \<notin> set s \<Longrightarrow> remove_char c s = s"
  by (simp add: remove_char_def filter_id_conv) metis

lemma remove_char_Cons: "remove_char c (x # s) = (if x = c then remove_char c s else x # remove_char c s)"
  by (simp add: remove_char_def)

lemma remove_char_append: "remove_char c (a @ b) = remove_char c a @ remove_char c b"
  by (simp add: remove_char_def)

text \<open>A canonical UUID is five groups of digits between dashes.\<close>

lemma uuid_groups:
  assumes "IsCanonicalUUID s"
  obtains a b c d e where
    "s = a @ ''-'' @ b @ ''-'' @ c @ ''-'' @ d @ ''-'' @ e"
    "lhex_n 8 a" "lhex_n 4 b" "lhex_n 4 c" "lhex_n 4 d" "lhex_n 12 e"
proof -
  have len: "length s = 36" and dash: "s ! 8 = CHR ''-''" "s ! 13 = CHR ''-''" "s ! 18 = CHR ''-''"
    "s ! 23 = CHR ''-''" using assms by (auto simp: IsCanonicalUUID_def)
  have cut: "drop i s = s ! i # drop (Suc i) s" if "i < 36" for i
    using that len by (simp add: Cons_nth_drop_Suc)
  have seg: "drop i s = take n (drop i s) @ drop (i + n) s" for i n
    by (metis append_take_drop_id drop_drop add.commute)
  have "s = take 8 s @ ''-'' @ take 4 (drop 9 s) @ ''-'' @ take 4 (drop 14 s) @ ''-''
          @ take 4 (drop 19 s) @ ''-'' @ drop 24 s"
    using seg [of 0 8] seg [of 9 4] seg [of 14 4] seg [of 19 4] cut [of 8] cut [of 13] cut [of 18]
      cut [of 23] dash by simp
  then show thesis
    using assms by (intro that) (auto simp: IsCanonicalUUID_def)
qed

definition dashless :: "string \<Rightarrow> string" where
  "dashless s = remove_char (CHR ''-'') s"

lemma dashless_uuid_inj:
  assumes "IsCanonicalUUID u" "IsCanonicalUUID v" "dashless u = dashless v"
  shows "u = v"
proof -
  obtain a b c d e where u: "u = a @ ''-'' @ b @ ''-'' @ c @ ''-'' @ d @ ''-'' @ e"
    and ul: "lhex_n 8 a" "lhex_n 4 b" "lhex_n 4 c" "lhex_n 4 d" "lhex_n 12 e"
    using assms(1) by (rule uuid_groups)
  obtain a' b' c' d' e' where v: "v = a' @ ''-'' @ b' @ ''-'' @ c' @ ''-'' @ d' @ ''-'' @ e'"
    and vl: "lhex_n 8 a'" "lhex_n 4 b'" "lhex_n 4 c'" "lhex_n 4 d'" "lhex_n 12 e'"
    using assms(2) by (rule uuid_groups)
  have strip: "dashless x = x" if "lhex_n n x" for n x
    using that by (simp add: dashless_def remove_char_none lhex_no_dash lhex_n_def)
  have "a @ b @ c @ d @ e = a' @ b' @ c' @ d' @ e'"
    using assms(3) ul vl
    by (simp add: u v dashless_def remove_char_append remove_char_Cons strip [unfolded dashless_def])
  then show ?thesis using ul vl by (simp add: u v lhex_n_def)
qed

lemma length_dashless_uuid: "IsCanonicalUUID u \<Longrightarrow> length (dashless u) = 32"
  by (erule uuid_groups)
     (simp add: dashless_def remove_char_append remove_char_Cons remove_char_none lhex_no_dash lhex_n_def)

lemma ibeacon_form_split:
  assumes "ibeacon_form s"
  obtains u a b where "s = u @ ''_'' @ a @ ''_'' @ b" "IsCanonicalUUID u"
    "list_all is_digit a" "list_all is_digit b"
proof -
  from assms obtain a b where ab: "drop 37 s = a @ ''_'' @ b" "list_all is_digit a" "list_all is_digit b"
    unfolding ibeacon_form_def by (blast elim: digits_pair_split)
  have "s = take 36 s @ take 1 (drop 36 s) @ drop 37 s"
    by (metis append_take_drop_id drop_drop eval_nat_numeral(3) numeral_One plus_1_eq_Suc
        semiring_norm(26,27,28) add.commute)
  with assms ab show thesis by (intro that [of "take 36 s" a b]) (auto simp: ibeacon_form_def)
qed

lemma digit_no_dash: "list_all is_digit a \<Longrightarrow> CHR ''-'' \<notin> set a"
  by (auto simp: list_all_iff is_digit_def in_range_def)

lemma dashless_ibeacon:
  assumes "list_all is_digit a" "list_all is_digit b"
  shows "dashless (u @ ''_'' @ a @ ''_'' @ b) = dashless u @ ''_'' @ a @ ''_'' @ b"
  using assms by (simp add: dashless_def remove_char_append remove_char_Cons remove_char_none digit_no_dash)

lemma dashless_ibeacon_inj:
  assumes "ibeacon_form s" "ibeacon_form t" "dashless s = dashless t"
  shows "s = t"
proof -
  obtain u a b where s: "s = u @ ''_'' @ a @ ''_'' @ b" and u: "IsCanonicalUUID u"
    and d: "list_all is_digit a" "list_all is_digit b"
    using assms(1) by (rule ibeacon_form_split)
  obtain u' a' b' where t: "t = u' @ ''_'' @ a' @ ''_'' @ b'" and u': "IsCanonicalUUID u'"
    and d': "list_all is_digit a'" "list_all is_digit b'"
    using assms(2) by (rule ibeacon_form_split)
  have "dashless u @ ''_'' @ a @ ''_'' @ b = dashless u' @ ''_'' @ a' @ ''_'' @ b'"
    using assms(3) unfolding s t by (simp only: dashless_ibeacon d d')
  then have "dashless u = dashless u'" and "a @ ''_'' @ b = a' @ ''_'' @ b'"
    by (simp_all add: append_eq_append_conv length_dashless_uuid u u')
  with dashless_uuid_inj [OF u u'] show ?thesis by (simp add: s t)
qed


definition free_form :: "Kind \<Rightarrow> bool" where
  "free_form kd \<longleftrightarrow> kd = KindEddystoneURL \<or> kd = KindName"

lemma length_shortHash [simp]: "length (shortHash s) = 8"
  by (simp add: shortHash_def)

lemma valid_kind_cases:
  assumes "valid_key k"
  shows "kind k = KindIBeacon \<or> kind k = KindEddystoneUID \<or> kind k = KindEddystoneURL
         \<or> kind k = KindName \<or> kind k = KindMfg"
  using assms by (auto simp: valid_key_def knownKinds_def)

text \<open>The part of an entity id after the prefix and the kind.\<close>

definition entity_tail :: "BeaconKey \<Rightarrow> string" where
  "entity_tail k =
     (if kind k = KindIBeacon then dashless (key k)
      else if free_form (kind k) then sanitizeFree (key k) @ ''_'' @ shortHash (key k)
      else key k)"

lemma EntityID_tail:
  assumes "valid_key k"
  shows "EntityID k = ''briihass_'' @ kind k @ ''_'' @ entity_tail k"
  using valid_kind_cases [OF assms]
  by (elim disjE) (simp_all add: EntityID_def entity_tail_def dashless_def free_form_def kind_defs)

lemma EntityID_same_kind:
  assumes "valid_key k1" "valid_key k2" "EntityID k1 = EntityID k2"
  shows "kind k1 = kind k2"
proof -
  have "kind k1 @ ''_'' @ entity_tail k1 = kind k2 @ ''_'' @ entity_tail k2"
    using assms by (simp add: EntityID_tail)
  then show ?thesis
    using valid_kind_cases [OF assms(1)] valid_kind_cases [OF assms(2)]
    by (elim disjE) (simp_all add: kind_defs)
qed

text \<open>
  C26: two valid beacons have the same Home Assistant entity id exactly when they are the
  same beacon, or both are free-form keys (URL or local name) of the same kind whose
  readable parts agree and whose exact keys collide in the first four bytes of SHA-256.
  In particular the ids of iBeacon, Eddystone-UID and manufacturer keys never collide.
\<close>

theorem entity_id_collision:
  assumes "valid_key k1" "valid_key k2"
  shows "EntityID k1 = EntityID k2 \<longleftrightarrow>
           k1 = k2 \<or> (kind k1 = kind k2 \<and> free_form (kind k1)
                      \<and> sanitizeFree (key k1) = sanitizeFree (key k2)
                      \<and> shortHash (key k1) = shortHash (key k2))"
proof
  assume eq: "EntityID k1 = EntityID k2"
  have kd: "kind k1 = kind k2" by (rule EntityID_same_kind [OF assms eq])
  then have tl: "entity_tail k1 = entity_tail k2" using eq assms by (simp add: EntityID_tail)
  show "k1 = k2 \<or> (kind k1 = kind k2 \<and> free_form (kind k1)
          \<and> sanitizeFree (key k1) = sanitizeFree (key k2) \<and> shortHash (key k1) = shortHash (key k2))"
  proof (cases "free_form (kind k1)")
    case True
    then have "kind k1 \<noteq> KindIBeacon" by (auto simp: free_form_def kind_defs)
    with True tl kd show ?thesis by (simp add: entity_tail_def append_eq_append_conv)
  next
    case False
    then have "key k1 = key k2"
      using tl kd assms dashless_ibeacon_inj
      by (auto simp: entity_tail_def valid_key_def split: if_splits)
    with kd show ?thesis by (simp add: BeaconKey_eq_iff)
  qed
next
  assume "k1 = k2 \<or> (kind k1 = kind k2 \<and> free_form (kind k1)
            \<and> sanitizeFree (key k1) = sanitizeFree (key k2) \<and> shortHash (key k1) = shortHash (key k2))"
  moreover have "kind k \<noteq> KindIBeacon" if "free_form (kind k)" for k
    using that by (auto simp: free_form_def kind_defs)
  ultimately show "EntityID k1 = EntityID k2"
    by (auto simp: EntityID_tail [OF assms(1)] EntityID_tail [OF assms(2)] entity_tail_def)
qed

theorem entity_id_collision_witness:
  "let u = ''e2c56db5-dffb-48d2-b060-d0f5a71096e0'';
       k1 = mk_key KindIBeacon (u @ ''_1_23''); k2 = mk_key KindIBeacon (u @ ''_12_3'')
   in valid_key k1 \<and> valid_key k2 \<and> EntityID k1 \<noteq> EntityID k2"
proof -
  let ?u = "''e2c56db5-dffb-48d2-b060-d0f5a71096e0''"
  let ?k1 = "mk_key KindIBeacon (?u @ ''_1_23'')"
  let ?k2 = "mk_key KindIBeacon (?u @ ''_12_3'')"
  have v: "valid_key ?k1" "valid_key ?k2" by code_simp+
  have "\<not> free_form KindIBeacon" by code_simp
  then show ?thesis
    using entity_id_collision [OF v] v by (simp add: BeaconKey_eq_iff Let_def)
qed

subsection \<open>The alphabet of entity ids\<close>

lemma safe_lhex: "is_lhex c \<Longrightarrow> label_char c"
  by (auto simp: is_lhex_def label_char_def safe_rune_def in_range_def)

lemma safe_digit: "is_digit c \<Longrightarrow> label_char c"
  by (rule safe_lhex) (rule is_digit_lhex)

lemma safe_underscore [simp]: "label_char (CHR ''_'')"
  by (simp add: label_char_def safe_rune_def)

lemma safe_rune_char: "safe_rune r \<Longrightarrow> label_char (char_of r)"
  by (auto simp: safe_rune_def label_char_def in_range_def code_char_of)

lemma sanitize_loop_safe:
  "list_all label_char b \<Longrightarrow> list_all label_char (sanitize_loop rs lu b)"
  by (induction rs lu b rule: sanitize_loop.induct)
     (auto simp: Let_def safe_rune_char, simp_all add: safe_rune_def safe_rune_char)

lemma sanitizeFree_safe: "list_all label_char (sanitizeFree s)"
  using sanitize_loop_safe [of "[]" "runes (ToLower s)" False]
  by (auto simp: sanitizeFree_def Trim_char_def list_all_iff dest: set_trim_both)

lemma sanitize_loop_length:
  "length b < freeReadableMax \<Longrightarrow> length (sanitize_loop rs lu b) \<le> freeReadableMax"
  by (induction rs lu b rule: sanitize_loop.induct) (auto simp: Let_def)

lemma length_trim_both: "length (trim_both p xs) \<le> length xs"
  by (metis trim_both_def length_dropWhile_le length_rev le_trans)

lemma sanitizeFree_length: "length (sanitizeFree s) \<le> 32"
  using sanitize_loop_length [of "[]" "runes (ToLower s)" False]
    length_trim_both [of "\<lambda>x. x = CHR ''_''" "sanitize_loop (runes (ToLower s)) False []"]
  by (simp add: sanitizeFree_def Trim_char_def freeReadableMax_def)

lemma safe_hex_n: "lhex_n n s \<Longrightarrow> list_all label_char s"
  by (auto simp: lhex_n_def list_all_iff safe_lhex)

lemma safe_hex_pair: "hex_pair m n s \<Longrightarrow> list_all label_char s"
  by (erule hex_pair_split) (auto dest!: safe_hex_n)

lemma safe_dashless_uuid:
  assumes "IsCanonicalUUID u"
  shows "list_all label_char (dashless u)"
  using assms
  by (rule uuid_groups)
     (auto simp: dashless_def remove_char_append remove_char_Cons list_all_iff remove_char_def lhex_n_def safe_lhex)

lemma safe_dashless_ibeacon: "ibeacon_form s \<Longrightarrow> list_all label_char (dashless s)"
  by (erule ibeacon_form_split)
     (auto simp: dashless_ibeacon [simplified] safe_dashless_uuid, auto simp: list_all_iff safe_digit)

lemma safe_entity_tail: "valid_key k \<Longrightarrow> list_all label_char (entity_tail k)"
  using valid_kind_cases [of k] lhex_hex_encode [of "take 4 (sha256 (bytes_of_string (key k)))"]
  by (auto simp: entity_tail_def valid_key_def sanitizeFree_safe safe_dashless_ibeacon safe_hex_pair
        shortHash_def safe_hex_n free_form_def)

lemma EntityID_safe:
  assumes "valid_key k"
  shows "list_all label_char (EntityID k)"
proof -
  have "list_all label_char (kind k)"
    using valid_kind_cases [OF assms]
    by (elim disjE) (simp_all add: kind_defs label_char_def safe_rune_def in_range_def)
  then show ?thesis
    using safe_entity_tail [OF assms]
    by (simp add: EntityID_tail [OF assms] label_char_def safe_rune_def in_range_def)
qed

text \<open>
  The entity id of a valid beacon consists of lower-case letters, digits and
  underscores only, so it is safe inside an MQTT topic and as a Home Assistant object id.
\<close>

theorem entity_id_alphabet:
  assumes "valid_key k"
  shows "list_all label_char (EntityID k)"
  using assms by (rule EntityID_safe)

theorem entity_id_alphabet_witness:
  "let k = mk_key KindName ''Key Fob/#1'' in valid_key k \<and> list_all label_char (EntityID k)"
proof -
  have "valid_key (mk_key KindName ''Key Fob/#1'')"
    by (simp add: valid_key_def knownKinds_def kind_defs)
  with entity_id_alphabet [OF this] show ?thesis by simp
qed

subsection \<open>MAC addresses\<close>


text \<open>The three notations that \<open>net.ParseMAC\<close> reads.\<close>

fun mac_join :: "char \<Rightarrow> bytes \<Rightarrow> string" where
  "mac_join e [] = []"
| "mac_join e [b] = hex_byte b"
| "mac_join e (b # bs) = hex_byte b @ e # mac_join e bs"

fun mac_dotted :: "bytes \<Rightarrow> string" where
  "mac_dotted [b, c] = hex_byte b @ hex_byte c"
| "mac_dotted (b # c # bs) = hex_byte b @ hex_byte c @ ''.'' @ mac_dotted bs"
| "mac_dotted _ = []"

lemma mac_string_join: "mac_string bs = mac_join (CHR '':'') bs"
  by (induction bs rule: mac_string.induct) auto

lemma xtoi2_hex_byte: "rest = [] \<or> hd rest = e \<Longrightarrow> xtoi2 (hex_byte b @ rest) e = Some b"
  using hex_decode_byte [of b "[]"] by (auto simp: hex_byte_def split: option.splits)

lemma parse_pairs_join: "bs \<noteq> [] \<Longrightarrow> parse_pairs e (length bs) (mac_join e bs) = Some bs"
proof (induction e bs rule: mac_join.induct)
  case (2 e b)
  then show ?case using xtoi2_hex_byte [of "[]" e b] by (simp del: xtoi2.simps)
next
  case (3 e b c cs)
  then show ?case
    using xtoi2_hex_byte [of "e # mac_join e (c # cs)" e b] by (simp del: xtoi2.simps)
qed simp

lemma parse_quads_dotted:
  "bs \<noteq> [] \<Longrightarrow> even (length bs) \<Longrightarrow>
   parse_quads (CHR ''.'') (length bs div 2) (mac_dotted bs) = Some bs"
proof (induction bs rule: mac_dotted.induct)
  case (1 b c)
  then show ?case
    using xtoi2_hex_byte [of "[]" "CHR 0x00" b] xtoi2_hex_byte [of "[]" "CHR ''.''" c]
    by (simp del: xtoi2.simps)
next
  case (2 b c d ds)
  then show ?case
    using xtoi2_hex_byte [of "[]" "CHR 0x00" b]
      xtoi2_hex_byte [of "CHR ''.'' # mac_dotted (d # ds)" "CHR ''.''" c]
    by (simp del: xtoi2.simps)
qed simp_all

lemma length_mac_join: "bs \<noteq> [] \<Longrightarrow> length (mac_join e bs) + 1 = 3 * length bs"
  by (induction e bs rule: mac_join.induct) auto

lemma six_bytes:
  assumes "length hw = 6"
  obtains a b c d e f where "hw = [a, b, c, d, e, f]"
  using assms by (auto simp: length_Suc_conv eval_nat_numeral)

lemma lhex_not_sep: "is_lhex (CHR '':'') = False" "is_lhex (CHR ''.'') = False"
  by (simp_all add: is_lhex_def in_range_def)

lemma ParseMAC_join:
  assumes "length hw = 6" "e = CHR '':'' \<or> e = CHR ''-''"
  shows "ParseMAC (mac_join e hw) = Some hw"
proof -
  have len: "length (mac_join e hw) = 17" using assms(1) length_mac_join [of hw e] by (cases hw) auto
  have "mac_join e hw ! 2 = e"
    using assms(1) by (auto elim!: six_bytes simp: hex_byte_def)
  moreover have "parse_pairs e 6 (mac_join e hw) = Some hw"
    using parse_pairs_join [of hw e] assms(1) by fastforce
  ultimately show ?thesis
    using assms len by (auto simp: ParseMAC_def Let_def)
qed

lemma mac_join_nonempty: "length hw = 6 \<Longrightarrow> mac_join e hw \<noteq> []"
  by (auto elim!: six_bytes simp: hex_byte_def)

lemma ParseMAC_dotted:
  assumes "length hw = 6"
  shows "ParseMAC (mac_dotted hw) = Some hw"
proof -
  obtain a b c d e f where hw: "hw = [a, b, c, d, e, f]" using assms by (rule six_bytes)
  have "hd (hex_byte b) \<in> set (hex_byte b)" by (simp add: hex_byte_def)
  then have "is_lhex (hd (hex_byte b))" by (rule hex_byte_lhex)
  then have "mac_dotted hw ! 2 \<noteq> CHR '':''" "mac_dotted hw ! 2 \<noteq> CHR ''-''" "mac_dotted hw ! 4 = CHR ''.''"
    by (auto simp: hw hex_byte_def lhex_not_sep)
  moreover have "length (mac_dotted hw) = 14" by (simp add: hw)
  moreover have "parse_quads (CHR ''.'') 3 (mac_dotted hw) = Some hw"
    using parse_quads_dotted [of hw] assms by (simp add: hw numeral_3_eq_3 del: parse_quads.simps mac_dotted.simps)
  ultimately show ?thesis by (simp add: ParseMAC_def Let_def)
qed

lemma mac_join_plain:
  "is_plain e \<Longrightarrow> c \<in> set (mac_join e bs) \<Longrightarrow> is_plain c"
  by (induction e bs rule: mac_join.induct) (auto dest: hex_byte_lhex is_lhex_plain)

lemma plain_seps [simp]:
  "is_plain (CHR '':'')" "is_plain (CHR ''-'')" "is_plain (CHR ''.'')"
  by (simp_all add: is_plain_def is_space_rune_def in_range_def)

lemma mac_dotted_plain: "c \<in> set (mac_dotted bs) \<Longrightarrow> is_plain c"
  by (induction bs rule: mac_dotted.induct) (auto dest: hex_byte_lhex is_lhex_plain)

lemma NewAPMAC_parse:
  assumes "\<And>c. c \<in> set s \<Longrightarrow> is_plain c" "s \<noteq> []" "ParseMAC s = Some hw" "length hw = 6"
  shows "NewAPMAC s = Inr \<lparr>mac = mac_string hw\<rparr>"
  using assms TrimSpace_plain [of s] by (simp add: NewAPMAC_def)

lemma NewAPMAC_Inr:
  assumes "NewAPMAC s = Inr m"
  obtains hw where "m = \<lparr>mac = mac_join (CHR '':'') hw\<rparr>" "length hw = 6"
  using assms by (auto simp: NewAPMAC_def Let_def mac_string_join split: if_splits option.splits)

text \<open>
  For every six-byte address, the colon, the dash and the dotted notation all
  canonicalise to the same value, the lower-case colon form. A value that \<open>NewAPMAC\<close>
  returned is therefore accepted again unchanged: canonicalisation is idempotent.
\<close>

theorem ap_mac_canonical:
  assumes "length hw = 6"
  shows "NewAPMAC (mac_join (CHR '':'') hw) = Inr \<lparr>mac = mac_join (CHR '':'') hw\<rparr>
       \<and> NewAPMAC (mac_join (CHR ''-'') hw) = Inr \<lparr>mac = mac_join (CHR '':'') hw\<rparr>
       \<and> NewAPMAC (mac_dotted hw) = Inr \<lparr>mac = mac_join (CHR '':'') hw\<rparr>
       \<and> (\<forall>s m. NewAPMAC s = Inr m \<longrightarrow> NewAPMAC (mac m) = Inr m)"
proof -
  have join: "NewAPMAC (mac_join e h) = Inr \<lparr>mac = mac_join (CHR '':'') h\<rparr>"
    if "length h = 6" "e = CHR '':'' \<or> e = CHR ''-''" for e h
  proof -
    have "\<And>c. c \<in> set (mac_join e h) \<Longrightarrow> is_plain c" using that(2) mac_join_plain by force
    from NewAPMAC_parse [OF this mac_join_nonempty [OF that(1)] ParseMAC_join [OF that] that(1)]
    show ?thesis by (simp add: mac_string_join)
  qed
  have "mac_dotted hw \<noteq> []" using assms by (auto elim!: six_bytes simp: hex_byte_def)
  then have "NewAPMAC (mac_dotted hw) = Inr \<lparr>mac = mac_join (CHR '':'') hw\<rparr>"
    using NewAPMAC_parse [OF mac_dotted_plain _ ParseMAC_dotted [OF assms]] assms
    by (simp add: mac_string_join)
  moreover have "NewAPMAC (mac m) = Inr m" if acc: "NewAPMAC s = Inr m" for s m
    using acc by (rule NewAPMAC_Inr) (simp add: join)
  ultimately show ?thesis by (simp add: join assms)
qed

theorem ap_mac_canonical_witness:
  "NewAPMAC ''aabb.cc00.1122'' = Inr \<lparr>mac = ''aa:bb:cc:00:11:22''\<rparr>"
proof -
  let ?hw = "[0xaa, 0xbb, 0xcc, 0, 0x11, 0x22] :: bytes"
  have "NewAPMAC (mac_dotted ?hw) = Inr \<lparr>mac = mac_join (CHR '':'') ?hw\<rparr>"
    using ap_mac_canonical [of ?hw] by simp
  moreover have "mac_dotted ?hw = ''aabb.cc00.1122''" by code_simp
  moreover have "mac_join (CHR '':'') ?hw = ''aa:bb:cc:00:11:22''" by code_simp
  ultimately show ?thesis by (simp only:)
qed

subsection \<open>Zone labels\<close>

lemma NewZoneLabel_iff: "NewZoneLabel s = Inr z \<longleftrightarrow> IsValidZoneLabel s \<and> label z = s"
  by (cases z) (auto simp: NewZoneLabel_def IsValidZoneLabel_def)

text \<open>
  A state built from a validated zone label is not always told apart from "away": the
  label \<open>not_home\<close> passes the validation, and the state that it projects to is the
  away state. It is the only label with that effect.
\<close>

theorem zone_label_not_home:
  "(\<exists>z. NewZoneLabel s = Inr z \<and> IsNotHome (PresenceStateFromZone z)) \<longleftrightarrow> s = ''not_home''"
proof -
  have "NewZoneLabel ''not_home'' = Inr \<lparr>label = ''not_home''\<rparr>" by code_simp
  then show ?thesis
    by (auto simp: IsNotHome_def PresenceStateFromZone_def StateNotHome_def)
       (simp add: NewZoneLabel_iff)
qed

end
