(* ===== verification/Go_Float.thy ===== *)
theory Go_Float
  imports Prelude Complex_Main "HOL-Library.Log_Nat"
begin

section \<open>Go's float64\<close>

text \<open>
  IEEE 754 binary64 as Go computes with it: a finite value is the rational number
  it stands for, and every operation is the exact rational operation followed by
  rounding to nearest, ties to even, in 53 bits of precision down to the subnormal
  range; what rounds to \<open>2 ^ 1024\<close> or more is an infinity. Comparisons with NaN are
  false. The two zeros are one value (no expression of the program tells them
  apart; only a page that shows the number would print \<open>-0\<close> for the other).

  The lemmas are the two facts the component proofs use of rounding: it is
  monotone, and it leaves alone every number with at most 53 significant bits.
\<close>

subsection \<open>The binary exponent of a positive rational\<close>

definition ilog2 :: "rat \<Rightarrow> int" where
  "ilog2 x = (if 1 \<le> x then bitlen \<lfloor>x\<rfloor> - 1 else - bitlen (\<lceil>1 / x\<rceil> - 1))"

definition ulp_exp :: "rat \<Rightarrow> int" where
  "ulp_exp x = max (ilog2 x - 52) (- 1074)"

subsection \<open>Rounding to the nearest integer, ties to even\<close>

definition round_even :: "rat \<Rightarrow> int" where
  "round_even y =
     (let f = \<lfloor>y\<rfloor>; d = y - of_int f in
      if d < 1 / 2 then f
      else if 1 / 2 < d then f + 1
      else if even f then f else f + 1)"

subsection \<open>Rounding to 53 bits\<close>

definition rnd_pos :: "rat \<Rightarrow> rat" where
  "rnd_pos x = of_int (round_even (x / 2 powi ulp_exp x)) * 2 powi ulp_exp x"

definition rnd :: "rat \<Rightarrow> rat" where
  "rnd x = (if x = 0 then 0 else if 0 < x then rnd_pos x else - rnd_pos (- x))"

datatype float64 = Fin rat | PInf | NInf | NaN

definition mk64 :: "rat \<Rightarrow> float64" where
  "mk64 x =
     (let r = rnd x in
      if 2 ^ 1024 \<le> r then PInf else if r \<le> - (2 ^ 1024) then NInf else Fin r)"

subsection \<open>Operations\<close>

fun fneg :: "float64 \<Rightarrow> float64" where
  "fneg (Fin a) = Fin (- a)"
| "fneg PInf = NInf"
| "fneg NInf = PInf"
| "fneg NaN = NaN"

fun fadd :: "float64 \<Rightarrow> float64 \<Rightarrow> float64" where
  "fadd NaN b = NaN"
| "fadd a NaN = NaN"
| "fadd PInf NInf = NaN"
| "fadd NInf PInf = NaN"
| "fadd PInf b = PInf"
| "fadd NInf b = NInf"
| "fadd a PInf = PInf"
| "fadd a NInf = NInf"
| "fadd (Fin a) (Fin b) = mk64 (a + b)"

definition fsub :: "float64 \<Rightarrow> float64 \<Rightarrow> float64" where
  "fsub a b = fadd a (fneg b)"

definition inf_sgn :: "rat \<Rightarrow> float64" where
  "inf_sgn a = (if a = 0 then NaN else if 0 < a then PInf else NInf)"

fun fmul :: "float64 \<Rightarrow> float64 \<Rightarrow> float64" where
  "fmul NaN b = NaN"
| "fmul a NaN = NaN"
| "fmul PInf PInf = PInf"
| "fmul PInf NInf = NInf"
| "fmul NInf PInf = NInf"
| "fmul NInf NInf = PInf"
| "fmul (Fin a) PInf = inf_sgn a"
| "fmul PInf (Fin a) = inf_sgn a"
| "fmul (Fin a) NInf = inf_sgn (- a)"
| "fmul NInf (Fin a) = inf_sgn (- a)"
| "fmul (Fin a) (Fin b) = mk64 (a * b)"

text \<open>Division by a positive finite constant, the only division of the program.\<close>

fun fdivc :: "float64 \<Rightarrow> rat \<Rightarrow> float64" where
  "fdivc (Fin a) c = mk64 (a / c)"
| "fdivc PInf c = PInf"
| "fdivc NInf c = NInf"
| "fdivc NaN c = NaN"

definition f_of_int :: "int \<Rightarrow> float64" where
  "f_of_int n = mk64 (of_int n)"

text \<open>
  \<open>int64(f)\<close> truncates towards zero; a value outside the range of \<open>int64\<close> has an
  implementation-defined result, here that of amd64.
\<close>

definition f_to_int64 :: "float64 \<Rightarrow> int" where
  "f_to_int64 a =
     (case a of
        Fin r \<Rightarrow> (let n = (if 0 \<le> r then \<lfloor>r\<rfloor> else \<lceil>r\<rceil>) in if in_s64 n then n else - (2 ^ 63))
      | _ \<Rightarrow> - (2 ^ 63))"

fun flt :: "float64 \<Rightarrow> float64 \<Rightarrow> bool" where
  "flt NaN b = False"
| "flt a NaN = False"
| "flt PInf b = False"
| "flt a NInf = False"
| "flt NInf b = True"
| "flt a PInf = True"
| "flt (Fin a) (Fin b) = (a < b)"

fun fle :: "float64 \<Rightarrow> float64 \<Rightarrow> bool" where
  "fle NaN b = False"
| "fle a NaN = False"
| "fle NInf b = True"
| "fle a PInf = True"
| "fle PInf b = False"
| "fle a NInf = False"
| "fle (Fin a) (Fin b) = (a \<le> b)"

definition f_is_nan :: "float64 \<Rightarrow> bool" where
  "f_is_nan a \<longleftrightarrow> a = NaN"

text \<open>\<open>d.Seconds()\<close>: whole seconds and the rest, each converted, then added.\<close>

definition dur_seconds :: "duration \<Rightarrow> float64" where
  "dur_seconds d =
     fadd (f_of_int (gquot d second)) (fdivc (f_of_int (grem d second)) 1000000000)"

subsection \<open>The exponent\<close>

lemma pow2_pos [simp]: "0 < (2 :: rat) powi n"
  by (simp add: zero_less_power_int)

lemma pow2_of_int_le: "2 ^ k \<le> n \<Longrightarrow> (2 :: rat) ^ k \<le> of_int n"
  by (metis of_int_le_iff of_int_numeral of_int_power)

lemma of_int_le_pow2: "n \<le> 2 ^ k \<Longrightarrow> of_int n \<le> (2 :: rat) ^ k"
  by (metis of_int_le_iff of_int_numeral of_int_power)

lemma ilog2_bounds:
  assumes "0 < x"
  shows "2 powi ilog2 x \<le> x" and "x < 2 powi (ilog2 x + 1)"
proof -
  have "2 powi ilog2 x \<le> x \<and> x < 2 powi (ilog2 x + 1)"
  proof (cases "1 \<le> x")
    case True
    let ?n = "\<lfloor>x\<rfloor>" let ?b = "bitlen \<lfloor>x\<rfloor>"
    from True have n: "1 \<le> ?n" by simp
    then have b: "1 \<le> ?b" using bitlen_eq_zero_iff [of ?n] bitlen_nonneg [of ?n] by linarith
    from n have "2 ^ nat (?b - 1) \<le> ?n" and "?n + 1 \<le> 2 ^ nat ?b"
      using bitlen_bounds [of ?n] by auto
    from pow2_of_int_le [OF this(1)] of_int_le_pow2 [OF this(2)]
    have "(2 :: rat) ^ nat (?b - 1) \<le> x" and "x < 2 ^ nat ?b" by linarith+
    with b True show ?thesis by (simp add: ilog2_def power_int_def)
  next
    case False
    let ?n = "\<lceil>1 / x\<rceil>" let ?m = "bitlen (\<lceil>1 / x\<rceil> - 1)"
    from False assms have "1 < 1 / x" by simp
    then have n: "1 \<le> ?n - 1" by linarith
    then have m: "1 \<le> ?m"
      using bitlen_eq_zero_iff [of "?n - 1"] bitlen_nonneg [of "?n - 1"] by linarith
    from n have "2 ^ nat (?m - 1) \<le> ?n - 1" and "?n \<le> 2 ^ nat ?m"
      using bitlen_bounds [of "?n - 1"] by auto
    from pow2_of_int_le [OF this(1)] of_int_le_pow2 [OF this(2)]
    have "(2 :: rat) ^ nat (?m - 1) < 1 / x" and "1 / x \<le> 2 ^ nat ?m" by linarith+
    with assms have "x < 1 / 2 ^ nat (?m - 1)" and "1 / 2 ^ nat ?m \<le> x"
      by (simp_all add: field_simps)
    moreover have "ilog2 x = - ?m" using False by (simp add: ilog2_def)
    moreover have "(2 :: rat) powi (- ?m) = 1 / 2 ^ nat ?m"
      using m by (simp add: power_int_def power_one_over)
    moreover have "(2 :: rat) powi (- ?m + 1) = 1 / 2 ^ nat (?m - 1)"
      using m by (cases "?m = 1") (simp_all add: power_int_def power_one_over)
    ultimately show ?thesis by simp
  qed
  then show "2 powi ilog2 x \<le> x" and "x < 2 powi (ilog2 x + 1)" by auto
qed

lemma ilog2_mono:
  assumes "0 < x" and "x \<le> y"
  shows "ilog2 x \<le> ilog2 y"
proof (rule ccontr)
  assume "\<not> ?thesis"
  then have "(2 :: rat) powi (ilog2 y + 1) \<le> 2 powi ilog2 x"
    by (intro power_int_increasing) auto
  with ilog2_bounds [of x] ilog2_bounds [of y] assms show False by linarith
qed

lemma ulp_exp_mono: "0 < x \<Longrightarrow> x \<le> y \<Longrightarrow> ulp_exp x \<le> ulp_exp y"
  using ilog2_mono [of x y] by (auto simp: ulp_exp_def)

subsection \<open>Rounding\<close>

lemma round_even_of_int [simp]: "round_even (of_int n) = n"
  by (simp add: round_even_def)

lemma round_even_near: "of_int n - 1 / 2 < y \<Longrightarrow> y < of_int n + 1 / 2 \<Longrightarrow> round_even y = n"
proof -
  assume lo: "of_int n - 1 / 2 < y" and hi: "y < of_int n + 1 / 2"
  show ?thesis
  proof (cases "of_int n \<le> y")
    case True
    with hi have "\<lfloor>y\<rfloor> = n" by linarith
    with hi show ?thesis by (simp add: round_even_def Let_def)
  next
    case False
    with lo have "\<lfloor>y\<rfloor> = n - 1" by linarith
    with lo show ?thesis by (simp add: round_even_def Let_def)
  qed
qed

lemma round_even_floor: "round_even y = \<lfloor>y\<rfloor> \<or> round_even y = \<lfloor>y\<rfloor> + 1"
  by (auto simp: round_even_def Let_def)

lemma round_even_mono:
  assumes "x \<le> y"
  shows "round_even x \<le> round_even y"
proof (cases "\<lfloor>x\<rfloor> = \<lfloor>y\<rfloor>")
  case True
  with assms show ?thesis by (auto simp: round_even_def Let_def)
next
  case False
  with floor_mono [OF assms] have "\<lfloor>x\<rfloor> + 1 \<le> \<lfloor>y\<rfloor>" by linarith
  with round_even_floor [of x] round_even_floor [of y] show ?thesis by linarith
qed

lemma round_even_nonneg: "0 \<le> y \<Longrightarrow> 0 \<le> round_even y"
  using round_even_mono [of 0 y] round_even_of_int [of 0] by simp

text \<open>A number of the binade of \<open>x\<close>, scaled by its unit in the last place.\<close>

lemma rnd_pos_nonneg: "0 < x \<Longrightarrow> 0 \<le> rnd_pos x"
  by (simp add: rnd_pos_def round_even_nonneg)

lemma rnd_pos_scaled:
  assumes "0 < x" and "x \<le> of_int k * 2 powi ulp_exp x"
  shows "rnd_pos x \<le> of_int k * 2 powi ulp_exp x"
proof -
  have "round_even (x / 2 powi ulp_exp x) \<le> round_even (of_int k)"
    using assms by (intro round_even_mono) (simp add: field_simps)
  then show ?thesis by (simp add: rnd_pos_def)
qed

lemma rnd_pos_scaled_ge:
  assumes "0 < x" and "of_int k * 2 powi ulp_exp x \<le> x"
  shows "of_int k * 2 powi ulp_exp x \<le> rnd_pos x"
proof -
  have "round_even (of_int k) \<le> round_even (x / 2 powi ulp_exp x)"
    using assms by (intro round_even_mono) (simp add: field_simps)
  then show ?thesis by (simp add: rnd_pos_def)
qed

text \<open>Multiples of a unit in the last place stay multiples of every smaller one.\<close>

lemma pow2_multiple:
  assumes "a \<le> b"
  obtains k :: int where "(2 :: rat) powi b = of_int k * 2 powi a" and "0 < k"
proof
  show "(2 :: rat) powi b = of_int (2 ^ nat (b - a)) * 2 powi a"
    using assms by (simp add: power_int_add [symmetric] flip: power_int_nonneg_exp)
  show "0 < (2 :: int) ^ nat (b - a)" by simp
qed

lemma rnd_pos_upper:
  assumes "0 < x" and "x \<le> 2 powi e" and "ulp_exp x \<le> e"
  shows "rnd_pos x \<le> 2 powi e"
  using assms rnd_pos_scaled by (metis pow2_multiple)

lemma rnd_pos_lower:
  assumes "0 < x" and "2 powi e \<le> x" and "ulp_exp x \<le> e"
  shows "2 powi e \<le> rnd_pos x"
  using assms rnd_pos_scaled_ge by (metis pow2_multiple)

lemma rnd_pos_mono:
  assumes "0 < x" and "x \<le> y"
  shows "rnd_pos x \<le> rnd_pos y"
proof (cases "ulp_exp x = ulp_exp y")
  case True
  have "round_even (x / 2 powi ulp_exp x) \<le> round_even (y / 2 powi ulp_exp x)"
    using assms by (intro round_even_mono) (simp add: divide_right_mono)
  with True show ?thesis by (simp add: rnd_pos_def)
next
  case False
  with ulp_exp_mono [OF assms] have lt: "ulp_exp x < ulp_exp y" by simp
  then have e: "ilog2 x < ilog2 y" and y: "ulp_exp y = ilog2 y - 52"
    by (auto simp: ulp_exp_def split: if_splits)
  have "x \<le> 2 powi ilog2 y"
    using ilog2_bounds(2) [OF assms(1)] e power_int_increasing [of "ilog2 x + 1" "ilog2 y" "2 :: rat"]
    by simp
  then have "rnd_pos x \<le> 2 powi ilog2 y"
    using assms(1) lt y by (intro rnd_pos_upper) auto
  also have "\<dots> \<le> rnd_pos y"
    using assms ilog2_bounds(1) [of y] y by (intro rnd_pos_lower) auto
  finally show ?thesis .
qed

lemma rnd_zero [simp]: "rnd 0 = 0"
  by (simp add: rnd_def)

lemma rnd_minus [simp]: "rnd (- x) = - rnd x"
  by (simp add: rnd_def)

lemma rnd_nonneg: "0 \<le> x \<Longrightarrow> 0 \<le> rnd x"
  by (auto simp: rnd_def rnd_pos_nonneg)

lemma rnd_mono:
  assumes "x \<le> y"
  shows "rnd x \<le> rnd y"
proof -
  consider "0 < x" | "x \<le> 0" "0 \<le> y" | "y < 0" by linarith
  then show ?thesis
  proof cases
    case 1
    with assms rnd_pos_mono [of x y] show ?thesis by (simp add: rnd_def)
  next
    case 2
    with rnd_nonneg [of y] rnd_nonneg [of "- x"] show ?thesis by simp
  next
    case 3
    with assms rnd_pos_mono [of "- y" "- x"] show ?thesis by (simp add: rnd_def)
  qed
qed

text \<open>Numbers with at most 53 significant bits are left alone.\<close>

definition repr53 :: "rat \<Rightarrow> bool" where
  "repr53 x \<longleftrightarrow> (\<exists>m e. x = of_int m * 2 powi e \<and> \<bar>m\<bar> \<le> 2 ^ 53 \<and> - 1074 \<le> e)"

lemma rnd_pos_repr:
  assumes x: "x = of_int m * 2 powi e" and m: "0 < m" "m \<le> 2 ^ 53" and e: "- 1074 \<le> e"
  shows "rnd_pos x = x"
proof (cases "ulp_exp x \<le> e")
  case True
  then obtain k where k: "(2 :: rat) powi e = of_int k * 2 powi ulp_exp x" by (rule pow2_multiple)
  then have xk: "x = of_int (m * k) * 2 powi ulp_exp x" using x by simp
  then have "x / 2 powi ulp_exp x = of_int (m * k)"
    using pow2_pos [of "ulp_exp x"] by (metis nonzero_mult_div_cancel_right order_less_irrefl)
  then show ?thesis using xk by (metis rnd_pos_def round_even_of_int)
next
  case False
  have pos: "0 < x" using x m by simp
  have "x \<le> 2 powi (e + 53)"
  proof -
    have "of_int m \<le> (2 :: rat) powi 53" using of_int_le_pow2 [of m 53] m by simp
    then have "x \<le> 2 powi 53 * 2 powi e" using x by (simp add: mult_right_mono)
    then show ?thesis by (simp add: power_int_add mult.commute)
  qed
  moreover from False e have ge: "e + 53 \<le> ilog2 x"
    by (auto simp: ulp_exp_def split: if_splits)
  then have "(2 :: rat) powi (e + 53) \<le> 2 powi ilog2 x" by (intro power_int_increasing) auto
  ultimately have eq: "x = 2 powi ilog2 x" using ilog2_bounds(1) [OF pos] by linarith
  have u: "ulp_exp x \<le> ilog2 x" using ge e by (simp add: ulp_exp_def)
  show ?thesis
    using rnd_pos_upper [OF pos _ u] rnd_pos_lower [OF pos _ u] eq by (metis order_antisym order_refl)
qed

lemma rnd_repr: "repr53 x \<Longrightarrow> rnd x = x"
proof -
  assume "repr53 x"
  then obtain m e where x: "x = of_int m * 2 powi e" and m: "\<bar>m\<bar> \<le> 2 ^ 53" and e: "- 1074 \<le> e"
    by (auto simp: repr53_def)
  consider "m = 0" | "0 < m" | "m < 0" by linarith
  then show ?thesis
  proof cases
    case 1
    with x show ?thesis by simp
  next
    case 2
    with x m e rnd_pos_repr [of x m e] show ?thesis by (simp add: rnd_def)
  next
    case 3
    with x have "x < 0" by (simp add: mult_neg_pos)
    with 3 x m e rnd_pos_repr [of "- x" "- m" e] show ?thesis by (simp add: rnd_def)
  qed
qed

lemma repr53_of_int: "\<bar>n\<bar> \<le> 2 ^ 53 \<Longrightarrow> repr53 (of_int n)"
  unfolding repr53_def by (rule exI [of _ n], rule exI [of _ 0]) simp

lemma rnd_of_int: "\<bar>n\<bar> \<le> 2 ^ 53 \<Longrightarrow> rnd (of_int n) = of_int n"
  by (simp add: rnd_repr repr53_of_int)

subsection \<open>Order and arithmetic of float64\<close>

lemma fle_refl: "a \<noteq> NaN \<Longrightarrow> fle a a"
  by (cases a) auto

lemma fle_trans [trans]: "fle a b \<Longrightarrow> fle b c \<Longrightarrow> fle a c"
  by (cases a; cases b; cases c) auto

lemma flt_le_trans: "flt a b \<Longrightarrow> fle b c \<Longrightarrow> flt a c"
  by (cases a; cases b; cases c) auto

lemma fle_lt_trans: "fle a b \<Longrightarrow> flt b c \<Longrightarrow> flt a c"
  by (cases a; cases b; cases c) auto

lemma flt_imp_fle: "flt a b \<Longrightarrow> fle a b"
  by (cases a; cases b) auto

lemma not_flt: "a \<noteq> NaN \<Longrightarrow> b \<noteq> NaN \<Longrightarrow> \<not> flt a b \<longleftrightarrow> fle b a"
  by (cases a; cases b) auto

lemma flt_irrefl [simp]: "\<not> flt a a"
  by (cases a) auto

lemma fle_not_NaN: "fle a b \<Longrightarrow> a \<noteq> NaN \<and> b \<noteq> NaN"
  by (cases a; cases b) auto

lemma flt_NaN_right [simp]: "flt a NaN = False"
  by (cases a) auto

lemma fle_NaN_right [simp]: "fle a NaN = False"
  by (cases a) auto

lemma fle_PInf [simp]: "fle a PInf \<longleftrightarrow> a \<noteq> NaN"
  by (cases a) auto

lemma NInf_fle [simp]: "fle NInf a \<longleftrightarrow> a \<noteq> NaN"
  by (cases a) auto

lemma mk64_not_NaN [simp]: "mk64 x \<noteq> NaN"
  by (simp add: mk64_def Let_def)

lemma mk64_mono: "x \<le> y \<Longrightarrow> fle (mk64 x) (mk64 y)"
  using rnd_mono [of x y] by (auto simp: mk64_def Let_def)

lemma mk64_repr: "repr53 x \<Longrightarrow> \<bar>x\<bar> < 2 ^ 1024 \<Longrightarrow> mk64 x = Fin x"
  by (auto simp: mk64_def rnd_repr)

lemma f_of_int_exact: "\<bar>n\<bar> \<le> 2 ^ 53 \<Longrightarrow> f_of_int n = Fin (of_int n)"
proof -
  assume n: "\<bar>n\<bar> \<le> 2 ^ 53"
  then have "\<bar>of_int n :: rat\<bar> \<le> 2 ^ 53" using of_int_le_pow2 [of "\<bar>n\<bar>" 53] by simp
  also have "\<dots> < (2 :: rat) ^ 1024" by (rule power_strict_increasing) simp_all
  finally show ?thesis using n by (simp add: f_of_int_def mk64_repr repr53_of_int)
qed

lemma f_of_int_mono: "m \<le> n \<Longrightarrow> fle (f_of_int m) (f_of_int n)"
  by (simp add: f_of_int_def mk64_mono)

lemma f_of_int_not_NaN [simp]: "f_of_int n \<noteq> NaN"
  by (simp add: f_of_int_def)

text \<open>Closed terms over small integers evaluate by the simplifier.\<close>

lemma mk64_of_int: "\<bar>n\<bar> \<le> 2 ^ 53 \<Longrightarrow> mk64 (of_int n) = Fin (of_int n)"
  using f_of_int_exact by (simp add: f_of_int_def)

lemma mk64_zero [simp]: "mk64 0 = Fin 0"
  using mk64_of_int [of 0] by simp

lemma mk64_one [simp]: "mk64 1 = Fin 1"
  using mk64_of_int [of 1] by simp

lemma mk64_minus_one [simp]: "mk64 (- 1) = Fin (- 1)"
  using mk64_of_int [of "- 1"] by simp

lemma mk64_numeral [simp]: "(numeral k :: int) \<le> 2 ^ 53 \<Longrightarrow> mk64 (numeral k) = Fin (numeral k)"
  using mk64_of_int [of "numeral k"] by simp

lemma mk64_minus_numeral [simp]:
  "(numeral k :: int) \<le> 2 ^ 53 \<Longrightarrow> mk64 (- numeral k) = Fin (- numeral k)"
  using mk64_of_int [of "- numeral k"] by simp

lemma mk64_half [simp]: "mk64 (1 / 2) = Fin (1 / 2)"
proof -
  have "repr53 (1 / 2)"
    unfolding repr53_def by (rule exI [of _ 1], rule exI [of _ "- 1"]) simp
  then show ?thesis by (rule mk64_repr) simp
qed

lemmas float_eval = f_of_int_def fsub_def dur_seconds_def gquot_def grem_def second_def

text \<open>Rounded addition and subtraction are monotone.\<close>

lemma fadd_Fin_mono: "fle b c \<Longrightarrow> fle (fadd (Fin a) b) (fadd (Fin a) c)"
  by (cases b; cases c) (auto simp: mk64_mono)

lemma fadd_mono_left: "fle b c \<Longrightarrow> fle (fadd b (Fin a)) (fadd c (Fin a))"
  by (cases b; cases c) (auto simp: mk64_mono)

lemma fneg_antimono: "fle b c \<Longrightarrow> fle (fneg c) (fneg b)"
  by (cases b; cases c) auto

lemma fsub_Fin_antimono: "fle b c \<Longrightarrow> fle (fsub (Fin a) c) (fsub (Fin a) b)"
  unfolding fsub_def by (intro fadd_Fin_mono fneg_antimono)

lemma fsub_mono_left: "fle b c \<Longrightarrow> fle (fsub b (Fin a)) (fsub c (Fin a))"
  unfolding fsub_def by (simp add: fadd_mono_left)

lemma mk64_nonneg: "0 \<le> x \<Longrightarrow> fle (Fin 0) (mk64 x)"
  using rnd_nonneg [of x] by (auto simp: mk64_def Let_def)

text \<open>Multiplication by a non-negative finite number, of non-negative arguments.\<close>

lemma fmul_Fin_mono:
  assumes "0 \<le> a" and "fle b (Fin c)" and "fle (Fin 0) b"
  shows "fle (fmul (Fin a) b) (fmul (Fin a) (Fin c))"
  using assms by (cases b) (auto simp: mk64_mono mult_left_mono)

lemma fmul_Fin_nonneg: "0 \<le> a \<Longrightarrow> 0 \<le> b \<Longrightarrow> fle (Fin 0) (fmul (Fin a) (Fin b))"
  by (simp add: mk64_nonneg)

lemma f_of_int_nonneg: "0 \<le> n \<Longrightarrow> fle (Fin 0) (f_of_int n)"
  by (simp add: f_of_int_def mk64_nonneg)

subsection \<open>Durations in seconds\<close>

lemma rnd_bounded: "0 \<le> x \<Longrightarrow> x \<le> of_int n \<Longrightarrow> n \<le> 2 ^ 53 \<Longrightarrow> rnd x \<le> of_int n"
proof -
  assume "0 \<le> x" and x: "x \<le> of_int n" and n: "n \<le> 2 ^ 53"
  then have "0 \<le> n" by linarith
  with n have "rnd (of_int n) = of_int n" by (simp add: rnd_of_int)
  with rnd_mono [OF x] show ?thesis by simp
qed

lemma mk64_bounded: "0 \<le> x \<Longrightarrow> x \<le> 2 ^ 53 \<Longrightarrow> mk64 x = Fin (rnd x)"
proof -
  assume x: "0 \<le> x" "x \<le> 2 ^ 53"
  then have "rnd x \<le> 2 ^ 53" using rnd_bounded [of x "2 ^ 53"] by simp
  also have "\<dots> < (2 :: rat) ^ 1024" by (rule power_strict_increasing) simp_all
  finally have "rnd x < 2 ^ 1024" .
  moreover from x have "- (2 ^ 1024) < rnd x"
    using rnd_nonneg [of x] by (metis less_le_trans neg_less_0_iff_less zero_less_numeral zero_less_power)
  ultimately show ?thesis by (simp add: mk64_def Let_def not_le)
qed

lemma dur_seconds_eq:
  assumes "0 \<le> d" and "d < 2 ^ 63"
  shows "dur_seconds d =
    Fin (rnd (of_int (d div second) + rnd (of_int (d mod second) / 1000000000)))"
proof -
  have q: "0 \<le> d div second" "d div second \<le> 9223372036"
    using assms by (auto simp: second_def)
  have r: "0 \<le> d mod second" "d mod second < 1000000000"
    by (auto simp: second_def)
  let ?f = "of_int (d mod second) / 1000000000 :: rat"
  have f: "0 \<le> ?f" "?f \<le> 1" using r by (simp_all add: field_simps)
  have i: "0 \<le> rnd ?f" "rnd ?f \<le> 1" using f rnd_nonneg [of ?f] rnd_bounded [of ?f 1] by simp_all
  have "(0 :: rat) \<le> of_int (d div second)" "of_int (d div second) \<le> (9223372036 :: rat)"
    using q by linarith+
  with i have "mk64 (of_int (d div second) + rnd ?f) = Fin (rnd (of_int (d div second) + rnd ?f))"
    by (intro mk64_bounded) auto
  moreover have "f_of_int (gquot d second) = Fin (of_int (d div second))"
    using q assms by (simp add: gquot_nonneg second_def f_of_int_exact)
  moreover have "f_of_int (grem d second) = Fin (of_int (d mod second))"
    using r assms by (simp add: grem_nonneg second_def f_of_int_exact)
  moreover have "mk64 ?f = Fin (rnd ?f)" using f by (intro mk64_bounded) auto
  ultimately show ?thesis by (simp add: dur_seconds_def)
qed

lemma dur_seconds_mono:
  assumes "0 \<le> d" and "d \<le> d'" and "d' < 2 ^ 63"
  shows "fle (dur_seconds d) (dur_seconds d')"
proof -
  let ?f = "\<lambda>d. rnd (of_int (d mod second) / 1000000000)"
  have "of_int (d div second) + ?f d \<le> of_int (d' div second) + ?f d'"
  proof (cases "d div second = d' div second")
    case True
    with assms have "d mod second \<le> d' mod second"
      by (metis add_le_cancel_left div_mult_mod_eq)
    then have "?f d \<le> ?f d'" by (intro rnd_mono) (simp add: divide_right_mono)
    with True show ?thesis by simp
  next
    case False
    with zdiv_mono1 [OF assms(2), of second] have "d div second + 1 \<le> d' div second"
      by (simp add: second_def)
    moreover have "?f d \<le> 1"
    proof -
      have "0 \<le> d mod second" and "d mod second \<le> 1000000000" by (simp_all add: second_def)
      then have "0 \<le> (of_int (d mod second) / 1000000000 :: rat)"
        and "(of_int (d mod second) / 1000000000 :: rat) \<le> of_int 1" by (simp_all add: field_simps)
      then show ?thesis using rnd_bounded [of _ 1] by fastforce
    qed
    moreover have "0 \<le> ?f d'" by (intro rnd_nonneg) (simp add: second_def)
    ultimately show ?thesis by linarith
  qed
  then show ?thesis using assms by (simp add: dur_seconds_eq rnd_mono)
qed

lemma dur_seconds_whole: "0 \<le> n \<Longrightarrow> n \<le> max_dur_s \<Longrightarrow> dur_seconds (n * second) = Fin (of_int n)"
  by (simp add: dur_seconds_eq second_def max_dur_s_def rnd_of_int)

lemma time_sub_lt: "time_sub t u < 2 ^ 63"
  by (simp add: time_sub_def min_def max_def)

lemma dur_seconds_time_sub_mono:
  "u \<le> t \<Longrightarrow> t \<le> t' \<Longrightarrow> fle (dur_seconds (time_sub t u)) (dur_seconds (time_sub t' u))"
  by (intro dur_seconds_mono time_sub_mono time_sub_nonneg time_sub_lt)

lemma dur_seconds_time_sub_Fin:
  assumes "u \<le> t"
  obtains a where "dur_seconds (time_sub t u) = Fin a"
  using dur_seconds_eq [OF time_sub_nonneg [OF assms] time_sub_lt] by blast

end
