(* ===== verification/Advert_Parser.thy ===== *)
theory Advert_Parser
  imports Ids Go_Float
begin

section \<open>The advertisement parser (internal/parser)\<close>

text \<open>
  \<open>Parse\<close> and \<open>Identify\<close> of \<open>decode.go\<close>, the older iBeacon filter \<open>ParseAdvert\<close> of
  \<open>advert.go\<close>, and the diagnostic walk \<open>ParseAdvertDebug\<close> of \<open>debug.go\<close>. The three
  loops over the type-length-value records are modelled one by one, with the index
  that the code advances; pointer fields are options, and a result pair
  \<open>(value, err)\<close> is a pair whose second component is an optional error, because
  \<open>Parse\<close> returns the records it has decoded together with the error.

  The theory shows that the walk accounts for every byte of the buffer, that it
  inverts the encoding of a record list, that the three walks agree, and that an
  iBeacon frame is identified by exactly the bytes it carries.
\<close>

subsection \<open>Errors\<close>

datatype parse_error =
    HexDecode
  | TlvOverrun nat nat nat
  | IBeaconShort nat nat

fun error_string :: "parse_error \<Rightarrow> string" where
  "error_string HexDecode = ''hex decode''"
| "error_string (TlvOverrun i n tot) =
     ''TLV at offset '' @ show_nat i @ '': length '' @ show_nat n
       @ '' runs past end of '' @ show_nat tot @ ''-byte buffer''"
| "error_string (IBeaconShort want got) =
     ''iBeacon payload: want '' @ show_nat want @ '' bytes, got '' @ show_nat got"

subsection \<open>Byte order\<close>

fun le_u16 :: "bytes \<Rightarrow> 16 word" where
  "le_u16 (a # b # _) = word_of_nat (unat a + 256 * unat b)"
| "le_u16 _ = 0"

fun be_u16 :: "bytes \<Rightarrow> 16 word" where
  "be_u16 (a # b # _) = word_of_nat (256 * unat a + unat b)"
| "be_u16 _ = 0"

fun be_u32 :: "bytes \<Rightarrow> 32 word" where
  "be_u32 (a # b # c # d # _) =
     word_of_nat (16777216 * unat a + 65536 * unat b + 256 * unat c + unat d)"
| "be_u32 _ = 0"

text \<open>\<open>int8(b)\<close>.\<close>

definition int8 :: "byte \<Rightarrow> int" where
  "int8 b = sint b"

text \<open>A slice expression \<open>v[lo:hi]\<close> within bounds.\<close>

definition slice :: "nat \<Rightarrow> nat \<Rightarrow> 'a list \<Rightarrow> 'a list" where
  "slice lo hi v = take (hi - lo) (drop lo v)"

subsection \<open>iBeacons (advert.go)\<close>

record IBeacon =
  ib_UUID :: string
  ib_Major :: "16 word"
  ib_Minor :: "16 word"
  ib_TxPower :: int

definition manufDataType :: byte where "manufDataType = 0xFF"
definition iBeaconType :: byte where "iBeaconType = 0x02"
definition iBeaconLength :: byte where "iBeaconLength = 0x15"

definition looksLikeIBeacon :: "bytes \<Rightarrow> bool" where
  "looksLikeIBeacon v \<longleftrightarrow>
     4 \<le> length v \<and> v ! 0 = 0x4C \<and> v ! 1 = 0x00 \<and> v ! 2 = iBeaconType \<and> v ! 3 = iBeaconLength"

definition formatUUID :: "bytes \<Rightarrow> string" where
  "formatUUID b =
     (if length b \<noteq> 16 then []
      else hex_encode (slice 0 4 b) @ ''-'' @ hex_encode (slice 4 6 b) @ ''-''
             @ hex_encode (slice 6 8 b) @ ''-'' @ hex_encode (slice 8 10 b) @ ''-''
             @ hex_encode (slice 10 16 b))"

definition decodeIBeaconPayload :: "bytes \<Rightarrow> parse_error + IBeacon" where
  "decodeIBeaconPayload v =
     (if length v < 25 then Inl (IBeaconShort 25 (length v))
      else Inr \<lparr>ib_UUID = formatUUID (slice 4 20 v), ib_Major = be_u16 (slice 20 22 v),
                ib_Minor = be_u16 (slice 22 24 v), ib_TxPower = int8 (v ! 24)\<rparr>)"

text \<open>The loop of \<open>ParseAdvert\<close>: \<open>Inr None\<close> is \<open>(zero, false, nil)\<close>.\<close>

function parse_advert_loop :: "bytes \<Rightarrow> nat \<Rightarrow> parse_error + IBeacon option" where
  "parse_advert_loop buf i =
     (if length buf \<le> i then Inr None
      else (let recLen = unat (buf ! i) in
        if recLen = 0 then Inr None
        else if length buf < i + 1 + recLen then Inl (TlvOverrun i recLen (length buf))
        else (let recType = buf ! (i + 1); v = slice (i + 2) (i + 1 + recLen) buf in
          if recType = manufDataType \<and> looksLikeIBeacon v then
            (case decodeIBeaconPayload v of Inl e \<Rightarrow> Inl e | Inr ib \<Rightarrow> Inr (Some ib))
          else parse_advert_loop buf (i + 1 + recLen))))"
  by pat_completeness auto
termination
  by (relation "measure (\<lambda>(buf, i). length buf - i)") auto

definition ParseAdvert :: "string \<Rightarrow> parse_error + IBeacon option" where
  "ParseAdvert hexStr =
     (if hexStr = [] then Inr None
      else (case hex_decode hexStr of
          None \<Rightarrow> Inl HexDecode
        | Some buf \<Rightarrow> parse_advert_loop buf 0))"

subsection \<open>The full decoder (decode.go)\<close>

record ADStructure =
  ad_Type :: byte
  ad_Value :: bytes

record MfgRecord =
  CompanyID :: "16 word"
  mfg_Payload :: bytes

record SvcDataRecord =
  Is128 :: bool
  UUID16 :: "16 word"
  UUID128 :: string
  svc_Payload :: bytes

record IBeaconFrame =
  fr_UUID :: string
  fr_Major :: "16 word"
  fr_Minor :: "16 word"
  fr_TxPower :: int

record EddystoneFrame =
  FrameType :: byte
  Namespace :: string
  Instance :: string
  URL :: string
  ed_TxPower :: "int option"
  BatteryMV :: "16 word option"
  TemperatureC :: "float64 option"
  AdvCount :: "32 word option"
  SecCount :: "32 word option"

record Advert =
  Raw :: bytes
  Structures :: "ADStructure list"
  Flags :: "byte option"
  LocalName :: string
  adv_TxPower :: "int option"
  Services16 :: "16 word list"
  Services128 :: "string list"
  Mfg :: "MfgRecord list"
  ServiceData :: "SvcDataRecord list"
  adv_IBeacon :: "IBeaconFrame option"
  Eddystone :: "EddystoneFrame option"

definition empty_advert :: Advert where
  "empty_advert =
     \<lparr>Raw = [], Structures = [], Flags = None, LocalName = [], adv_TxPower = None,
      Services16 = [], Services128 = [], Mfg = [], ServiceData = [], adv_IBeacon = None,
      Eddystone = None\<rparr>"

definition eddystoneUUID16 :: "16 word" where "eddystoneUUID16 = 0xFEAA"

definition reversed :: "'a list \<Rightarrow> 'a list" where
  "reversed b = map (\<lambda>i. b ! (length b - 1 - i)) [0 ..< length b]"

definition eddystoneURLSchemes :: "string list" where
  "eddystoneURLSchemes = [''http://www.'', ''https://www.'', ''http://'', ''https://'']"

definition eddystoneURLExpansions :: "(byte, string) gmap" where
  "eddystoneURLExpansions =
     [(0x00, ''.com/''), (0x01, ''.org/''), (0x02, ''.edu/''), (0x03, ''.net/''),
      (0x04, ''.info/''), (0x05, ''.biz/''), (0x06, ''.gov/''), (0x07, ''.com''),
      (0x08, ''.org''), (0x09, ''.edu''), (0x0a, ''.net''), (0x0b, ''.info''),
      (0x0c, ''.biz''), (0x0d, ''.gov'')]"

definition expand_url_byte :: "byte \<Rightarrow> string" where
  "expand_url_byte c =
     (case mget eddystoneURLExpansions c of
        Some x \<Rightarrow> x
      | None \<Rightarrow> if 0x20 \<le> c \<and> c < 0x7f then [char_of_byte c] else [])"

definition decodeEddystoneURL :: "byte \<Rightarrow> bytes \<Rightarrow> string" where
  "decodeEddystoneURL scheme encoded =
     (if unat scheme < length eddystoneURLSchemes then eddystoneURLSchemes ! unat scheme else [])
     @ concat (map expand_url_byte encoded)"

definition empty_eddystone :: "byte \<Rightarrow> EddystoneFrame" where
  "empty_eddystone t =
     \<lparr>FrameType = t, Namespace = [], Instance = [], URL = [], ed_TxPower = None, BatteryMV = None,
      TemperatureC = None, AdvCount = None, SecCount = None\<rparr>"

text \<open>\<open>int16\<close> of the two temperature bytes, and the 8.8 fixed-point value as a float.\<close>

definition tlm_temperature :: "16 word \<Rightarrow> float64 option" where
  "tlm_temperature raw =
     (let rawTemp = sint raw in
      if rawTemp \<noteq> - 0x8000 then Some (fdivc (f_of_int rawTemp) 256) else None)"

definition decodeEddystone :: "bytes \<Rightarrow> EddystoneFrame option" where
  "decodeEddystone p =
     (if length p < 1 then None
      else (let ed = empty_eddystone (p ! 0) in
        if p ! 0 = 0x00 then
          (if length p < 18 then None
           else Some (ed\<lparr>ed_TxPower := Some (int8 (p ! 1)),
                         Namespace := hex_encode (slice 2 12 p),
                         Instance := hex_encode (slice 12 18 p)\<rparr>))
        else if p ! 0 = 0x10 then
          (if length p < 3 then None
           else Some (ed\<lparr>ed_TxPower := Some (int8 (p ! 1)),
                         URL := decodeEddystoneURL (p ! 2) (drop 3 p)\<rparr>))
        else if p ! 0 = 0x20 then
          (if length p < 14 then None
           else Some (ed\<lparr>BatteryMV := Some (be_u16 (slice 2 4 p)),
                         TemperatureC := tlm_temperature (be_u16 (slice 4 6 p)),
                         AdvCount := Some (be_u32 (slice 6 10 p)),
                         SecCount := Some (be_u32 (slice 10 14 p))\<rparr>))
        else Some ed))"

text \<open>The loops of the service-UUID cases.\<close>

fun services16 :: "bytes \<Rightarrow> 16 word list" where
  "services16 (a # b # rest) = le_u16 [a, b] # services16 rest"
| "services16 _ = []"

function services128 :: "bytes \<Rightarrow> string list" where
  "services128 v =
     (if length v < 16 then [] else hex_encode (reversed (take 16 v)) # services128 (drop 16 v))"
  by pat_completeness auto
termination
  by (relation "measure length") auto

declare services128.simps [simp del]

definition note_mfg :: "bytes \<Rightarrow> Advert \<Rightarrow> Advert" where
  "note_mfg v a =
     (if length v < 2 then a
      else (let a1 = a\<lparr>Mfg := Mfg a @ [\<lparr>CompanyID = le_u16 (take 2 v), mfg_Payload = drop 2 v\<rparr>]\<rparr> in
        if looksLikeIBeacon v then
          (case decodeIBeaconPayload v of
             Inl e \<Rightarrow> a1
           | Inr ib \<Rightarrow> a1\<lparr>adv_IBeacon := Some \<lparr>fr_UUID = ib_UUID ib, fr_Major = ib_Major ib,
                               fr_Minor = ib_Minor ib, fr_TxPower = ib_TxPower ib\<rparr>\<rparr>)
        else a1))"

definition note_service_data :: "bytes \<Rightarrow> Advert \<Rightarrow> Advert" where
  "note_service_data v a =
     (if length v < 2 then a
      else (let uuid = le_u16 (take 2 v);
                a1 = a\<lparr>ServiceData := ServiceData a
                        @ [\<lparr>Is128 = False, UUID16 = uuid, UUID128 = [], svc_Payload = drop 2 v\<rparr>]\<rparr> in
        if uuid = eddystoneUUID16 then
          (case decodeEddystone (drop 2 v) of None \<Rightarrow> a1 | Some ed \<Rightarrow> a1\<lparr>Eddystone := Some ed\<rparr>)
        else a1))"

definition decodeStructure :: "byte \<Rightarrow> bytes \<Rightarrow> Advert \<Rightarrow> Advert" where
  "decodeStructure t v a =
     (if t = 0x01 then (if 1 \<le> length v then a\<lparr>Flags := Some (v ! 0)\<rparr> else a)
      else if t = 0x09 then a\<lparr>LocalName := string_of_bytes v\<rparr>
      else if t = 0x08 then
        (if LocalName a = [] then a\<lparr>LocalName := string_of_bytes v\<rparr> else a)
      else if t = 0x0A then (if 1 \<le> length v then a\<lparr>adv_TxPower := Some (int8 (v ! 0))\<rparr> else a)
      else if t = 0x02 \<or> t = 0x03 then a\<lparr>Services16 := Services16 a @ services16 v\<rparr>
      else if t = 0x06 \<or> t = 0x07 then a\<lparr>Services128 := Services128 a @ services128 v\<rparr>
      else if t = manufDataType then note_mfg v a
      else if t = 0x16 then note_service_data v a
      else a)"

text \<open>The body of the loop of \<open>Parse\<close> for one record.\<close>

definition add_structure :: "byte \<Rightarrow> bytes \<Rightarrow> Advert \<Rightarrow> Advert" where
  "add_structure t v a =
     decodeStructure t v (a\<lparr>Structures := Structures a @ [\<lparr>ad_Type = t, ad_Value = v\<rparr>]\<rparr>)"

function parse_loop :: "bytes \<Rightarrow> nat \<Rightarrow> Advert \<Rightarrow> Advert \<times> parse_error option" where
  "parse_loop buf i a =
     (if length buf \<le> i then (a, None)
      else (let recLen = unat (buf ! i) in
        if recLen = 0 then (a, None)
        else if length buf < i + 1 + recLen then (a, Some (TlvOverrun i recLen (length buf)))
        else parse_loop buf (i + 1 + recLen)
               (add_structure (buf ! (i + 1)) (slice (i + 2) (i + 1 + recLen) buf) a)))"
  by pat_completeness auto
termination
  by (relation "measure (\<lambda>(buf, i, a). length buf - i)") auto

definition Parse :: "string \<Rightarrow> Advert \<times> parse_error option" where
  "Parse hexStr =
     (if hexStr = [] then (empty_advert, None)
      else (case hex_decode hexStr of
          None \<Rightarrow> (empty_advert, Some HexDecode)
        | Some buf \<Rightarrow> parse_loop buf 0 (empty_advert\<lparr>Raw := buf\<rparr>)))"

subsection \<open>Identification\<close>

definition mfgAllowlist :: "(16 word, bool) gmap" where
  "mfgAllowlist = []"

fun first_mfg_key :: "MfgRecord list \<Rightarrow> BeaconKey option" where
  "first_mfg_key [] = None"
| "first_mfg_key (m # ms) =
     (if mget_zero False mfgAllowlist (CompanyID m) then
        (case NewMfgKey (CompanyID m) (mfg_Payload m) of
           Inr k \<Rightarrow> Some k | Inl e \<Rightarrow> first_mfg_key ms)
      else first_mfg_key ms)"

text \<open>The four stages of \<open>Identify\<close>; a stage that yields no key falls through to the next.\<close>

definition ibeacon_stage :: "Advert \<Rightarrow> BeaconKey option" where
  "ibeacon_stage a =
     (case adv_IBeacon a of None \<Rightarrow> None
      | Some f \<Rightarrow> (case NewIBeaconKey (fr_UUID f) (fr_Major f) (fr_Minor f) of
          Inr k \<Rightarrow> Some k | Inl e \<Rightarrow> None))"

definition eddystone_stage :: "Advert \<Rightarrow> BeaconKey option" where
  "eddystone_stage a =
     (case Eddystone a of None \<Rightarrow> None
      | Some ed \<Rightarrow>
          if FrameType ed = 0x00 then
            (case NewEddystoneUIDKey (Namespace ed) (Instance ed) of Inr k \<Rightarrow> Some k | Inl e \<Rightarrow> None)
          else if FrameType ed = 0x10 then
            (if URL ed \<noteq> [] then
               (case NewEddystoneURLKey (URL ed) of Inr k \<Rightarrow> Some k | Inl e \<Rightarrow> None)
             else None)
          else None)"

definition name_stage :: "Advert \<Rightarrow> BeaconKey option" where
  "name_stage a =
     (if LocalName a \<noteq> [] then
        (case NewNameKey (LocalName a) of Inr k \<Rightarrow> Some k | Inl e \<Rightarrow> None)
      else None)"

definition Identify :: "Advert \<Rightarrow> BeaconKey option" where
  "Identify a =
     (case ibeacon_stage a of Some k \<Rightarrow> Some k
      | None \<Rightarrow> (case eddystone_stage a of Some k \<Rightarrow> Some k
        | None \<Rightarrow> (case first_mfg_key (Mfg a) of Some k \<Rightarrow> Some k
          | None \<Rightarrow> name_stage a)))"

subsection \<open>The diagnostic walk (debug.go)\<close>

record TLVRecord =
  Offset :: nat
  Length :: nat
  tlv_Type :: byte
  tlv_Value :: bytes
  tlv_Label :: string

record DebugWalk =
  Bytes :: bytes
  Records :: "TLVRecord list"
  dbg_IBeacon :: "IBeacon option"
  Err :: string

definition empty_walk :: DebugWalk where
  "empty_walk = \<lparr>Bytes = [], Records = [], dbg_IBeacon = None, Err = []\<rparr>"

definition labelFor :: "byte \<Rightarrow> bytes \<Rightarrow> string" where
  "labelFor t v =
     (if t = 0x01 then ''Flags''
      else if t = 0x02 \<or> t = 0x03 then ''Incomplete/Complete list of 16-bit Service UUIDs''
      else if t = 0x06 \<or> t = 0x07 then ''Incomplete/Complete list of 128-bit Service UUIDs''
      else if t = 0x08 \<or> t = 0x09 then ''Shortened/Complete Local Name''
      else if t = 0x0A then ''Tx Power Level''
      else if t = 0x16 then ''Service Data''
      else if t = manufDataType then
        (if looksLikeIBeacon v then ''Manufacturer-specific (Apple iBeacon)''
         else if 2 \<le> length v then
           ''Manufacturer-specific (company 0x'' @ hex4_upper (le_u16 (take 2 v)) @ '')''
         else ''Manufacturer-specific'')
      else ''AD type 0x'' @ hex2_upper t)"

definition add_record :: "nat \<Rightarrow> nat \<Rightarrow> byte \<Rightarrow> bytes \<Rightarrow> DebugWalk \<Rightarrow> DebugWalk" where
  "add_record i recLen t v w =
     (let w1 = w\<lparr>Records := Records w
                  @ [\<lparr>Offset = i, Length = recLen - 1, tlv_Type = t, tlv_Value = v,
                      tlv_Label = labelFor t v\<rparr>]\<rparr> in
      if t = manufDataType \<and> looksLikeIBeacon v then
        (case decodeIBeaconPayload v of
           Inr ib \<Rightarrow> w1\<lparr>dbg_IBeacon := Some ib\<rparr>
         | Inl e \<Rightarrow> w1\<lparr>Err := error_string e\<rparr>)
      else w1)"

function debug_loop :: "bytes \<Rightarrow> nat \<Rightarrow> DebugWalk \<Rightarrow> DebugWalk" where
  "debug_loop buf i w =
     (if length buf \<le> i then w
      else (let recLen = unat (buf ! i) in
        if recLen = 0 then w
        else if length buf < i + 1 + recLen then
          w\<lparr>Err := error_string (TlvOverrun i recLen (length buf))\<rparr>
        else debug_loop buf (i + 1 + recLen)
               (add_record i recLen (buf ! (i + 1)) (slice (i + 2) (i + 1 + recLen) buf) w)))"
  by pat_completeness auto
termination
  by (relation "measure (\<lambda>(buf, i, w). length buf - i)") auto

definition ParseAdvertDebug :: "string \<Rightarrow> DebugWalk \<times> parse_error option" where
  "ParseAdvertDebug hexStr =
     (if hexStr = [] then (empty_walk, None)
      else (case hex_decode hexStr of
          None \<Rightarrow> (empty_walk, Some HexDecode)
        | Some buf \<Rightarrow> (debug_loop buf 0 (empty_walk\<lparr>Bytes := buf\<rparr>), None)))"

declare parse_advert_loop.simps [simp del] parse_loop.simps [simp del] debug_loop.simps [simp del]


subsection \<open>The reference walk\<close>

text \<open>
  What the three loops compute, without an index: split the buffer into its leading
  complete records and the rest where the walk stops.
\<close>

definition tlv_bytes :: "ADStructure \<Rightarrow> bytes" where
  "tlv_bytes r = word_of_nat (length (ad_Value r) + 1) # ad_Type r # ad_Value r"

definition encode_ads :: "ADStructure list \<Rightarrow> bytes" where
  "encode_ads rs = concat (map tlv_bytes rs)"

definition fits :: "ADStructure \<Rightarrow> bool" where
  "fits r \<longleftrightarrow> length (ad_Value r) \<le> 254"

text \<open>The walk ends at the end of the buffer, at a zero length, or at a length that overruns.\<close>

definition overruns :: "bytes \<Rightarrow> bool" where
  "overruns rest \<longleftrightarrow> rest \<noteq> [] \<and> length rest < 1 + unat (hd rest)"

definition walk_ends :: "bytes \<Rightarrow> bool" where
  "walk_ends rest \<longleftrightarrow> rest = [] \<or> hd rest = 0 \<or> overruns rest"

function tlv_split :: "bytes \<Rightarrow> ADStructure list \<times> bytes" where
  "tlv_split buf =
     (if walk_ends buf then ([], buf)
      else (let n = unat (hd buf); (rs, rest) = tlv_split (drop (1 + n) buf) in
            (\<lparr>ad_Type = buf ! 1, ad_Value = slice 2 (1 + n) buf\<rparr> # rs, rest)))"
  by pat_completeness auto
termination
  by (relation "measure length") (auto simp: walk_ends_def)

declare tlv_split.simps [simp del]

definition overrun_error :: "nat \<Rightarrow> bytes \<Rightarrow> parse_error option" where
  "overrun_error tot rest =
     (if overruns rest then Some (TlvOverrun (tot - length rest) (unat (hd rest)) tot) else None)"

lemma walk_ends_drop:
  "walk_ends (drop i buf) \<longleftrightarrow>
     length buf \<le> i \<or> unat (buf ! i) = 0 \<or> length buf < i + 1 + unat (buf ! i)"
  by (cases "i < length buf") (auto simp: walk_ends_def overruns_def hd_drop_conv_nth unat_eq_zero)

lemma overrun_error_drop:
  "i < length buf \<Longrightarrow>
   overrun_error (length buf) (drop i buf) =
     (if length buf < i + 1 + unat (buf ! i) then Some (TlvOverrun i (unat (buf ! i)) (length buf)) else None)"
  by (auto simp: overrun_error_def overruns_def hd_drop_conv_nth)

lemma overrun_error_end [simp]: "overrun_error n [] = None"
  by (simp add: overrun_error_def overruns_def)

lemma slice_drop: "slice lo hi (drop i v) = slice (i + lo) (i + hi) v"
  by (simp add: slice_def add.commute)

lemma tlv_split_step:
  assumes "\<not> walk_ends (drop i buf)"
  shows "tlv_split (drop i buf) =
           (let (rs, rest) = tlv_split (drop (i + 1 + unat (buf ! i)) buf) in
            (\<lparr>ad_Type = buf ! (i + 1), ad_Value = slice (i + 2) (i + 1 + unat (buf ! i)) buf\<rparr> # rs, rest))"
proof -
  have i: "i < length buf" using assms by (auto simp: walk_ends_def)
  have "1 + unat (buf ! i) \<le> length buf - i" "unat (buf ! i) \<noteq> 0"
    using assms i by (auto simp: walk_ends_drop)
  then have "drop i buf ! 1 = buf ! (i + 1)" by (intro nth_drop) simp
  then show ?thesis
    using i by (subst tlv_split.simps)
      (simp add: assms hd_drop_conv_nth slice_drop split_beta Let_def ac_simps)
qed

text \<open>The three loops in terms of the reference walk.\<close>

definition add_ad :: "ADStructure \<Rightarrow> Advert \<Rightarrow> Advert" where
  "add_ad r a = add_structure (ad_Type r) (ad_Value r) a"

lemma add_ad_rec [simp]: "add_ad \<lparr>ad_Type = t, ad_Value = v\<rparr> = add_structure t v"
  by (simp add: add_ad_def fun_eq_iff)

lemma parse_loop_split:
  "i \<le> length buf \<Longrightarrow>
   parse_loop buf i a =
     (fold add_ad (fst (tlv_split (drop i buf))) a,
      overrun_error (length buf) (snd (tlv_split (drop i buf))))"
proof (induction buf i a rule: parse_loop.induct)
  case (1 buf i a)
  show ?case
  proof (cases "walk_ends (drop i buf)")
    case True
    then have "tlv_split (drop i buf) = ([], drop i buf)" by (simp add: tlv_split.simps)
    with True show ?thesis
      by (subst parse_loop.simps)
         (auto simp: walk_ends_drop overrun_error_drop overrun_error_def overruns_def hd_drop_conv_nth)
  next
    case False
    then have c: "\<not> length buf \<le> i" "unat (buf ! i) \<noteq> 0" "\<not> length buf < i + 1 + unat (buf ! i)"
      by (simp_all add: walk_ends_drop)
    from "1.IH" [OF c(1) refl c(2,3)] c show ?thesis
      by (subst parse_loop.simps)
         (simp add: tlv_split_step [OF False] Let_def split_beta)
  qed
qed

fun offsets :: "nat \<Rightarrow> ADStructure list \<Rightarrow> TLVRecord list" where
  "offsets i [] = []"
| "offsets i (r # rs) =
     \<lparr>Offset = i, Length = length (ad_Value r), tlv_Type = ad_Type r, tlv_Value = ad_Value r,
      tlv_Label = labelFor (ad_Type r) (ad_Value r)\<rparr> # offsets (i + 2 + length (ad_Value r)) rs"

lemma tlv_split_concat: "encode_ads (fst (tlv_split buf)) @ snd (tlv_split buf) = buf"
proof (induction buf rule: tlv_split.induct)
  case (1 buf)
  show ?case
  proof (cases "walk_ends buf")
    case True
    then show ?thesis by (simp add: tlv_split.simps [of buf] encode_ads_def)
  next
    case False
    then obtain b c bs where buf: "buf = b # c # bs" and b: "unat b \<noteq> 0" "unat b \<le> length bs + 1"
      by (cases buf rule: remdups_adj.cases)
         (auto simp: walk_ends_def overruns_def unat_eq_zero not_less Suc_le_eq)
    let ?v = "slice 2 (1 + unat b) buf"
    have v: "?v = take (unat b - 1) bs" by (simp add: slice_def buf)
    then have "length ?v + 1 = unat b" using b by simp
    then have n: "word_of_nat (length ?v + 1) = b" by simp
    have "drop (1 + unat b) buf = drop (unat b - 1) bs" using b by (cases "unat b") (auto simp: buf)
    then have rest: "?v @ drop (1 + unat b) buf = bs" using v by simp
    have "tlv_split buf = (\<lparr>ad_Type = c, ad_Value = ?v\<rparr> # fst (tlv_split (drop (1 + unat b) buf)),
            snd (tlv_split (drop (1 + unat b) buf)))"
      using False by (subst tlv_split.simps) (simp add: Let_def split_beta buf)
    moreover have "encode_ads (fst (tlv_split (drop (1 + unat b) buf)))
                     @ snd (tlv_split (drop (1 + unat b) buf)) = drop (1 + unat b) buf"
      using "1.IH" [OF False refl] by (simp add: buf)
    ultimately show ?thesis
      using n rest by (simp add: encode_ads_def tlv_bytes_def) (simp add: buf)
  qed
qed

lemma tlv_split_ends: "walk_ends (snd (tlv_split buf))"
  by (induction buf rule: tlv_split.induct) (subst tlv_split.simps, auto simp: Let_def split_beta)

lemma tlv_split_fits: "r \<in> set (fst (tlv_split buf)) \<Longrightarrow> fits r"
proof (induction buf rule: tlv_split.induct)
  case (1 buf)
  show ?case
  proof (cases "walk_ends buf")
    case True
    with "1.prems" show ?thesis by (simp add: tlv_split.simps [of buf])
  next
    case False
    have "unat (hd buf) < 256" by simp
    then have "unat (hd buf) - Suc 0 \<le> 254" by linarith
    then show ?thesis
      using "1.prems" "1.IH" [OF False refl] False
      by (auto simp: tlv_split.simps [of buf] Let_def split_beta fits_def slice_def min_def)
  qed
qed


lemma unat_byte_of_nat: "n < 256 \<Longrightarrow> unat (word_of_nat n :: byte) = n"
  by (simp add: unsigned_of_nat take_bit_nat_eq_self)

lemma walk_ends_encode: "fits r \<Longrightarrow> \<not> walk_ends (tlv_bytes r @ rest)"
proof -
  assume "fits r"
  then have "length (ad_Value r) + 1 < 256" by (simp add: fits_def)
  then have "unat (word_of_nat (length (ad_Value r) + 1) :: byte) = length (ad_Value r) + 1"
    by (rule unat_byte_of_nat)
  then show ?thesis
    by (auto simp: walk_ends_def overruns_def tlv_bytes_def)
qed

lemma tlv_split_Cons:
  assumes "fits r"
  shows "tlv_split (tlv_bytes r @ rest) = (r # fst (tlv_split rest), snd (tlv_split rest))"
proof -
  have "length (ad_Value r) + 1 < 256" using assms by (simp add: fits_def)
  then have "unat (word_of_nat (length (ad_Value r) + 1) :: byte) = length (ad_Value r) + 1"
    by (rule unat_byte_of_nat)
  then show ?thesis
    using walk_ends_encode [OF assms, of rest]
    by (subst tlv_split.simps) (simp add: Let_def split_beta tlv_bytes_def slice_def)
qed

lemma tlv_split_encode:
  assumes "\<And>r. r \<in> set rs \<Longrightarrow> fits r" "walk_ends rest"
  shows "tlv_split (encode_ads rs @ rest) = (rs, rest)"
  using assms
  by (induction rs) (simp_all add: encode_ads_def tlv_split.simps [of rest] tlv_split_Cons)

text \<open>The debug walk and the iBeacon filter in terms of the reference walk.\<close>

fun debug_fold :: "nat \<Rightarrow> ADStructure list \<Rightarrow> DebugWalk \<Rightarrow> DebugWalk" where
  "debug_fold i [] w = w"
| "debug_fold i (r # rs) w =
     debug_fold (i + 2 + length (ad_Value r)) rs
       (add_record i (length (ad_Value r) + 1) (ad_Type r) (ad_Value r) w)"

lemma length_slice_tlv:
  "n \<noteq> 0 \<Longrightarrow> i + 1 + n \<le> length buf \<Longrightarrow> length (slice (i + 2) (i + 1 + n) buf) = n - 1"
  by (auto simp: slice_def)

lemma debug_loop_split:
  "i \<le> length buf \<Longrightarrow>
   debug_loop buf i w =
     (let (rs, rest) = tlv_split (drop i buf); w' = debug_fold i rs w in
      case overrun_error (length buf) rest of None \<Rightarrow> w' | Some e \<Rightarrow> w'\<lparr>Err := error_string e\<rparr>)"
proof (induction buf i w rule: debug_loop.induct)
  case (1 buf i w)
  show ?case
  proof (cases "walk_ends (drop i buf)")
    case True
    then have "tlv_split (drop i buf) = ([], drop i buf)" by (simp add: tlv_split.simps)
    with True show ?thesis
      by (subst debug_loop.simps)
         (auto simp: walk_ends_drop overrun_error_drop overrun_error_def overruns_def hd_drop_conv_nth)
  next
    case False
    then have c: "\<not> length buf \<le> i" "unat (buf ! i) \<noteq> 0" "\<not> length buf < i + 1 + unat (buf ! i)"
      by (simp_all add: walk_ends_drop)
    have len: "length (slice (i + 2) (i + 1 + unat (buf ! i)) buf) = unat (buf ! i) - 1"
      using c by (intro length_slice_tlv) auto
    from "1.IH" [OF c(1) refl c(2,3)] c show ?thesis
      by (subst debug_loop.simps)
         (simp add: tlv_split_step [OF False] Let_def split_beta len [simplified] split: option.split)
  qed
qed

fun first_ibeacon :: "ADStructure list \<Rightarrow> (parse_error + IBeacon) option" where
  "first_ibeacon [] = None"
| "first_ibeacon (r # rs) =
     (if ad_Type r = manufDataType \<and> looksLikeIBeacon (ad_Value r)
      then Some (decodeIBeaconPayload (ad_Value r)) else first_ibeacon rs)"

lemma parse_advert_loop_split:
  "i \<le> length buf \<Longrightarrow>
   parse_advert_loop buf i =
     (let (rs, rest) = tlv_split (drop i buf) in
      case first_ibeacon rs of
        Some (Inr ib) \<Rightarrow> Inr (Some ib)
      | Some (Inl e) \<Rightarrow> Inl e
      | None \<Rightarrow> (case overrun_error (length buf) rest of None \<Rightarrow> Inr None | Some e \<Rightarrow> Inl e))"
proof (induction buf i rule: parse_advert_loop.induct)
  case (1 buf i)
  show ?case
  proof (cases "walk_ends (drop i buf)")
    case True
    then have "tlv_split (drop i buf) = ([], drop i buf)" by (simp add: tlv_split.simps)
    with True show ?thesis
      by (subst parse_advert_loop.simps)
         (auto simp: walk_ends_drop overrun_error_drop overrun_error_def overruns_def hd_drop_conv_nth)
  next
    case False
    then have c: "\<not> length buf \<le> i" "unat (buf ! i) \<noteq> 0" "\<not> length buf < i + 1 + unat (buf ! i)"
      by (simp_all add: walk_ends_drop)
    from "1.IH" [OF c(1) refl c(2,3) refl refl] c show ?thesis
      by (subst parse_advert_loop.simps)
         (auto simp: tlv_split_step [OF False] Let_def split_beta split: sum.splits)
  qed
qed


subsection \<open>The walk accounts for every byte\<close>

lemma Parse_decoded:
  assumes "hex_decode s = Some buf" "s \<noteq> []"
  shows "Parse s = (fold add_ad (fst (tlv_split buf)) (empty_advert\<lparr>Raw := buf\<rparr>),
                    overrun_error (length buf) (snd (tlv_split buf)))"
  using assms parse_loop_split [of 0 buf] by (simp add: Parse_def)

lemma note_mfg_keeps [simp]:
  "Raw (note_mfg v a) = Raw a" "Structures (note_mfg v a) = Structures a"
  "Eddystone (note_mfg v a) = Eddystone a" "LocalName (note_mfg v a) = LocalName a"
  by (auto simp: note_mfg_def Let_def split: sum.split)

lemma note_service_data_keeps [simp]:
  "Raw (note_service_data v a) = Raw a" "Structures (note_service_data v a) = Structures a"
  "adv_IBeacon (note_service_data v a) = adv_IBeacon a" "Mfg (note_service_data v a) = Mfg a"
  by (auto simp: note_service_data_def Let_def split: option.split)

lemma decodeStructure_keeps [simp]:
  "Raw (decodeStructure t v a) = Raw a" "Structures (decodeStructure t v a) = Structures a"
  by (auto simp: decodeStructure_def)

lemma add_ad_Raw [simp]: "Raw (add_ad r a) = Raw a"
  by (simp add: add_ad_def add_structure_def)

lemma add_ad_Structures [simp]: "Structures (add_ad r a) = Structures a @ [r]"
  by (simp add: add_ad_def add_structure_def)

lemma fold_add_ad [simp]:
  "Raw (fold add_ad rs a) = Raw a" "Structures (fold add_ad rs a) = Structures a @ rs"
  by (induction rs arbitrary: a) simp_all

lemma empty_advert_sel [simp]:
  "Raw empty_advert = []" "Structures empty_advert = []" "adv_IBeacon empty_advert = None"
  "Eddystone empty_advert = None" "Mfg empty_advert = []" "LocalName empty_advert = []"
  by (simp_all add: empty_advert_def)

text \<open>
  \<open>Parse\<close> loses no byte. On every hexadecimal input, the records it lists, encoded one
  after the other, followed by some rest, are exactly the buffer; the rest is empty or
  starts with the zero length that terminates the list, or else its length byte runs past
  the end, and then, and only then, the error that names that offset is returned.
\<close>

theorem parse_covers_buffer:
  assumes "hex_decode s = Some buf" "Parse s = (a, err)"
  shows "\<exists>rest. encode_ads (Structures a) @ rest = buf \<and> list_all fits (Structures a)
           \<and> (case err of
                None \<Rightarrow> rest = [] \<or> hd rest = 0
              | Some e \<Rightarrow> rest \<noteq> [] \<and> length rest < 1 + unat (hd rest)
                  \<and> e = TlvOverrun (length (encode_ads (Structures a))) (unat (hd rest)) (length buf))"
proof (cases "s = []")
  case True
  with assms show ?thesis by (auto simp: Parse_def encode_ads_def)
next
  case False
  define rest where "rest = snd (tlv_split buf)"
  have a: "Structures a = fst (tlv_split buf)" and err: "err = overrun_error (length buf) rest"
    using Parse_decoded [OF assms(1) False] assms(2) by (auto simp: rest_def)
  have cat: "encode_ads (Structures a) @ rest = buf"
    using tlv_split_concat [of buf] by (simp add: a rest_def)
  then have len: "length buf - length rest = length (encode_ads (Structures a))" by auto
  have "list_all fits (Structures a)" by (simp add: a list_all_iff tlv_split_fits)
  moreover have "walk_ends rest" by (simp add: rest_def tlv_split_ends)
  ultimately show ?thesis
    using cat by (intro exI [of _ rest])
      (auto simp: err overrun_error_def len walk_ends_def overruns_def split: option.split if_splits)
qed

theorem parse_covers_buffer_witness:
  "\<exists>a rest. Parse ''020106050963'' = (a, Some (TlvOverrun 3 5 6))
     \<and> encode_ads (Structures a) @ rest = [2, 1, 6, 5, 9, 0x63]"
proof -
  let ?s = "''020106050963''"
  have h: "hex_decode ?s = Some [2, 1, 6, 5, 9, 0x63]" by code_simp
  have "snd (Parse ?s) = Some (TlvOverrun 3 5 6)" by code_simp
  then have p: "Parse ?s = (fst (Parse ?s), Some (TlvOverrun 3 5 6))" by (metis prod.collapse)
  from parse_covers_buffer [OF h p] p show ?thesis by (auto simp del: list.simps)
qed

text \<open>
  C23: \<open>Parse\<close> inverts the encoding. Whatever list of records (each of at most 254 value
  bytes) a device puts on the air, with or without a terminating zero byte and padding
  after it, \<open>Parse\<close> returns that list, in that order, and no error.
\<close>

theorem parse_encode_roundtrip:
  assumes "list_all fits rs" "rest = [] \<or> hd rest = 0"
  shows "Structures (fst (Parse (hex_encode (encode_ads rs @ rest)))) = rs
       \<and> snd (Parse (hex_encode (encode_ads rs @ rest))) = None"
proof (cases "encode_ads rs @ rest = []")
  case True
  then have "rs = []" by (cases rs) (auto simp: encode_ads_def tlv_bytes_def)
  with True show ?thesis by (simp add: Parse_def)
next
  case False
  then have ne: "hex_encode (encode_ads rs @ rest) \<noteq> []"
    by (metis length_hex_encode length_0_conv mult_is_0 zero_neq_numeral)
  have "walk_ends rest" using assms(2) by (auto simp: walk_ends_def)
  then have "tlv_split (encode_ads rs @ rest) = (rs, rest)"
    using assms(1) by (intro tlv_split_encode) (auto simp: list_all_iff)
  with Parse_decoded [OF hex_decode_encode ne] assms(2) show ?thesis
    by (auto simp: overrun_error_def overruns_def)
qed

theorem parse_encode_roundtrip_witness:
  "let rs = [\<lparr>ad_Type = 0x01, ad_Value = [6]\<rparr>, \<lparr>ad_Type = 0x09, ad_Value = [0x4b, 0x65, 0x79]\<rparr>]
   in Structures (fst (Parse (hex_encode (encode_ads rs @ [0, 0xff])))) = rs"
  using parse_encode_roundtrip
    [of "[\<lparr>ad_Type = 0x01, ad_Value = [6]\<rparr>, \<lparr>ad_Type = 0x09, ad_Value = [0x4b, 0x65, 0x79]\<rparr>]" "[0, 0xff]"]
  by (simp add: fits_def Let_def)


subsection \<open>The walks agree\<close>

text \<open>The iBeacon that a walk keeps is the one of the last well-formed iBeacon record.\<close>

definition ad_ibeacon :: "ADStructure \<Rightarrow> IBeacon option" where
  "ad_ibeacon r =
     (if ad_Type r = manufDataType \<and> looksLikeIBeacon (ad_Value r)
      then (case decodeIBeaconPayload (ad_Value r) of Inl e \<Rightarrow> None | Inr ib \<Rightarrow> Some ib) else None)"

definition frame_of :: "IBeacon \<Rightarrow> IBeaconFrame" where
  "frame_of ib =
     \<lparr>fr_UUID = ib_UUID ib, fr_Major = ib_Major ib, fr_Minor = ib_Minor ib, fr_TxPower = ib_TxPower ib\<rparr>"

definition keep_last :: "IBeacon option \<Rightarrow> ADStructure \<Rightarrow> IBeacon option" where
  "keep_last cur r = (case ad_ibeacon r of None \<Rightarrow> cur | Some ib \<Rightarrow> Some ib)"

lemma looksLikeIBeacon_length: "looksLikeIBeacon v \<Longrightarrow> \<not> length v < 2"
  by (simp add: looksLikeIBeacon_def)

lemma decodeStructure_IBeacon:
  "adv_IBeacon (decodeStructure t v a) =
     (case ad_ibeacon \<lparr>ad_Type = t, ad_Value = v\<rparr> of
        None \<Rightarrow> adv_IBeacon a | Some ib \<Rightarrow> Some (frame_of ib))"
  by (auto simp: decodeStructure_def ad_ibeacon_def manufDataType_def note_mfg_def Let_def frame_of_def
        looksLikeIBeacon_length split: sum.split)

lemma add_ad_IBeacon:
  "adv_IBeacon (add_ad r a) =
     (case ad_ibeacon r of None \<Rightarrow> adv_IBeacon a | Some ib \<Rightarrow> Some (frame_of ib))"
  by (cases r) (simp add: add_ad_def add_structure_def decodeStructure_IBeacon split: option.split)

lemma fold_add_ad_IBeacon:
  "adv_IBeacon a = map_option frame_of cur \<Longrightarrow>
   adv_IBeacon (fold add_ad rs a) = map_option frame_of (foldl keep_last cur rs)"
  by (induction rs arbitrary: a cur)
     (auto simp: add_ad_IBeacon keep_last_def split: option.split)

lemma debug_fold_result:
  "Records (debug_fold i rs w) = Records w @ offsets i rs"
  "dbg_IBeacon (debug_fold i rs w) = foldl keep_last (dbg_IBeacon w) rs"
  "Bytes (debug_fold i rs w) = Bytes w"
  by (induction i rs w rule: debug_fold.induct)
     (auto simp: add_record_def Let_def keep_last_def ad_ibeacon_def split: sum.split)

lemma offsets_structures:
  "map (\<lambda>r. \<lparr>ad_Type = tlv_Type r, ad_Value = tlv_Value r\<rparr>) (offsets i rs) = rs"
  by (induction i rs rule: offsets.induct) simp_all

lemma empty_walk_sel [simp]:
  "Bytes empty_walk = []" "Records empty_walk = []" "dbg_IBeacon empty_walk = None"
  by (simp_all add: empty_walk_def)

text \<open>
  C33: the diagnostic walk shows the operator what the ingest path sees. On every input,
  \<open>ParseAdvertDebug\<close> and \<open>Parse\<close> agree on the decoded bytes, on the list of records, and on
  the iBeacon; a bad hexadecimal string is an error of both, and where \<open>Parse\<close> stops with
  an overrun the debug walk reports the text of the same error.
\<close>

theorem debug_walk_agrees:
  "case (ParseAdvertDebug s, Parse s) of ((w, derr), (a, err)) \<Rightarrow>
     Bytes w = Raw a
     \<and> map (\<lambda>r. \<lparr>ad_Type = tlv_Type r, ad_Value = tlv_Value r\<rparr>) (Records w) = Structures a
     \<and> map_option frame_of (dbg_IBeacon w) = adv_IBeacon a
     \<and> (derr = Some HexDecode \<longleftrightarrow> err = Some HexDecode)
     \<and> (\<forall>i n tot. err = Some (TlvOverrun i n tot) \<longrightarrow> Err w = error_string (TlvOverrun i n tot))"
proof (cases "s = [] \<or> hex_decode s = None")
  case True
  then show ?thesis by (auto simp: ParseAdvertDebug_def Parse_def)
next
  case False
  then obtain buf where buf: "hex_decode s = Some buf" and "s \<noteq> []" by auto
  have "Parse s = (fold add_ad (fst (tlv_split buf)) (empty_advert\<lparr>Raw := buf\<rparr>),
          overrun_error (length buf) (snd (tlv_split buf)))"
    by (rule Parse_decoded [OF buf \<open>s \<noteq> []\<close>])
  moreover have "ParseAdvertDebug s = (debug_loop buf 0 (empty_walk\<lparr>Bytes := buf\<rparr>), None)"
    using buf \<open>s \<noteq> []\<close> by (simp add: ParseAdvertDebug_def)
  ultimately show ?thesis
    using fold_add_ad_IBeacon [of "empty_advert\<lparr>Raw := buf\<rparr>" None "fst (tlv_split buf)"]
    by (auto simp: debug_loop_split Let_def split_beta debug_fold_result offsets_structures
          overrun_error_def)
qed

theorem debug_walk_agrees_witness:
  "Err (fst (ParseAdvertDebug ''020106050963'')) = error_string (TlvOverrun 3 5 6)"
proof -
  have "snd (Parse ''020106050963'') = Some (TlvOverrun 3 5 6)" by code_simp
  then show ?thesis
    using debug_walk_agrees [of "''020106050963''"] by (auto simp: split_beta simp del: error_string.simps)
qed


text \<open>
  The older iBeacon filter and the full decoder agree. \<open>ParseAdvert\<close> reports "no iBeacon"
  exactly when \<open>Parse\<close> succeeds and none of its records carries the iBeacon signature, and
  it returns a beacon exactly when the first record with the signature decodes to it.
\<close>

theorem parse_advert_agrees:
  "(ParseAdvert s = Inr None \<longleftrightarrow>
      snd (Parse s) = None \<and> first_ibeacon (Structures (fst (Parse s))) = None)
   \<and> (ParseAdvert s = Inr (Some ib) \<longleftrightarrow>
      first_ibeacon (Structures (fst (Parse s))) = Some (Inr ib))"
proof (cases "s = [] \<or> hex_decode s = None")
  case True
  then show ?thesis by (auto simp: ParseAdvert_def Parse_def)
next
  case False
  then obtain buf where buf: "hex_decode s = Some buf" and "s \<noteq> []" by auto
  then have "ParseAdvert s = parse_advert_loop buf 0" by (simp add: ParseAdvert_def)
  with Parse_decoded [OF buf \<open>s \<noteq> []\<close>] show ?thesis
    by (auto simp: parse_advert_loop_split Let_def split_beta split: option.splits sum.splits)
qed

subsection \<open>iBeacon frames\<close>

definition be16 :: "16 word \<Rightarrow> bytes" where
  "be16 w = [word_of_nat (unat w div 256), word_of_nat (unat w mod 256)]"

text \<open>The manufacturer data of an iBeacon as Apple specifies it.\<close>

definition ibeacon_payload :: "bytes \<Rightarrow> 16 word \<Rightarrow> 16 word \<Rightarrow> byte \<Rightarrow> bytes" where
  "ibeacon_payload u major minor tx = [0x4C, 0x00, 0x02, 0x15] @ u @ be16 major @ be16 minor @ [tx]"

definition ibeacon_record :: "bytes \<Rightarrow> 16 word \<Rightarrow> 16 word \<Rightarrow> byte \<Rightarrow> ADStructure" where
  "ibeacon_record u major minor tx = \<lparr>ad_Type = 0xFF, ad_Value = ibeacon_payload u major minor tx\<rparr>"

lemma be_u16_be16: "be_u16 (be16 w) = w"
proof -
  have w: "unat w < 65536" using unsigned_less [of w, where ?'a = nat] by simp
  then have "unat w div 256 < 256" by linarith
  then have "256 * unat (word_of_nat (unat w div 256) :: byte) + unat (word_of_nat (unat w mod 256) :: byte) = unat w"
    by (simp add: unat_byte_of_nat)
  then show ?thesis by (simp add: be16_def del: of_nat_add of_nat_mult)
qed

lemma length_be16 [simp]: "length (be16 w) = 2"
  by (simp add: be16_def)

lemma ibeacon_payload_decodes:
  assumes "length u = 16"
  shows "looksLikeIBeacon (ibeacon_payload u a b tx)"
    and "decodeIBeaconPayload (ibeacon_payload u a b tx) =
           Inr \<lparr>ib_UUID = formatUUID u, ib_Major = a, ib_Minor = b, ib_TxPower = int8 tx\<rparr>"
proof -
  show "looksLikeIBeacon (ibeacon_payload u a b tx)"
    by (simp add: looksLikeIBeacon_def ibeacon_payload_def iBeaconType_def iBeaconLength_def)
  have "slice 4 20 (ibeacon_payload u a b tx) = u" "slice 20 22 (ibeacon_payload u a b tx) = be16 a"
    "slice 22 24 (ibeacon_payload u a b tx) = be16 b" "ibeacon_payload u a b tx ! 24 = tx"
    using assms by (simp_all add: slice_def ibeacon_payload_def nth_append)
  moreover have "length (ibeacon_payload u a b tx) = 25" by (simp add: ibeacon_payload_def assms)
  ultimately show "decodeIBeaconPayload (ibeacon_payload u a b tx) =
      Inr \<lparr>ib_UUID = formatUUID u, ib_Major = a, ib_Minor = b, ib_TxPower = int8 tx\<rparr>"
    by (simp add: decodeIBeaconPayload_def be_u16_be16)
qed

lemma IsCanonicalUUID_join:
  assumes "lhex_n 8 a" "lhex_n 4 b" "lhex_n 4 c" "lhex_n 4 d" "lhex_n 12 e"
  shows "IsCanonicalUUID (a @ ''-'' @ b @ ''-'' @ c @ ''-'' @ d @ ''-'' @ e)"
  using assms by (simp add: IsCanonicalUUID_def lhex_n_def nth_append)

lemma length_slice: "hi \<le> length v \<Longrightarrow> length (slice lo hi v) = hi - lo"
  by (simp add: slice_def)

lemma formatUUID_canonical:
  assumes "length u = 16"
  shows "IsCanonicalUUID (formatUUID u)"
proof -
  have "lhex_n (2 * (hi - lo)) (hex_encode (slice lo hi u))" if "hi \<le> 16" for lo hi
    using lhex_hex_encode [of "slice lo hi u"] that assms by (simp add: length_slice)
  from this [of 4 0] this [of 6 4] this [of 8 6] this [of 10 8] this [of 16 10] show ?thesis
    using IsCanonicalUUID_join by (simp add: formatUUID_def assms)
qed

lemma uuid_plain:
  assumes "IsCanonicalUUID s" "c \<in> set s"
  shows "is_plain c"
proof (rule uuid_groups [OF assms(1)])
  fix a b d e f assume "s = a @ ''-'' @ b @ ''-'' @ d @ ''-'' @ e @ ''-'' @ f"
    "lhex_n 8 a" "lhex_n 4 b" "lhex_n 4 d" "lhex_n 4 e" "lhex_n 12 f"
  with assms(2) show ?thesis by (auto simp: lhex_n_def list_all_iff intro: is_lhex_plain)
qed

lemma NewIBeaconKey_canonical:
  assumes "IsCanonicalUUID u"
  shows "NewIBeaconKey u a b =
           Inr (mk_key KindIBeacon (u @ ''_'' @ show_nat (unat a) @ ''_'' @ show_nat (unat b)))"
  using assms TrimSpace_plain [of u] ToLower_plain [of u] uuid_plain [OF assms]
  by (simp add: NewIBeaconKey_def)

definition ibeacon_key :: "bytes \<Rightarrow> 16 word \<Rightarrow> 16 word \<Rightarrow> BeaconKey" where
  "ibeacon_key u a b =
     mk_key KindIBeacon (formatUUID u @ ''_'' @ show_nat (unat a) @ ''_'' @ show_nat (unat b))"

lemma formatUUID_inj:
  assumes "length u = 16" "length v = 16" "formatUUID u = formatUUID v"
  shows "u = v"
proof -
  have "slice 0 4 x @ slice 4 6 x @ slice 6 8 x @ slice 8 10 x @ slice 10 16 x = x"
    if "length x = 16" for x :: bytes
  proof -
    have "slice lo hi x @ drop hi x = drop lo x" if "lo \<le> hi" for lo hi
      using that by (simp add: slice_def) (metis append_take_drop_id drop_drop le_add_diff_inverse2)
    from this [of 0 4] this [of 4 6] this [of 6 8] this [of 8 10] show ?thesis
      using \<open>length x = 16\<close> by (simp add: slice_def)
  qed
  moreover have "slice 0 4 u = slice 0 4 v" "slice 4 6 u = slice 4 6 v" "slice 6 8 u = slice 6 8 v"
    "slice 8 10 u = slice 8 10 v" "slice 10 16 u = slice 10 16 v"
    using assms by (auto simp: formatUUID_def length_slice intro!: hex_encode_inj)
  ultimately show ?thesis using assms(1,2) by metis
qed

lemma ibeacon_key_inj:
  assumes "length u = 16" "length v = 16" "ibeacon_key u a b = ibeacon_key v c d"
  shows "u = v \<and> a = c \<and> b = d"
proof -
  have len: "length (formatUUID x) = 36" if "length x = 16" for x
    using formatUUID_canonical [OF that] by (simp add: IsCanonicalUUID_def)
  have eq: "formatUUID u = formatUUID v"
    "show_nat (unat a) @ ''_'' @ show_nat (unat b) = show_nat (unat c) @ ''_'' @ show_nat (unat d)"
    using assms len by (simp_all add: ibeacon_key_def BeaconKey_eq_iff)
  then have "Cut_char (CHR ''_'') (show_nat (unat a) @ CHR ''_'' # show_nat (unat b))
           = Cut_char (CHR ''_'') (show_nat (unat c) @ CHR ''_'' # show_nat (unat d))" by simp
  then have "show_nat (unat a) = show_nat (unat c)" "show_nat (unat b) = show_nat (unat d)"
    by (simp_all add: Cut_char_found show_nat_no_underscore)
  then have "a = c" "b = d" using show_nat_inj by (metis word_unat_eq_iff)+
  with formatUUID_inj [OF assms(1,2) eq(1)] show ?thesis by simp
qed

lemma foldl_keep_last_none:
  "(\<And>r. r \<in> set rs \<Longrightarrow> ad_ibeacon r = None) \<Longrightarrow> foldl keep_last cur rs = cur"
  by (induction rs arbitrary: cur) (auto simp: keep_last_def)

lemma Parse_IBeacon:
  assumes "hex_decode s = Some buf"
  shows "adv_IBeacon (fst (Parse s)) = map_option frame_of (foldl keep_last None (fst (tlv_split buf)))"
proof (cases "s = []")
  case True
  with assms have "tlv_split buf = ([], [])" by (simp add: tlv_split.simps [of "[]"] walk_ends_def)
  with True show ?thesis by (simp add: Parse_def)
next
  case False
  show ?thesis
    using fold_add_ad_IBeacon [of "empty_advert\<lparr>Raw := buf\<rparr>" None "fst (tlv_split buf)"]
    by (simp add: Parse_decoded [OF assms False])
qed


subsection \<open>Identification\<close>

lemma Identify_IBeacon:
  assumes "adv_IBeacon a = Some f" "IsCanonicalUUID (fr_UUID f)"
  shows "Identify a = Some (mk_key KindIBeacon
           (fr_UUID f @ ''_'' @ show_nat (unat (fr_Major f)) @ ''_'' @ show_nat (unat (fr_Minor f))))"
  using assms by (simp add: Identify_def ibeacon_stage_def NewIBeaconKey_canonical)

text \<open>
  C22: an iBeacon on the air is identified by exactly the bytes it carries. If the last
  iBeacon record of an advert holds the proximity UUID \<open>u\<close>, \<open>major\<close> and \<open>minor\<close>, then
  parsing the hexadecimal advert and identifying it yields the iBeacon key of these three
  values, whatever else the advert contains; and two such keys are equal only if UUID,
  major and minor are equal.
\<close>

theorem identify_ibeacon:
  assumes "length u = 16" "list_all fits (pre @ post)"
    and "list_all (\<lambda>r. ad_ibeacon r = None) post"
  shows "Identify (fst (Parse (hex_encode (encode_ads (pre @ [ibeacon_record u major minor tx] @ post)))))
           = Some (ibeacon_key u major minor)
       \<and> (\<forall>v a b. length v = 16 \<and> ibeacon_key u major minor = ibeacon_key v a b
            \<longrightarrow> u = v \<and> major = a \<and> minor = b)"
proof -
  let ?rec = "ibeacon_record u major minor tx"
  let ?rs = "pre @ [?rec] @ post"
  have fit: "\<And>r. r \<in> set ?rs \<Longrightarrow> fits r"
    using assms(1,2) by (auto simp: list_all_iff fits_def ibeacon_record_def ibeacon_payload_def)
  have "tlv_split (encode_ads ?rs @ []) = (?rs, [])"
    by (rule tlv_split_encode) (auto simp: fit walk_ends_def)
  then have split: "fst (tlv_split (encode_ads ?rs)) = ?rs" by simp
  have "ad_ibeacon ?rec = Some \<lparr>ib_UUID = formatUUID u, ib_Major = major, ib_Minor = minor, ib_TxPower = int8 tx\<rparr>"
    by (simp add: ad_ibeacon_def ibeacon_record_def manufDataType_def ibeacon_payload_decodes [OF assms(1)])
  then have "foldl keep_last None ?rs =
      Some \<lparr>ib_UUID = formatUUID u, ib_Major = major, ib_Minor = minor, ib_TxPower = int8 tx\<rparr>"
    using assms(3) by (simp add: foldl_keep_last_none list_all_iff keep_last_def)
  then have "adv_IBeacon (fst (Parse (hex_encode (encode_ads ?rs)))) =
      Some \<lparr>fr_UUID = formatUUID u, fr_Major = major, fr_Minor = minor, fr_TxPower = int8 tx\<rparr>"
    using Parse_IBeacon [OF hex_decode_encode, of "encode_ads ?rs"] unfolding split
    by (simp add: frame_of_def)
  from Identify_IBeacon [OF this] formatUUID_canonical [OF assms(1)]
  have "Identify (fst (Parse (hex_encode (encode_ads ?rs)))) = Some (ibeacon_key u major minor)"
    by (simp add: ibeacon_key_def)
  with ibeacon_key_inj [OF assms(1)] show ?thesis by blast
qed

theorem identify_ibeacon_witness:
  "let rec = ibeacon_record (replicate 16 0xAB) 1 515 0xC5;
       flags = \<lparr>ad_Type = 0x01, ad_Value = [6]\<rparr>
   in Identify (fst (Parse (hex_encode (encode_ads ([flags] @ [rec] @ [])))))
        = Some (mk_key KindIBeacon ''abababab-abab-abab-abab-abababababab_1_515'')"
proof -
  have "ibeacon_key (replicate 16 0xAB) 1 515
      = mk_key KindIBeacon ''abababab-abab-abab-abab-abababababab_1_515''" by code_simp
  moreover have "list_all fits ([\<lparr>ad_Type = 0x01, ad_Value = [6]\<rparr>] @ [])" by (simp add: fits_def)
  ultimately show ?thesis
    using identify_ibeacon
      [of "replicate 16 0xAB" "[\<lparr>ad_Type = 0x01, ad_Value = [6]\<rparr>]" "[]" 1 515 "0xC5"]
    by (simp add: Let_def del: append.simps)
qed

lemma keep_last_canonical:
  assumes "\<And>ib. cur = Some ib \<Longrightarrow> IsCanonicalUUID (ib_UUID ib)" "foldl keep_last cur rs = Some ib"
  shows "IsCanonicalUUID (ib_UUID ib)"
  using assms
proof (induction rs arbitrary: cur)
  case (Cons r rs)
  have "IsCanonicalUUID (ib_UUID ib)" if "decodeIBeaconPayload v = Inr ib" for v ib
    using that formatUUID_canonical [of "slice 4 20 v"]
    by (auto simp: decodeIBeaconPayload_def length_slice split: if_splits)
  then have "\<And>ib. keep_last cur r = Some ib \<Longrightarrow> IsCanonicalUUID (ib_UUID ib)"
    using Cons.prems(1) by (auto simp: keep_last_def ad_ibeacon_def split: option.splits if_splits sum.splits)
  from Cons.IH [OF this] Cons.prems(2) show ?case by simp
qed simp

lemma Parse_IBeacon_canonical:
  assumes "adv_IBeacon (fst (Parse s)) = Some f"
  shows "IsCanonicalUUID (fr_UUID f)"
proof (cases "hex_decode s")
  case None
  with assms show ?thesis by (simp add: Parse_def split: if_splits)
next
  case (Some buf)
  with assms show ?thesis
    by (auto simp: Parse_IBeacon frame_of_def intro: keep_last_canonical [of None])
qed

lemma first_mfg_key_none [simp]: "first_mfg_key ms = None"
  by (induction ms) (simp_all add: mfgAllowlist_def mget_zero_def)

lemma kind_of_constructor:
  "NewIBeaconKey u a b = Inr k \<Longrightarrow> kind k = KindIBeacon"
  "NewEddystoneUIDKey ns i = Inr k \<Longrightarrow> kind k = KindEddystoneUID"
  "NewEddystoneURLKey url = Inr k \<Longrightarrow> kind k = KindEddystoneURL"
  "NewNameKey n = Inr k \<Longrightarrow> kind k = KindName"
  by (auto simp: NewIBeaconKey_def NewEddystoneUIDKey_def NewEddystoneURLKey_def NewNameKey_def Let_def
        split: if_splits)

lemma Identify_valid: "Identify a = Some k \<Longrightarrow> valid_key k"
  by (auto simp: Identify_def ibeacon_stage_def eddystone_stage_def name_stage_def
        split: option.splits sum.splits if_splits intro: constructors_valid)

lemma Identify_other_kind:
  assumes "Identify a = Some k" "adv_IBeacon a = None"
  shows "kind k \<in> {KindEddystoneUID, KindEddystoneURL, KindName}"
  using assms
  by (auto simp: Identify_def ibeacon_stage_def eddystone_stage_def name_stage_def
        split: option.splits sum.splits if_splits dest: kind_of_constructor)

text \<open>
  C24: the identity of a parsed advert is always a valid key, and iBeacon takes precedence:
  the key has kind \<open>ibeacon\<close> exactly when the advert carries an iBeacon frame, and an
  advert with an iBeacon frame is never anonymous. With the empty allow-list no advert
  gets a manufacturer identity.
\<close>

theorem identify_precedence:
  "case Identify (fst (Parse s)) of
     None \<Rightarrow> adv_IBeacon (fst (Parse s)) = None
   | Some k \<Rightarrow> valid_key k \<and> kind k \<noteq> KindMfg
               \<and> (kind k = KindIBeacon \<longleftrightarrow> adv_IBeacon (fst (Parse s)) \<noteq> None)"
proof (cases "adv_IBeacon (fst (Parse s))")
  case None
  show ?thesis
  proof (cases "Identify (fst (Parse s))")
    case (Some k)
    with Identify_other_kind [OF Some None] Identify_valid [OF Some] None show ?thesis
      by (auto simp: kind_defs)
  qed (simp add: None)
next
  case (Some f)
  from Identify_IBeacon [OF Some Parse_IBeacon_canonical [OF Some]] Identify_valid show ?thesis
    using Some by (auto simp: kind_defs)
qed

subsection \<open>Eddystone telemetry\<close>

lemma sint16_bounds: "- 32768 \<le> sint (w :: 16 word)" "sint (w :: 16 word) \<le> 32767"
  using sint_greater_eq [of w] sint_less [of w] by simp_all

lemma mk64_256th: "\<bar>n\<bar> \<le> 2 ^ 53 \<Longrightarrow> mk64 (of_int n / 256) = Fin (of_int n / 256)"
proof -
  assume n: "\<bar>n\<bar> \<le> 2 ^ 53"
  have "(of_int n / 256 :: rat) = of_int n * 2 powi (- 8)" by (simp add: power_int_minus field_simps)
  then have "repr53 (of_int n / 256)"
    unfolding repr53_def using n by (intro exI [of _ n] exI [of _ "- 8"]) simp
  moreover have "\<bar>of_int n / 256 :: rat\<bar> < 2 ^ 1024"
  proof -
    have "\<bar>of_int n :: rat\<bar> \<le> 2 ^ 53" using n by (metis of_int_abs of_int_le_pow2)
    then have "\<bar>of_int n / 256 :: rat\<bar> \<le> 2 ^ 53" by (simp add: abs_divide)
    also have "\<dots> < 2 ^ 1024" by (rule power_strict_increasing) simp_all
    finally show ?thesis .
  qed
  ultimately show ?thesis by (rule mk64_repr)
qed

lemma tlm_temperature_exact:
  "tlm_temperature w = (if w = 0x8000 then None else Some (Fin (of_int (sint w) / 256)))"
proof -
  have "sint w = - 32768 \<longleftrightarrow> w = 0x8000"
    using word_eq_iff_signed [of w "0x8000", where ?'a = int] by simp
  moreover have "f_of_int (sint w) = Fin (of_int (sint w))"
    using sint16_bounds [of w] by (intro f_of_int_exact) auto
  moreover have "mk64 (of_int (sint w) / 256) = Fin (of_int (sint w) / 256)"
    using sint16_bounds [of w] by (intro mk64_256th) auto
  ultimately show ?thesis by (simp add: tlm_temperature_def)
qed


text \<open>
  C34: telemetry is decoded without loss. A telemetry frame of at least 14 bytes yields the
  battery voltage as the big-endian 16-bit value; the temperature is the exact 8.8
  fixed-point value (no rounding error in the float), strictly between -128 and 128
  degrees, and is absent exactly for the sentinel \<open>0x8000\<close>.
\<close>

theorem tlm_exact:
  assumes "14 \<le> length p" "p ! 0 = 0x20"
  shows "\<exists>ed. decodeEddystone p = Some ed
       \<and> BatteryMV ed = Some (be_u16 (slice 2 4 p))
       \<and> (case TemperatureC ed of
            None \<Rightarrow> be_u16 (slice 4 6 p) = 0x8000
          | Some t \<Rightarrow> t = Fin (of_int (sint (be_u16 (slice 4 6 p))) / 256)
                      \<and> flt (Fin (- 128)) t \<and> flt t (Fin 128))"
proof -
  let ?w = "be_u16 (slice 4 6 p)"
  have "sint ?w \<noteq> - 32768" if "?w \<noteq> 0x8000"
    using that word_eq_iff_signed [of ?w "0x8000", where ?'a = int] by auto
  then have low: "- 32768 < sint ?w" if "?w \<noteq> 0x8000"
    using that sint16_bounds [of ?w] by fastforce
  have "(of_int (- 32768) :: rat) < of_int (sint ?w)" if "?w \<noteq> 0x8000"
    using low [OF that] by (simp only: of_int_less_iff)
  moreover have "(of_int (sint ?w) :: rat) < of_int 32768"
    using sint16_bounds [of ?w] by (simp only: of_int_less_iff)
  ultimately show ?thesis
    using assms by (auto simp: decodeEddystone_def Let_def tlm_temperature_exact)
qed

theorem tlm_exact_witness:
  "\<exists>ed. decodeEddystone [0x20, 0, 0x0B, 0xB8, 0x15, 0x80, 0, 0, 0, 1, 0, 0, 0, 2] = Some ed
     \<and> BatteryMV ed = Some 3000 \<and> TemperatureC ed = Some (Fin (43 / 2))"
proof -
  let ?p = "[0x20, 0, 0x0B, 0xB8, 0x15, 0x80, 0, 0, 0, 1, 0, 0, 0, 2] :: bytes"
  have b: "be_u16 (slice 2 4 ?p) = 3000" and w: "be_u16 (slice 4 6 ?p) = 0x1580" by code_simp+
  have "sint (0x1580 :: 16 word) = 5504" by code_simp
  then show ?thesis
    using tlm_exact [of ?p] unfolding b w by (fastforce split: option.splits)
qed

end
