(* ===== verification/Config.thy ===== *)
theory Config
  imports Ids Go_Float
begin

section \<open>Tunables and topology (internal/config)\<close>

text \<open>
  \<open>tunables.go\<close>: the bridge-wide defaults, the per-beacon overrides and their
  validation; \<open>resolved.go\<close>: the merged view of one beacon; \<open>topology.go\<close>: the zone map
  and the allow-list. A nil-able \<open>*Topology\<close> is an option. The YAML decoder is a
  third-party package and a parameter of \<open>ParseTunables\<close>.

  The theory shows that validation carries over to every resolved view, that a
  topology has distinct keys, distinct names and non-blank labels, and that zone lookup
  does not depend on the notation of the MAC address.
\<close>

subsection \<open>Tunables\<close>

record DefaultsBlock =
  Alpha :: float64
  GracePeriodS :: int
  DecayRateDbPerS :: float64
  PresenceFloorDbm :: int
  TAwayMaxS :: int
  StickyAfterArrivalS :: int
  HysteresisDb :: float64
  ConfirmCount :: int

record Overrides =
  o_Alpha :: "float64 option"
  o_GracePeriodS :: "int option"
  o_DecayRateDbPerS :: "float64 option"
  o_PresenceFloorDbm :: "int option"
  o_TAwayMaxS :: "int option"
  o_StickyAfterArrivalS :: "int option"
  o_HysteresisDb :: "float64 option"
  o_ConfirmCount :: "int option"

record Tunables =
  Defaults :: DefaultsBlock
  Tun_Beacons :: "(string, Overrides) gmap"

text \<open>\<open>Resolved\<close> has the same fields as \<open>DefaultsBlock\<close>.\<close>

type_synonym Resolved = DefaultsBlock

datatype config_error =
    AlphaRange float64
  | GraceNegative int
  | DecayNegative float64
  | FloorRange int
  | TAwayLow int
  | StickyNegative int
  | HysteresisNegative float64
  | ConfirmLow int
  | InDefaults config_error
  | InBeacon string config_error
  | NilTunables
  | YamlDecode
  | NilInput
  | TrackedNameEmpty
  | ZoneBadMAC string
  | ZoneEmptyLabel string
  | BeaconZeroKey nat
  | BeaconNameEmpty nat
  | BeaconDuplicate nat string
  | BeaconDuplicateName nat string

definition fzero :: float64 where "fzero = Fin 0"
definition fone :: float64 where "fone = Fin 1"

definition bad_alpha :: "float64 \<Rightarrow> bool" where
  "bad_alpha a \<longleftrightarrow> fle a fzero \<or> flt fone a"

definition bad_floor :: "int \<Rightarrow> bool" where
  "bad_floor x \<longleftrightarrow> x > 0 \<or> x < - 127"

definition validateDefaults :: "DefaultsBlock \<Rightarrow> config_error option" where
  "validateDefaults d =
     (if bad_alpha (Alpha d) then Some (AlphaRange (Alpha d))
      else if GracePeriodS d < 0 then Some (GraceNegative (GracePeriodS d))
      else if flt (DecayRateDbPerS d) fzero then Some (DecayNegative (DecayRateDbPerS d))
      else if bad_floor (PresenceFloorDbm d) then Some (FloorRange (PresenceFloorDbm d))
      else if TAwayMaxS d < 1 then Some (TAwayLow (TAwayMaxS d))
      else if StickyAfterArrivalS d < 0 then Some (StickyNegative (StickyAfterArrivalS d))
      else if flt (HysteresisDb d) fzero then Some (HysteresisNegative (HysteresisDb d))
      else if ConfirmCount d < 1 then Some (ConfirmLow (ConfirmCount d))
      else None)"

text \<open>\<open>p != nil && bad(*p)\<close>, with the error of the value.\<close>

definition check_ptr :: "('a \<Rightarrow> bool) \<Rightarrow> ('a \<Rightarrow> config_error) \<Rightarrow> 'a option \<Rightarrow> config_error option" where
  "check_ptr bad err p = (case p of None \<Rightarrow> None | Some x \<Rightarrow> if bad x then Some (err x) else None)"

fun first_error :: "config_error option list \<Rightarrow> config_error option" where
  "first_error [] = None"
| "first_error (Some e # es) = Some e"
| "first_error (None # es) = first_error es"

definition validateOverrides :: "Overrides \<Rightarrow> config_error option" where
  "validateOverrides ov =
     first_error
       [check_ptr bad_alpha AlphaRange (o_Alpha ov),
        check_ptr (\<lambda>x. x < 0) GraceNegative (o_GracePeriodS ov),
        check_ptr (\<lambda>x. flt x fzero) DecayNegative (o_DecayRateDbPerS ov),
        check_ptr bad_floor FloorRange (o_PresenceFloorDbm ov),
        check_ptr (\<lambda>x. x < 1) TAwayLow (o_TAwayMaxS ov),
        check_ptr (\<lambda>x. x < 0) StickyNegative (o_StickyAfterArrivalS ov),
        check_ptr (\<lambda>x. flt x fzero) HysteresisNegative (o_HysteresisDb ov),
        check_ptr (\<lambda>x. x < 1) ConfirmLow (o_ConfirmCount ov)]"

fun validate_beacons :: "(string, Overrides) gmap \<Rightarrow> config_error option" where
  "validate_beacons [] = None"
| "validate_beacons ((n, ov) # rest) =
     (case validateOverrides ov of
        Some e \<Rightarrow> Some (InBeacon n e)
      | None \<Rightarrow> validate_beacons rest)"

definition Validate :: "Tunables option \<Rightarrow> config_error option" where
  "Validate tp =
     (case tp of
        None \<Rightarrow> Some NilTunables
      | Some t \<Rightarrow>
          (case validateDefaults (Defaults t) of
             Some e \<Rightarrow> Some (InDefaults e)
           | None \<Rightarrow> validate_beacons (Tun_Beacons t)))"

definition ParseTunables :: "(bytes \<Rightarrow> Tunables option) \<Rightarrow> bytes \<Rightarrow> config_error + Tunables" where
  "ParseTunables yaml_decode raw =
     (case yaml_decode raw of
        None \<Rightarrow> Inl YamlDecode
      | Some t \<Rightarrow> (case Validate (Some t) of Some e \<Rightarrow> Inl e | None \<Rightarrow> Inr t))"

definition or_else :: "'a option \<Rightarrow> 'a \<Rightarrow> 'a" where
  "or_else p x = (case p of None \<Rightarrow> x | Some y \<Rightarrow> y)"

definition ResolveFor :: "Tunables \<Rightarrow> string \<Rightarrow> Resolved" where
  "ResolveFor t beaconName =
     (let d = Defaults t in
      case mget (Tun_Beacons t) beaconName of
        None \<Rightarrow> d
      | Some ov \<Rightarrow>
          \<lparr>Alpha = or_else (o_Alpha ov) (Alpha d),
           GracePeriodS = or_else (o_GracePeriodS ov) (GracePeriodS d),
           DecayRateDbPerS = or_else (o_DecayRateDbPerS ov) (DecayRateDbPerS d),
           PresenceFloorDbm = or_else (o_PresenceFloorDbm ov) (PresenceFloorDbm d),
           TAwayMaxS = or_else (o_TAwayMaxS ov) (TAwayMaxS d),
           StickyAfterArrivalS = or_else (o_StickyAfterArrivalS ov) (StickyAfterArrivalS d),
           HysteresisDb = or_else (o_HysteresisDb ov) (HysteresisDb d),
           ConfirmCount = or_else (o_ConfirmCount ov) (ConfirmCount d)\<rparr>)"

text \<open>The zero value that a lookup of an unknown name in the cache of resolved values yields.\<close>

definition zero_resolved :: Resolved where
  "zero_resolved =
     \<lparr>Alpha = fzero, GracePeriodS = 0, DecayRateDbPerS = fzero, PresenceFloorDbm = 0, TAwayMaxS = 0,
      StickyAfterArrivalS = 0, HysteresisDb = fzero, ConfirmCount = 0\<rparr>"

subsection \<open>Topology\<close>

record TrackedBeacon =
  tb_key :: BeaconKey
  tb_name :: string

record Topology =
  zones :: "(string, string) gmap"
  beacons :: "TrackedBeacon list"

definition blank :: "string \<Rightarrow> bool" where
  "blank s \<longleftrightarrow> TrimSpace s = []"

definition NewTrackedBeacon :: "BeaconKey \<Rightarrow> string \<Rightarrow> config_error + TrackedBeacon" where
  "NewTrackedBeacon k nm =
     (if blank nm then Inl TrackedNameEmpty else Inr \<lparr>tb_key = k, tb_name = nm\<rparr>)"

definition NormalizeMAC :: "string \<Rightarrow> string" where
  "NormalizeMAC s =
     (case ParseMAC s of
        None \<Rightarrow> ToLower s
      | Some hw \<Rightarrow> if length hw = 6 then mac_string hw else ToLower s)"

fun add_zones :: "(string, string) gmap \<Rightarrow> (string, string) gmap
                  \<Rightarrow> config_error + (string, string) gmap" where
  "add_zones [] out = Inr out"
| "add_zones ((m, lbl) # rest) out =
     (if ParseMAC m = None then Inl (ZoneBadMAC m)
      else if blank lbl then Inl (ZoneEmptyLabel m)
      else add_zones rest (mput (NormalizeMAC m) lbl out))"

text \<open>The second loop: \<open>i\<close> is the index, \<open>seen\<close> and \<open>names\<close> the keys and names so far.\<close>

fun add_beacons :: "nat \<Rightarrow> BeaconKey list \<Rightarrow> string list \<Rightarrow> TrackedBeacon list
                    \<Rightarrow> TrackedBeacon list \<Rightarrow> config_error + TrackedBeacon list" where
  "add_beacons i seen names [] out = Inr out"
| "add_beacons i seen names (b # bs) out =
     (if key_IsZero (tb_key b) then Inl (BeaconZeroKey i)
      else if blank (tb_name b) then Inl (BeaconNameEmpty i)
      else if tb_key b \<in> set seen then Inl (BeaconDuplicate i (Slug (tb_key b)))
      else if tb_name b \<in> set names then Inl (BeaconDuplicateName i (tb_name b))
      else add_beacons (i + 1) (tb_key b # seen) (tb_name b # names) bs (out @ [b]))"

definition NewTopology :: "(string, string) gmap \<Rightarrow> TrackedBeacon list \<Rightarrow> config_error + Topology" where
  "NewTopology zs bs =
     (case add_zones zs [] of
        Inl e \<Rightarrow> Inl e
      | Inr out \<Rightarrow>
          (case add_beacons 0 [] [] bs [] of
             Inl e \<Rightarrow> Inl e
           | Inr kept \<Rightarrow> Inr \<lparr>zones = out, beacons = kept\<rparr>))"

definition Zone :: "Topology option \<Rightarrow> string \<Rightarrow> string" where
  "Zone tp apMAC =
     (case tp of None \<Rightarrow> [] | Some t \<Rightarrow> mget_zero [] (zones t) (NormalizeMAC apMAC))"

definition Beacons :: "Topology option \<Rightarrow> TrackedBeacon list" where
  "Beacons tp = (case tp of None \<Rightarrow> [] | Some t \<Rightarrow> beacons t)"

definition ZoneCount :: "Topology option \<Rightarrow> nat" where
  "ZoneCount tp = (case tp of None \<Rightarrow> 0 | Some t \<Rightarrow> length (zones t))"

definition BeaconCount :: "Topology option \<Rightarrow> nat" where
  "BeaconCount tp = (case tp of None \<Rightarrow> 0 | Some t \<Rightarrow> length (beacons t))"

definition BeaconNames :: "Topology option \<Rightarrow> (string, unit) gmap" where
  "BeaconNames tp =
     (case tp of None \<Rightarrow> [] | Some t \<Rightarrow> fold (\<lambda>b m. mput (tb_name b) () m) (beacons t) [])"

definition CrossValidate :: "Topology option \<Rightarrow> Tunables option \<Rightarrow> config_error + string list" where
  "CrossValidate tp tn =
     (case (tp, tn) of
        (Some tpl, Some tun) \<Rightarrow>
          (let known = BeaconNames (Some tpl) in
           Inr (filter (\<lambda>n. mget known n = None) (mkeys (Tun_Beacons tun))))
      | _ \<Rightarrow> Inl NilInput)"


subsection \<open>Validation carries over to every beacon\<close>

lemma validateDefaults_iff:
  "validateDefaults d = None \<longleftrightarrow>
     \<not> bad_alpha (Alpha d) \<and> 0 \<le> GracePeriodS d \<and> \<not> flt (DecayRateDbPerS d) fzero
     \<and> \<not> bad_floor (PresenceFloorDbm d) \<and> 1 \<le> TAwayMaxS d \<and> 0 \<le> StickyAfterArrivalS d
     \<and> \<not> flt (HysteresisDb d) fzero \<and> 1 \<le> ConfirmCount d"
  by (auto simp: validateDefaults_def)

lemma first_error_none: "first_error es = None \<longleftrightarrow> (\<forall>e \<in> set es. e = None)"
  by (induction es rule: first_error.induct) auto

lemma check_ptr_none: "check_ptr bad err p = None \<longleftrightarrow> (\<forall>x. p = Some x \<longrightarrow> \<not> bad x)"
  by (auto simp: check_ptr_def split: option.split)

lemma or_else_ok: "(\<And>x. p = Some x \<Longrightarrow> P x) \<Longrightarrow> P y \<Longrightarrow> P (or_else p y)"
  by (auto simp: or_else_def split: option.split)

lemma validate_beacons_get:
  "validate_beacons m = None \<Longrightarrow> mget m n = Some ov \<Longrightarrow> validateOverrides ov = None"
  by (induction m rule: validate_beacons.induct) (auto split: option.splits if_splits)

lemma resolve_override_ok:
  assumes "validateDefaults (Defaults t) = None" "mget (Tun_Beacons t) n = Some ov" "validateOverrides ov = None"
  shows "validateDefaults (ResolveFor t n) = None"
proof -
  have d: "\<not> bad_alpha (Alpha (Defaults t)) \<and> 0 \<le> GracePeriodS (Defaults t)
      \<and> \<not> flt (DecayRateDbPerS (Defaults t)) fzero \<and> \<not> bad_floor (PresenceFloorDbm (Defaults t))
      \<and> 1 \<le> TAwayMaxS (Defaults t) \<and> 0 \<le> StickyAfterArrivalS (Defaults t)
      \<and> \<not> flt (HysteresisDb (Defaults t)) fzero \<and> 1 \<le> ConfirmCount (Defaults t)"
    using assms(1) unfolding validateDefaults_iff .
  have ov: "\<And>x. o_Alpha ov = Some x \<Longrightarrow> \<not> bad_alpha x" "\<And>x. o_GracePeriodS ov = Some x \<Longrightarrow> 0 \<le> x"
    "\<And>x. o_DecayRateDbPerS ov = Some x \<Longrightarrow> \<not> flt x fzero"
    "\<And>x. o_PresenceFloorDbm ov = Some x \<Longrightarrow> \<not> bad_floor x" "\<And>x. o_TAwayMaxS ov = Some x \<Longrightarrow> 1 \<le> x"
    "\<And>x. o_StickyAfterArrivalS ov = Some x \<Longrightarrow> 0 \<le> x"
    "\<And>x. o_HysteresisDb ov = Some x \<Longrightarrow> \<not> flt x fzero" "\<And>x. o_ConfirmCount ov = Some x \<Longrightarrow> 1 \<le> x"
    using assms(3) by (auto simp: validateOverrides_def first_error_none check_ptr_none not_less)
  show ?thesis
    unfolding validateDefaults_iff ResolveFor_def Let_def assms(2)
    by (simp, intro conjI) (rule or_else_ok; use d ov in blast)+
qed


text \<open>The shipped default values.\<close>

definition sample_defaults :: DefaultsBlock where
  "sample_defaults =
     \<lparr>Alpha = Fin (1 / 2), GracePeriodS = 5, DecayRateDbPerS = Fin 2, PresenceFloorDbm = - 90,
      TAwayMaxS = 30, StickyAfterArrivalS = 120, HysteresisDb = Fin 4, ConfirmCount = 2\<rparr>"

definition no_overrides :: Overrides where
  "no_overrides =
     \<lparr>o_Alpha = None, o_GracePeriodS = None, o_DecayRateDbPerS = None, o_PresenceFloorDbm = None,
      o_TAwayMaxS = None, o_StickyAfterArrivalS = None, o_HysteresisDb = None, o_ConfirmCount = None\<rparr>"

lemmas validate_eval =
  Validate_def validateDefaults_def validateOverrides_def check_ptr_def bad_alpha_def bad_floor_def
  fzero_def fone_def sample_defaults_def no_overrides_def


text \<open>
  The range checks do not exclude NaN. A document whose smoothing factor is NaN passes
  the validation although the error text promises a value in (0, 1]: both comparisons
  with NaN are false. The same holds for the decay rate and the hysteresis.
\<close>

theorem validation_accepts_nan:
  "Validate (Some \<lparr>Defaults = sample_defaults\<lparr>Alpha := NaN, DecayRateDbPerS := NaN, HysteresisDb := NaN\<rparr>,
                   Tun_Beacons = []\<rparr>) = None"
  by (simp add: validate_eval)

subsection \<open>Topologies\<close>

lemma add_zones_ok:
  "add_zones zs out = Inr res \<Longrightarrow> mwf out \<Longrightarrow> (\<And>m l. mget out m = Some l \<Longrightarrow> \<not> blank l) \<Longrightarrow>
   mwf res \<and> (\<forall>m l. mget res m = Some l \<longrightarrow> \<not> blank l)"
proof (induction zs out rule: add_zones.induct)
  case (2 m' lbl rest out)
  then have ok: "ParseMAC m' \<noteq> None" "\<not> blank lbl" "add_zones rest (mput (NormalizeMAC m') lbl out) = Inr res"
    by (auto split: if_splits)
  have "\<And>m l. mget (mput (NormalizeMAC m') lbl out) m = Some l \<Longrightarrow> \<not> blank l"
    using "2.prems"(3) ok(2) by (auto simp: mget_mput split: if_splits)
  with "2.IH" [OF _ ok(2,3)] ok(1) "2.prems"(2) show ?case by simp
qed simp

lemma add_zones_keeps:
  "add_zones zs out = Inr res \<Longrightarrow> k \<notin> (NormalizeMAC \<circ> fst) ` set zs \<Longrightarrow> mget res k = mget out k"
  by (induction zs out rule: add_zones.induct) (auto simp: mget_mput split: if_splits)

lemma add_zones_get:
  "add_zones zs out = Inr res \<Longrightarrow> distinct (map (NormalizeMAC \<circ> fst) zs) \<Longrightarrow> (m, l) \<in> set zs \<Longrightarrow>
   mget res (NormalizeMAC m) = Some l"
proof (induction zs out rule: add_zones.induct)
  case (2 m' lbl rest out)
  then have ok: "ParseMAC m' \<noteq> None" "\<not> blank lbl" "add_zones rest (mput (NormalizeMAC m') lbl out) = Inr res"
    by (auto split: if_splits)
  show ?case
  proof (cases "(m, l) = (m', lbl)")
    case True
    then show ?thesis
      using add_zones_keeps [OF ok(3), of "NormalizeMAC m'"] "2.prems"(2) by (simp add: mget_mput)
  next
    case False
    with "2.IH" [OF ok(1,2,3)] "2.prems"(2,3) show ?thesis by auto
  qed
qed simp

lemma add_beacons_ok:
  "add_beacons i seen names bs out = Inr res \<Longrightarrow>
   res = out @ bs \<and> distinct (map tb_key bs) \<and> distinct (map tb_name bs)
   \<and> set (map tb_key bs) \<inter> set seen = {} \<and> set (map tb_name bs) \<inter> set names = {}
   \<and> (\<forall>b \<in> set bs. \<not> key_IsZero (tb_key b) \<and> \<not> blank (tb_name b))"
  by (induction i seen names bs out rule: add_beacons.induct) (fastforce split: if_splits)+

lemma blank_Nil [simp]: "blank []"
  by (simp add: blank_def)

lemma Zone_get: "Zone (Some t) m = (case mget (zones t) (NormalizeMAC m) of None \<Rightarrow> [] | Some l \<Rightarrow> l)"
  by (simp add: Zone_def mget_zero_def)

lemma Zone_nonblank:
  assumes "NewTopology zs bs = Inr t" "Zone (Some t) m \<noteq> []"
  shows "\<not> blank (Zone (Some t) m)"
  using assms add_zones_ok [of zs "[]"]
  by (auto simp: NewTopology_def Zone_get split: sum.splits option.splits)

definition mac_forms :: "bytes \<Rightarrow> string list" where
  "mac_forms hw = [mac_join (CHR '':'') hw, mac_join (CHR ''-'') hw, mac_dotted hw]"

lemma ParseMAC_forms:
  assumes "length hw = 6" "m \<in> set (mac_forms hw)"
  shows "ParseMAC m = Some hw"
  using assms(2) ParseMAC_join [OF assms(1), of "CHR '':''"] ParseMAC_join [OF assms(1), of "CHR ''-''"]
    ParseMAC_dotted [OF assms(1)] by (auto simp: mac_forms_def)

lemma NormalizeMAC_forms:
  assumes "length hw = 6" "m \<in> set (mac_forms hw)"
  shows "NormalizeMAC m = mac_join (CHR '':'') hw"
  by (simp add: NormalizeMAC_def ParseMAC_forms [OF assms] mac_string_join assms(1))

lemmas plain_eval = is_plain_def is_space_rune_def in_range_def

lemma not_blank_plain: "list_all is_plain s \<Longrightarrow> s \<noteq> [] \<Longrightarrow> \<not> blank s"
  using TrimSpace_plain [of s] by (simp add: blank_def list_all_iff)

text \<open>A concrete access point and its zone, for evaluations.\<close>

definition sample_mac :: bytes where
  "sample_mac = [0xaa, 0xbb, 0xcc, 0xdd, 0xee, 0xff]"

lemma sample_mac_forms:
  "mac_forms sample_mac = [''aa:bb:cc:dd:ee:ff'', ''aa-bb-cc-dd-ee-ff'', ''aabb.ccdd.eeff'']"
  by code_simp

lemma sample_topology:
  assumes "m \<in> set (mac_forms sample_mac)"
  shows "NewTopology [(m, ''kitchen'')] bs =
           (case add_beacons 0 [] [] bs [] of Inl e \<Rightarrow> Inl e
            | Inr kept \<Rightarrow> Inr \<lparr>zones = [(''aa:bb:cc:dd:ee:ff'', ''kitchen'')], beacons = kept\<rparr>)"
proof -
  have "length sample_mac = 6" by (simp add: sample_mac_def)
  from ParseMAC_forms [OF this assms] NormalizeMAC_forms [OF this assms]
  have "ParseMAC m = Some sample_mac" "NormalizeMAC m = ''aa:bb:cc:dd:ee:ff''"
    using sample_mac_forms by (simp_all add: mac_forms_def)
  moreover have "\<not> blank ''kitchen''" by (rule not_blank_plain) (simp_all add: plain_eval)
  ultimately show ?thesis by (simp add: NewTopology_def)
qed




lemma zone_lookup_norm:
  assumes "NewTopology zs bs = Inr t" "distinct (map (NormalizeMAC \<circ> fst) zs)" "(m, l) \<in> set zs"
    "NormalizeMAC m' = NormalizeMAC m"
  shows "Zone (Some t) m' = l"
  using assms add_zones_get [of zs "[]"] by (auto simp: NewTopology_def Zone_get split: sum.splits)

text \<open>
  Zone lookup does not depend on how the address is written. If the zone map binds a
  six-byte address, given in any of the three notations, to a label, then looking the
  address up in any notation yields that label (provided no two entries of the map
  denote the same address).
\<close>

theorem zone_lookup_notation:
  assumes "NewTopology zs bs = Inr t" "distinct (map (NormalizeMAC \<circ> fst) zs)" "length hw = 6"
    and "m \<in> set (mac_forms hw)" "(m, l) \<in> set zs" "m' \<in> set (mac_forms hw)"
  shows "Zone (Some t) m' = l"
  by (rule zone_lookup_norm [OF assms(1,2,5)])
     (simp only: NormalizeMAC_forms [OF assms(3,4)] NormalizeMAC_forms [OF assms(3,6)])

theorem zone_lookup_notation_witness:
  "\<exists>t. NewTopology [(''aabb.ccdd.eeff'', ''kitchen'')] [] = Inr t \<and> Zone (Some t) ''aa-bb-cc-dd-ee-ff'' = ''kitchen''"
proof -
  have n: "NewTopology [(''aabb.ccdd.eeff'', ''kitchen'')] []
      = Inr \<lparr>zones = [(''aa:bb:cc:dd:ee:ff'', ''kitchen'')], beacons = []\<rparr>"
    by (subst sample_topology) (simp_all add: sample_mac_forms)
  have "length sample_mac = 6" by (simp add: sample_mac_def)
  with zone_lookup_notation [OF n, of sample_mac "''aabb.ccdd.eeff''" "''kitchen''" "''aa-bb-cc-dd-ee-ff''"]
  show ?thesis by (intro exI conjI) (rule n, simp add: sample_mac_forms)
qed

lemma names_known:
  "mget (fold (\<lambda>b m. mput (tb_name b) () m) bs m0) n = None \<longleftrightarrow> n \<notin> tb_name ` set bs \<and> mget m0 n = None"
  by (induction bs arbitrary: m0) (auto simp: mget_mput split: if_splits)

text \<open>
  The orphans that \<open>CrossValidate\<close> reports are exactly the override names without a
  tracked beacon, each once; it fails only for a nil argument.
\<close>

theorem cross_validate_orphans:
  "case CrossValidate tp tn of
     Inl e \<Rightarrow> tp = None \<or> tn = None
   | Inr os \<Rightarrow> (\<exists>t u. tp = Some t \<and> tn = Some u
        \<and> os = filter (\<lambda>n. n \<notin> tb_name ` set (beacons t)) (mkeys (Tun_Beacons u)))"
  by (cases tp; cases tn)
     (simp_all add: CrossValidate_def BeaconNames_def Let_def names_known cong: filter_cong)

end
