(* ===== verification/Presence.thy ===== *)
theory Presence
  imports Config
begin

section \<open>The presence engine: state and operations (internal/presence)\<close>

text \<open>
  \<open>state.go\<close> and \<open>engine.go\<close>: per beacon and access point a smoothed RSSI with linear
  decay, closest-access-point-wins zone resolution, hysteresis with a confirm count, and
  the sticky-arrival window.

  The engine is a record. Its methods hold the mutex for their whole body, so each is
  one atomic function on the record. \<open>recomputeOne\<close> mutates one \<open>beaconState\<close> and
  produces at most one effect; it is a function to the new state and a list of
  actions, which the engine then performs. The outgoing channel is a queue with a
  capacity (\<open>None\<close> for a nil channel); what the engine tells its hooks and its logger is
  recorded in \<open>trace\<close>. \<open>clk\<close> is what the injected clock shows while an operation runs.
  Floating-point expressions are evaluated operation by operation, without fused
  multiply-add.
\<close>

subsection \<open>Data (state.go)\<close>

record Sighting =
  s_Beacon :: BeaconKey
  s_BeaconName :: string
  s_APMac :: string
  s_APName :: string
  s_RSSI :: int
  s_At :: gtime
  s_BatteryMV :: "int option"
  s_TemperatureC :: "float64 option"

record PresenceEvent =
  ev_Beacon :: BeaconKey
  ev_BeaconName :: string
  ev_State :: PresenceState
  ev_APMac :: string
  ev_APName :: string
  ev_RSSIRaw :: int
  ev_RSSIEWMA :: float64
  ev_RSSIEffective :: float64
  ev_RunnerUpDiff :: float64
  ev_LastSeen :: gtime
  ev_StickyActive :: bool
  ev_EmittedAt :: gtime
  ev_BatteryMV :: "int option"
  ev_TemperatureC :: "float64 option"

definition zero_event :: PresenceEvent where
  "zero_event =
     \<lparr>ev_Beacon = zero_key, ev_BeaconName = [], ev_State = [], ev_APMac = [], ev_APName = [],
      ev_RSSIRaw = 0, ev_RSSIEWMA = fzero, ev_RSSIEffective = fzero, ev_RunnerUpDiff = fzero,
      ev_LastSeen = 0, ev_StickyActive = False, ev_EmittedAt = 0, ev_BatteryMV = None,
      ev_TemperatureC = None\<rparr>"

record apState =
  apName :: string
  ewmaRSSI :: float64
  lastRSSI :: int
  lastSightingTs :: gtime
  lastSeenAt :: gtime

record beaconState =
  bs_id :: BeaconKey
  bs_name :: string
  perAP :: "(string, apState) gmap"
  currentZone :: string
  currentAP :: string
  lastArrivalTs :: gtime
  candidateAP :: string
  candidateCount :: int
  lastBatteryMV :: "int option"
  lastTemperatureC :: "float64 option"

definition newBeaconState :: "BeaconKey \<Rightarrow> string \<Rightarrow> beaconState" where
  "newBeaconState k nm =
     \<lparr>bs_id = k, bs_name = nm, perAP = [], currentZone = [], currentAP = [], lastArrivalTs = 0,
      candidateAP = [], candidateCount = 0, lastBatteryMV = None, lastTemperatureC = None\<rparr>"

subsection \<open>Effective RSSI and the closest access point\<close>

definition never :: float64 where
  "never = Fin (- 1000000000)"

definition effectiveRSSI :: "apState \<Rightarrow> gtime \<Rightarrow> Resolved \<Rightarrow> float64" where
  "effectiveRSSI ap now tun =
     (if time_is_zero (lastSightingTs ap) then never
      else (let age = dur_seconds (time_sub now (lastSightingTs ap));
                grace = f_of_int (GracePeriodS tun)
            in if fle age grace then ewmaRSSI ap
               else fsub (ewmaRSSI ap) (fmul (DecayRateDbPerS tun) (fsub age grace))))"

definition floor_dbm :: "Resolved \<Rightarrow> float64" where
  "floor_dbm tun = f_of_int (PresenceFloorDbm tun)"

text \<open>The variables of the loop of \<open>closestInPresence\<close>; \<open>best\<close> is the pair \<open>closest\<close>, \<open>key\<close>.\<close>

record closest_vars =
  best :: "(apState \<times> string) option"
  closestEff :: float64
  runnerUpEff :: float64
  found :: bool

definition consider_ap :: "Resolved \<Rightarrow> gtime \<Rightarrow> string \<times> apState \<Rightarrow> closest_vars \<Rightarrow> closest_vars" where
  "consider_ap tun now kv c =
     (let (k, ap) = kv; e = effectiveRSSI ap now tun in
      if flt e (floor_dbm tun) then c
      else if flt (closestEff c) e then
        c\<lparr>found := True, runnerUpEff := closestEff c, closestEff := e, best := Some (ap, k)\<rparr>
      else if flt (runnerUpEff c) e then c\<lparr>found := True, runnerUpEff := e\<rparr>
      else c\<lparr>found := True\<rparr>)"

definition init_closest :: closest_vars where
  "init_closest = \<lparr>best = None, closestEff = never, runnerUpEff = never, found = False\<rparr>"

text \<open>
  The result: \<open>None\<close> for \<open>ok == false\<close>, otherwise the access point (which the code leaves nil
  when no qualifying reading exceeds the initial \<open>-1e9\<close>), its key, its effective RSSI and
  the gap to the runner-up.
\<close>

definition closestInPresence ::
    "beaconState \<Rightarrow> Resolved \<Rightarrow> gtime \<Rightarrow> (apState option \<times> string \<times> float64 \<times> float64) option" where
  "closestInPresence bs tun now =
     (let c = fold (consider_ap tun now) (perAP bs) init_closest in
      if \<not> found c then None
      else (let diff = (if flt never (runnerUpEff c) then fsub (closestEff c) (runnerUpEff c) else fzero)
            in case best c of
                 None \<Rightarrow> Some (None, [], closestEff c, diff)
               | Some (ap, k) \<Rightarrow> Some (Some ap, k, closestEff c, diff)))"

definition freshestSightingTs :: "beaconState \<Rightarrow> gtime" where
  "freshestSightingTs bs =
     fold (\<lambda>(k, ap) t. if t < lastSightingTs ap then lastSightingTs ap else t) (perAP bs) 0"

subsection \<open>Events\<close>

text \<open>What a beacon's recomputation asks the engine to do. \<open>NilDeref\<close> is a nil-pointer panic.\<close>

datatype action =
    Emit PresenceEvent
  | NoteUnknownAP BeaconKey string string
  | NilDeref

definition buildEvent ::
    "beaconState \<Rightarrow> apState \<Rightarrow> string \<Rightarrow> float64 \<Rightarrow> float64 \<Rightarrow> gtime \<Rightarrow> bool \<Rightarrow> PresenceEvent" where
  "buildEvent bs ap apKey eff diff now sticky =
     \<lparr>ev_Beacon = bs_id bs, ev_BeaconName = bs_name bs, ev_State = currentZone bs, ev_APMac = apKey,
      ev_APName = apName ap, ev_RSSIRaw = lastRSSI ap, ev_RSSIEWMA = ewmaRSSI ap,
      ev_RSSIEffective = eff, ev_RunnerUpDiff = diff, ev_LastSeen = lastSeenAt ap,
      ev_StickyActive = sticky, ev_EmittedAt = now, ev_BatteryMV = lastBatteryMV bs,
      ev_TemperatureC = lastTemperatureC bs\<rparr>"

text \<open>\<open>e.emit(buildEvent(bs, closestAP, ...))\<close> for a possibly nil \<open>closestAP\<close>.\<close>

definition emit_built ::
    "beaconState \<Rightarrow> apState option \<times> string \<times> float64 \<times> float64 \<Rightarrow> gtime \<Rightarrow> bool \<Rightarrow> action" where
  "emit_built bs cl now sticky =
     (case cl of (cap, k, eff, diff) \<Rightarrow>
        case cap of None \<Rightarrow> NilDeref | Some ap \<Rightarrow> Emit (buildEvent bs ap k eff diff now sticky))"

definition in_sticky_window :: "beaconState \<Rightarrow> Resolved \<Rightarrow> gtime \<Rightarrow> bool" where
  "in_sticky_window bs tun now \<longleftrightarrow>
     time_sub now (lastArrivalTs bs) < seconds_dur (StickyAfterArrivalS tun)"

definition sticky_active :: "beaconState \<Rightarrow> Resolved \<Rightarrow> gtime \<Rightarrow> bool" where
  "sticky_active bs tun now \<longleftrightarrow> currentZone bs \<noteq> [] \<and> in_sticky_window bs tun now"

definition force_away :: "beaconState \<Rightarrow> Resolved \<Rightarrow> gtime \<Rightarrow> bool" where
  "force_away bs tun now \<longleftrightarrow>
     (let freshest = freshestSightingTs bs in
      \<not> time_is_zero freshest
      \<and> time_sub now freshest > seconds_dur (TAwayMaxS tun)
      \<and> \<not> sticky_active bs tun now)"

definition clear_candidate :: "beaconState \<Rightarrow> beaconState" where
  "clear_candidate bs = bs\<lparr>candidateAP := [], candidateCount := 0\<rparr>"

definition set_zone :: "string \<Rightarrow> string \<Rightarrow> beaconState \<Rightarrow> beaconState" where
  "set_zone z k bs = clear_candidate (bs\<lparr>currentZone := z, currentAP := k\<rparr>)"

definition departure_event :: "beaconState \<Rightarrow> Resolved \<Rightarrow> gtime \<Rightarrow> PresenceEvent" where
  "departure_event bs tun now =
     (let ev = zero_event\<lparr>ev_Beacon := bs_id bs, ev_BeaconName := bs_name bs, ev_State := StateNotHome,
                 ev_LastSeen := freshestSightingTs bs, ev_StickyActive := False, ev_EmittedAt := now\<rparr> in
      case mget (perAP bs) (currentAP bs) of
        None \<Rightarrow> ev
      | Some ap \<Rightarrow> ev\<lparr>ev_APMac := currentAP bs, ev_APName := apName ap, ev_RSSIRaw := lastRSSI ap,
                      ev_RSSIEWMA := ewmaRSSI ap, ev_RSSIEffective := effectiveRSSI ap now tun,
                      ev_LastSeen := lastSeenAt ap\<rparr>)"

subsection \<open>Recomputing one beacon\<close>

text \<open>Case A of \<open>recomputeOne\<close>: no access point in presence, or the safety bound is exceeded.\<close>

definition case_away :: "Resolved \<Rightarrow> beaconState \<Rightarrow> gtime \<Rightarrow> beaconState \<times> action list" where
  "case_away tun bs now =
     (if currentZone bs = [] then (bs, [])
      else if sticky_active bs tun now \<and> \<not> force_away bs tun now then (bs, [])
      else (set_zone [] [] bs, [Emit (departure_event bs tun now)]))"

text \<open>Case C: a zone is published and some access point is in presence.\<close>

definition case_in_zone ::
    "Resolved \<Rightarrow> beaconState \<Rightarrow> gtime \<Rightarrow> string \<Rightarrow> string
     \<Rightarrow> apState option \<times> string \<times> float64 \<times> float64 \<Rightarrow> beaconState \<times> action list" where
  "case_in_zone tun bs now fromAP closestZone cl =
     (let (cap, closestKey, ceff, diff) = cl;
          sticky = sticky_active bs tun now;
          cur = mget (perAP bs) (currentAP bs);
          currentEff = (case cur of None \<Rightarrow> never | Some ap \<Rightarrow> effectiveRSSI ap now tun);
          switched = set_zone closestZone closestKey bs
      in
      if cur = None \<or> flt currentEff (floor_dbm tun) then
        (switched, [emit_built switched cl now sticky])
      else if closestKey = currentAP bs then
        (let bs1 = clear_candidate bs in
         if closestZone \<noteq> currentZone bs then
           (let bs2 = bs1\<lparr>currentZone := closestZone\<rparr> in (bs2, [emit_built bs2 cl now sticky]))
         else (bs1, []))
      else if closestZone = currentZone bs then (clear_candidate bs, [])
      else if fromAP = [] then (bs, [])
      else if flt (fsub ceff currentEff) (HysteresisDb tun) then (clear_candidate bs, [])
      else
        (let bs1 = (if candidateAP bs = closestKey
                    then bs\<lparr>candidateCount := candidateCount bs + 1\<rparr>
                    else bs\<lparr>candidateAP := closestKey, candidateCount := 1\<rparr>) in
         if candidateCount bs1 < ConfirmCount tun then (bs1, [])
         else (switched, [emit_built switched cl now sticky])))"

definition recomputeOne ::
    "Topology option \<Rightarrow> Resolved \<Rightarrow> beaconState \<Rightarrow> gtime \<Rightarrow> string \<Rightarrow> beaconState \<times> action list" where
  "recomputeOne tp tun bs now fromAP =
     (case closestInPresence bs tun now of
        None \<Rightarrow> case_away tun bs now
      | Some cl \<Rightarrow>
          if force_away bs tun now then case_away tun bs now
          else (let closestKey = fst (snd cl); closestZone = Zone tp closestKey in
            if closestZone = [] then (bs, [NoteUnknownAP (bs_id bs) (bs_name bs) closestKey])
            else if currentZone bs = [] then
              (let bs1 = (set_zone closestZone closestKey bs)\<lparr>lastArrivalTs := now\<rparr> in
               (bs1, [emit_built bs1 cl now True]))
            else case_in_zone tun bs now fromAP closestZone cl))"

subsection \<open>The engine\<close>

datatype effect =
    UnknownBeacon BeaconKey string
  | UnknownAP BeaconKey string string
  | EventEmitted PresenceEvent
  | EventSent PresenceEvent
  | EventDropped PresenceEvent
  | DropWarned PresenceEvent
  | Panicked

record Engine =
  e_top :: "Topology option"
  e_tun :: Tunables
  clk :: gtime
  out_cap :: "nat option"
  out_queue :: "PresenceEvent list"
  e_beacons :: "(BeaconKey, beaconState) gmap"
  e_resolved :: "(string, Resolved) gmap"
  dropLogLast :: int
  trace :: "effect list"

definition logged :: "effect \<Rightarrow> Engine \<Rightarrow> Engine" where
  "logged x e = e\<lparr>trace := trace e @ [x]\<rparr>"

definition tun_of :: "Engine \<Rightarrow> beaconState \<Rightarrow> Resolved" where
  "tun_of e bs = mget_zero zero_resolved (e_resolved e) (bs_name bs)"

definition dropLogMinInterval :: duration where
  "dropLogMinInterval = minute"

text \<open>\<open>UnixNano\<close>: nanoseconds since 1970, which the zero time precedes by 62135596800 seconds.\<close>

definition unix_nano :: "gtime \<Rightarrow> int" where
  "unix_nano t = s64 (t - 62135596800 * second)"

definition maybeLogDrop :: "PresenceEvent \<Rightarrow> Engine \<Rightarrow> Engine" where
  "maybeLogDrop ev e =
     (let now = unix_nano (clk e); prev = dropLogLast e in
      if prev \<noteq> 0 \<and> s64 (now - prev) < dropLogMinInterval then e
      else logged (DropWarned ev) (e\<lparr>dropLogLast := now\<rparr>))"

definition emit :: "PresenceEvent \<Rightarrow> Engine \<Rightarrow> Engine" where
  "emit ev e =
     (let e1 = logged (EventEmitted ev) e in
      case out_cap e of
        None \<Rightarrow> e1
      | Some cap \<Rightarrow>
          if length (out_queue e) < cap then
            logged (EventSent ev) (e1\<lparr>out_queue := out_queue e @ [ev]\<rparr>)
          else maybeLogDrop ev (logged (EventDropped ev) e1))"

fun perform :: "action \<Rightarrow> Engine \<Rightarrow> Engine" where
  "perform (Emit ev) e = emit ev e"
| "perform (NoteUnknownAP k nm ap) e = logged (UnknownAP k nm ap) e"
| "perform NilDeref e = logged Panicked e"

definition put_beacon :: "BeaconKey \<Rightarrow> beaconState \<Rightarrow> Engine \<Rightarrow> Engine" where
  "put_beacon k bs e = e\<lparr>e_beacons := mput k bs (e_beacons e)\<rparr>"

text \<open>
  A method that works on one beacon in place: \<open>upd\<close> computes the new state of the beacon
  stored under \<open>k\<close> and the actions, which the engine performs.
\<close>

definition apply_at ::
    "(Engine \<Rightarrow> beaconState \<Rightarrow> beaconState \<times> action list) \<Rightarrow> BeaconKey \<Rightarrow> Engine \<Rightarrow> Engine" where
  "apply_at upd k e =
     (case mget (e_beacons e) k of
        None \<Rightarrow> e
      | Some bs \<Rightarrow> (let (bs1, acts) = upd e bs in fold perform acts (put_beacon k bs1 e)))"

definition recompute_at :: "gtime \<Rightarrow> string \<Rightarrow> BeaconKey \<Rightarrow> Engine \<Rightarrow> Engine" where
  "recompute_at now fromAP k e =
     apply_at (\<lambda>e bs. recomputeOne (e_top e) (tun_of e bs) bs now fromAP) k e"

definition recomputeAll :: "gtime \<Rightarrow> string \<Rightarrow> Engine \<Rightarrow> Engine" where
  "recomputeAll now fromAP e = fold (recompute_at now fromAP) (mkeys (e_beacons e)) e"

text \<open>The update of the access point's entry in \<open>handleSighting\<close>.\<close>

definition update_ap :: "Resolved \<Rightarrow> Sighting \<Rightarrow> gtime \<Rightarrow> apState option \<Rightarrow> apState" where
  "update_ap tun s now old =
     (let smoothed =
        (case old of
           None \<Rightarrow> f_of_int (s_RSSI s)
         | Some ap \<Rightarrow> fadd (fmul (Alpha tun) (f_of_int (s_RSSI s)))
                          (fmul (fsub fone (Alpha tun)) (ewmaRSSI ap)))
      in \<lparr>apName = s_APName s, ewmaRSSI = smoothed, lastRSSI = s_RSSI s, lastSightingTs = now,
          lastSeenAt = s_At s\<rparr>)"

definition note_sighting :: "Resolved \<Rightarrow> Sighting \<Rightarrow> gtime \<Rightarrow> beaconState \<Rightarrow> beaconState" where
  "note_sighting tun s now bs =
     (let apKey = ToLower (s_APMac s) in
      bs\<lparr>perAP := mput apKey (update_ap tun s now (mget (perAP bs) apKey)) (perAP bs),
         lastBatteryMV := (if s_BatteryMV s \<noteq> None then s_BatteryMV s else lastBatteryMV bs),
         lastTemperatureC := (if s_TemperatureC s \<noteq> None then s_TemperatureC s else lastTemperatureC bs)\<rparr>)"

definition handleSighting :: "Sighting \<Rightarrow> gtime \<Rightarrow> Engine \<Rightarrow> Engine" where
  "handleSighting s now e =
     (case mget (e_beacons e) (s_Beacon s) of
        None \<Rightarrow> logged (UnknownBeacon (s_Beacon s) (s_APMac s)) e
      | Some bs \<Rightarrow>
          recompute_at now (ToLower (s_APMac s)) (s_Beacon s)
            (put_beacon (s_Beacon s) (note_sighting (tun_of e bs) s now bs) e))"

definition register :: "Tunables \<Rightarrow> TrackedBeacon \<Rightarrow> Engine \<Rightarrow> Engine" where
  "register tun b e =
     e\<lparr>e_beacons := mput (tb_key b) (newBeaconState (tb_key b) (tb_name b)) (e_beacons e),
       e_resolved := mput (tb_name b) (ResolveFor tun (tb_name b)) (e_resolved e)\<rparr>"

definition NewEngine :: "Topology option \<Rightarrow> Tunables \<Rightarrow> gtime \<Rightarrow> nat option \<Rightarrow> Engine" where
  "NewEngine tp tun now cap =
     fold (register tun) (Beacons tp)
       \<lparr>e_top = tp, e_tun = tun, clk = now, out_cap = cap, out_queue = [], e_beacons = [],
        e_resolved = [], dropLogLast = 0, trace = []\<rparr>"

definition Submit :: "Sighting \<Rightarrow> Engine \<Rightarrow> Engine" where
  "Submit s e = handleSighting s (clk e) e"

definition Tick :: "Engine \<Rightarrow> Engine" where
  "Tick e = recomputeAll (clk e) [] e"

text \<open>\<open>Run\<close>: a tick per second until the context is cancelled; the list holds the clock at each tick.\<close>

definition Run :: "gtime list \<Rightarrow> Engine \<Rightarrow> Engine" where
  "Run ticks e = fold (\<lambda>t e. Tick (e\<lparr>clk := t\<rparr>)) ticks e"

definition ApplyTunables :: "Tunables option \<Rightarrow> Engine \<Rightarrow> Engine" where
  "ApplyTunables tn e =
     (case tn of
        None \<Rightarrow> e
      | Some tun \<Rightarrow>
          e\<lparr>e_tun := tun,
            e_resolved := fold (\<lambda>(k, bs) m. mput (bs_name bs) (ResolveFor tun (bs_name bs)) m)
                            (e_beacons e) (e_resolved e)\<rparr>)"

definition track :: "TrackedBeacon \<Rightarrow> Engine \<Rightarrow> Engine" where
  "track b e =
     (let k = tb_key b; nm = tb_name b;
          bs = (case mget (e_beacons e) k of
                  None \<Rightarrow> newBeaconState k nm
                | Some old \<Rightarrow> old\<lparr>bs_name := nm\<rparr>)
      in e\<lparr>e_beacons := mput k bs (e_beacons e),
           e_resolved := mput nm (ResolveFor (e_tun e) nm) (e_resolved e)\<rparr>)"

definition prune :: "TrackedBeacon list \<Rightarrow> Engine \<Rightarrow> Engine" where
  "prune tracked e =
     e\<lparr>e_beacons := filter (\<lambda>(k, bs). k \<in> tb_key ` set tracked) (e_beacons e),
       e_resolved := filter (\<lambda>(n, r). n \<in> tb_name ` set tracked) (e_resolved e)\<rparr>"

text \<open>The synthetic emit of \<open>ApplyTopology\<close> for one beacon.\<close>

definition relabelOne ::
    "Topology option \<Rightarrow> Resolved \<Rightarrow> beaconState \<Rightarrow> gtime \<Rightarrow> beaconState \<times> action list" where
  "relabelOne tp tun bs now =
     (if currentZone bs = [] then (bs, [])
      else (case closestInPresence bs tun now of
          None \<Rightarrow> (bs, [])
        | Some cl \<Rightarrow>
            (let closestKey = fst (snd cl); newZone = Zone tp closestKey in
             if newZone = [] \<or> newZone = currentZone bs then (bs, [])
             else (let bs1 = set_zone newZone closestKey bs in
                   (bs1, [emit_built bs1 cl now (in_sticky_window bs tun now)])))))"

definition relabel_at :: "gtime \<Rightarrow> BeaconKey \<Rightarrow> Engine \<Rightarrow> Engine" where
  "relabel_at now k e = apply_at (\<lambda>e bs. relabelOne (e_top e) (tun_of e bs) bs now) k e"

definition ApplyTopology :: "Topology option \<Rightarrow> Engine \<Rightarrow> Engine" where
  "ApplyTopology tp e =
     (case tp of
        None \<Rightarrow> e
      | Some t \<Rightarrow>
          (let tracked = Beacons (Some t);
               e1 = prune tracked (fold track tracked (e\<lparr>e_top := Some t\<rparr>))
           in fold (relabel_at (clk e1)) (mkeys (e_beacons e1)) e1))"

text \<open>The event that \<open>RepublishAll\<close> emits for one beacon.\<close>

definition republish_event :: "Resolved \<Rightarrow> beaconState \<Rightarrow> gtime \<Rightarrow> PresenceEvent" where
  "republish_event tun bs now =
     (let sticky = sticky_active bs tun now;
          bare = zero_event\<lparr>ev_Beacon := bs_id bs, ev_BeaconName := bs_name bs, ev_EmittedAt := now,
                   ev_BatteryMV := lastBatteryMV bs, ev_TemperatureC := lastTemperatureC bs\<rparr> in
      if currentZone bs \<noteq> [] then
        (case mget (perAP bs) (currentAP bs) of
           Some ap \<Rightarrow> buildEvent bs ap (currentAP bs) (effectiveRSSI ap now tun) fzero now sticky
         | None \<Rightarrow> bare\<lparr>ev_State := currentZone bs, ev_StickyActive := sticky\<rparr>)
      else bare\<lparr>ev_State := StateNotHome\<rparr>)"

definition RepublishAll :: "Engine \<Rightarrow> Engine" where
  "RepublishAll e =
     fold (\<lambda>(k, bs) e'. emit (republish_event (tun_of e bs) bs (clk e)) e') (e_beacons e) e"

definition IsTracked :: "BeaconKey \<Rightarrow> Engine \<Rightarrow> string \<times> bool" where
  "IsTracked k e = (case mget (e_beacons e) k of None \<Rightarrow> ([], False) | Some bs \<Rightarrow> (bs_name bs, True))"

subsection \<open>Snapshots\<close>

record APSnapshot =
  as_Mac :: string
  as_Name :: string
  as_LastRSSI :: int
  as_EWMARSSI :: float64
  as_EffectiveRSSI :: float64
  as_LastSightingTs :: gtime
  as_InPresence :: bool

record BeaconSnapshot =
  sn_Beacon :: BeaconKey
  sn_Name :: string
  sn_CurrentZone :: string
  sn_CurrentAP :: string
  sn_LastArrival :: gtime
  sn_StickyActive :: bool
  sn_APs :: "APSnapshot list"
  sn_BatteryMV :: "int option"
  sn_TemperatureC :: "float64 option"

record EngineSnapshot =
  AsOf :: gtime
  sn_Beacons :: "BeaconSnapshot list"

definition snapshot_ap :: "Resolved \<Rightarrow> gtime \<Rightarrow> string \<times> apState \<Rightarrow> APSnapshot" where
  "snapshot_ap tun now kv =
     (let (m, ap) = kv; eff = effectiveRSSI ap now tun in
      \<lparr>as_Mac = m, as_Name = apName ap, as_LastRSSI = lastRSSI ap, as_EWMARSSI = ewmaRSSI ap,
       as_EffectiveRSSI = eff, as_LastSightingTs = lastSightingTs ap,
       as_InPresence = fle (floor_dbm tun) eff\<rparr>)"

definition snapshot_beacon :: "Engine \<Rightarrow> BeaconKey \<times> beaconState \<Rightarrow> BeaconSnapshot" where
  "snapshot_beacon e kv =
     (let (k, bs) = kv; tun = tun_of e bs in
      \<lparr>sn_Beacon = k, sn_Name = bs_name bs, sn_CurrentZone = currentZone bs,
       sn_CurrentAP = currentAP bs, sn_LastArrival = lastArrivalTs bs,
       sn_StickyActive = sticky_active bs tun (clk e),
       sn_APs = map (snapshot_ap tun (clk e)) (perAP bs),
       sn_BatteryMV = lastBatteryMV bs, sn_TemperatureC = lastTemperatureC bs\<rparr>)"

definition Snapshot :: "Engine \<Rightarrow> EngineSnapshot" where
  "Snapshot e = \<lparr>AsOf = clk e, sn_Beacons = map (snapshot_beacon e) (e_beacons e)\<rparr>"

definition restore_one :: "gtime \<Rightarrow> BeaconSnapshot \<Rightarrow> Engine \<times> nat \<Rightarrow> Engine \<times> nat" where
  "restore_one now sn en =
     (let (e, n) = en in
      case mget (e_beacons e) (sn_Beacon sn) of
        None \<Rightarrow> (e, n)
      | Some bs \<Rightarrow>
          if sn_CurrentZone sn = [] then (e, n)
          else (put_beacon (sn_Beacon sn)
                  (bs\<lparr>currentZone := sn_CurrentZone sn, currentAP := sn_CurrentAP sn,
                      lastArrivalTs := now\<rparr>) e, n + 1))"

definition RestoreState :: "BeaconSnapshot list \<Rightarrow> Engine \<Rightarrow> Engine \<times> nat" where
  "RestoreState snaps e = fold (restore_one (clk e)) snaps (e, 0)"

end
