(* ===== verification/Presence_Rank.thy ===== *)
theory Presence_Rank
  imports Presence
begin

section \<open>Ranking of access points\<close>

text \<open>
  Facts about \<open>effectiveRSSI\<close> and \<open>closestInPresence\<close>: the effective RSSI never rises while
  an access point is silent, the closest access point is the one with the largest
  effective RSSI among those at or above the presence floor, and neither the winner's
  value nor the gap to the runner-up depends on the order in which the map is iterated.
\<close>

subsection \<open>Decay\<close>

lemma dur_seconds_time_sub_bounds:
  assumes "u \<le> t"
  obtains a where "dur_seconds (time_sub t u) = Fin a" "0 \<le> a" "a \<le> 2 ^ 53"
proof -
  let ?d = "time_sub t u"
  let ?f = "of_int (?d mod second) / 1000000000 :: rat"
  have d: "0 \<le> ?d" "?d < 2 ^ 63" by (rule time_sub_nonneg [OF assms], rule time_sub_lt)
  have "0 \<le> ?d div second" "?d div second \<le> 9223372036" using d by (auto simp: second_def)
  then have q: "(0 :: rat) \<le> of_int (?d div second)" "of_int (?d div second) \<le> (9223372036 :: rat)"
    by linarith+
  have "0 \<le> ?d mod second" "?d mod second < 1000000000" by (auto simp: second_def)
  then have "0 \<le> ?f" "?f \<le> 1" by (simp_all add: field_simps)
  then have i: "0 \<le> rnd ?f" "rnd ?f \<le> 1" using rnd_nonneg [of ?f] rnd_bounded [of ?f 1] by simp_all
  let ?x = "of_int (?d div second) + rnd ?f"
  have "0 \<le> rnd ?x" using q i by (intro rnd_nonneg) simp
  moreover have "rnd ?x \<le> of_int (2 ^ 53)" by (rule rnd_bounded) (use q i in auto)
  ultimately show thesis using dur_seconds_eq [OF d] by (intro that) simp_all
qed

text \<open>The term that is subtracted after the grace period grows with the age and is never negative.\<close>

lemma decay_term:
  assumes "0 \<le> g" "g \<le> x" "x \<le> y" "y \<le> 2 ^ 53" "0 \<le> d"
  shows "fle (fmul (Fin d) (fsub (Fin x) (Fin g))) (fmul (Fin d) (fsub (Fin y) (Fin g)))"
    and "fle (Fin 0) (fmul (Fin d) (fsub (Fin x) (Fin g)))"
proof -
  have "mk64 (x - g) = Fin (rnd (x - g))" "mk64 (y - g) = Fin (rnd (y - g))"
    using assms by (auto intro!: mk64_bounded)
  moreover have "rnd (x - g) \<le> rnd (y - g)" "0 \<le> rnd (x - g)"
    using assms by (auto intro!: rnd_mono rnd_nonneg)
  ultimately show "fle (fmul (Fin d) (fsub (Fin x) (Fin g))) (fmul (Fin d) (fsub (Fin y) (Fin g)))"
    and "fle (Fin 0) (fmul (Fin d) (fsub (Fin x) (Fin g)))"
    using assms(5) by (auto simp: fsub_def intro!: mk64_mono mk64_nonneg mult_left_mono)
qed

text \<open>A finite value that is a float64: rounding leaves it unchanged.\<close>

definition is_float :: "rat \<Rightarrow> bool" where
  "is_float w \<longleftrightarrow> mk64 w = Fin w"

text \<open>
  While an access point is silent its effective RSSI never rises. For any smoothed
  value, any non-negative decay rate and grace period, and any two readings of the
  clock after the last sighting, the later effective RSSI is at most the earlier one,
  rounding included; up to the end of the grace period it is the smoothed value itself.
\<close>

theorem effective_rssi_antitone:
  assumes "ewmaRSSI ap = Fin w" "is_float w" "DecayRateDbPerS tun = Fin d" "0 \<le> d"
    and "0 \<le> GracePeriodS tun" "GracePeriodS tun \<le> 2 ^ 53"
    and "0 < lastSightingTs ap" "lastSightingTs ap \<le> t" "t \<le> t'"
  shows "fle (effectiveRSSI ap t' tun) (effectiveRSSI ap t tun)
       \<and> fle (effectiveRSSI ap t tun) (ewmaRSSI ap)"
proof -
  obtain x where x: "dur_seconds (time_sub t (lastSightingTs ap)) = Fin x" "0 \<le> x" "x \<le> 2 ^ 53"
    using assms(8) by (rule dur_seconds_time_sub_bounds)
  have le': "lastSightingTs ap \<le> t'" using assms by simp
  obtain y where y: "dur_seconds (time_sub t' (lastSightingTs ap)) = Fin y" "0 \<le> y" "y \<le> 2 ^ 53"
    using le' by (rule dur_seconds_time_sub_bounds)
  have xy: "x \<le> y" using dur_seconds_time_sub_mono [OF assms(8,9)] by (simp add: x y)
  let ?g = "of_int (GracePeriodS tun) :: rat"
  have g: "f_of_int (GracePeriodS tun) = Fin ?g" "0 \<le> ?g"
    using assms(5,6) by (simp_all add: f_of_int_exact)
  have eff: "effectiveRSSI ap s tun = (if z \<le> ?g then Fin w else fsub (Fin w) (fmul (Fin d) (fsub (Fin z) (Fin ?g))))"
    if "dur_seconds (time_sub s (lastSightingTs ap)) = Fin z" for s z
    using that assms(1,3,7) by (simp add: effectiveRSSI_def time_is_zero_def g)
  have below: "fle (fsub (Fin w) b) (Fin w)" if "fle (Fin 0) b" for b
  proof -
    have "fsub (Fin w) (Fin 0) = Fin w" using assms(2) by (simp add: fsub_def is_float_def)
    with fsub_Fin_antimono [OF that, of w] show ?thesis by simp
  qed
  show ?thesis
  proof (cases "x \<le> ?g")
    case True
    then have "effectiveRSSI ap t tun = Fin w" by (simp add: eff [OF x(1)])
    moreover have "fle (effectiveRSSI ap t' tun) (Fin w)"
      using below decay_term(2) [of ?g y y d] g(2) y(3) assms(4) by (auto simp: eff [OF y(1)])
    ultimately show ?thesis using assms(1) by simp
  next
    case False
    then have e: "effectiveRSSI ap t tun = fsub (Fin w) (fmul (Fin d) (fsub (Fin x) (Fin ?g)))"
      "effectiveRSSI ap t' tun = fsub (Fin w) (fmul (Fin d) (fsub (Fin y) (Fin ?g)))"
      using xy by (simp_all add: eff [OF x(1)] eff [OF y(1)])
    have dt: "fle (fmul (Fin d) (fsub (Fin x) (Fin ?g))) (fmul (Fin d) (fsub (Fin y) (Fin ?g)))"
      "fle (Fin 0) (fmul (Fin d) (fsub (Fin x) (Fin ?g)))"
      using decay_term [of ?g x y d] False xy g(2) y(3) assms(4) by auto
    show ?thesis
      unfolding e assms(1) using fsub_Fin_antimono [OF dt(1)] below [OF dt(2)] by blast
  qed
qed

theorem effective_rssi_antitone_witness:
  "let ap = \<lparr>apName = ''ap'', ewmaRSSI = Fin (- 60), lastRSSI = - 60, lastSightingTs = 100 * second, lastSeenAt = 0\<rparr>
   in fle (effectiveRSSI ap (120 * second) sample_defaults) (effectiveRSSI ap (103 * second) sample_defaults)"
  using effective_rssi_antitone
    [of "\<lparr>apName = ''ap'', ewmaRSSI = Fin (- 60), lastRSSI = - 60, lastSightingTs = 100 * second, lastSeenAt = 0\<rparr>"
        "- 60" sample_defaults 2 "103 * second" "120 * second"]
  by (simp add: is_float_def sample_defaults_def second_def Let_def)


subsection \<open>The closest access point\<close>

definition qualifies :: "Resolved \<Rightarrow> gtime \<Rightarrow> apState \<Rightarrow> bool" where
  "qualifies tun now ap \<longleftrightarrow> \<not> flt (effectiveRSSI ap now tun) (floor_dbm tun)"

text \<open>No reading is NaN and the floor is one that validation accepts.\<close>

definition rank_ok :: "beaconState \<Rightarrow> Resolved \<Rightarrow> gtime \<Rightarrow> bool" where
  "rank_ok bs tun now \<longleftrightarrow>
     \<not> bad_floor (PresenceFloorDbm tun)
     \<and> list_all (\<lambda>(k, ap). effectiveRSSI ap now tun \<noteq> NaN) (perAP bs)"

lemma floor_dbm_Fin:
  assumes "\<not> bad_floor (PresenceFloorDbm tun)"
  shows "floor_dbm tun = Fin (of_int (PresenceFloorDbm tun))" "flt never (floor_dbm tun)"
proof -
  show f: "floor_dbm tun = Fin (of_int (PresenceFloorDbm tun))"
    using assms by (simp add: floor_dbm_def bad_floor_def f_of_int_exact)
  have "(of_int (- 1000000000) :: rat) < of_int (PresenceFloorDbm tun)"
    using assms by (subst of_int_less_iff) (simp add: bad_floor_def)
  then show "flt never (floor_dbm tun)" by (simp add: f never_def)
qed

text \<open>The invariant of the loop after the entries \<open>xs\<close>.\<close>

definition loop_inv :: "Resolved \<Rightarrow> gtime \<Rightarrow> (string \<times> apState) set \<Rightarrow> closest_vars \<Rightarrow> bool" where
  "loop_inv tun now X c \<longleftrightarrow>
     (found c \<longleftrightarrow> (\<exists>(k, ap) \<in> X. qualifies tun now ap))
     \<and> (found c \<longrightarrow> (\<exists>ap k. best c = Some (ap, k) \<and> (k, ap) \<in> X \<and> qualifies tun now ap
          \<and> closestEff c = effectiveRSSI ap now tun
          \<and> (\<forall>(k', ap') \<in> X. qualifies tun now ap' \<longrightarrow> fle (effectiveRSSI ap' now tun) (closestEff c))))
     \<and> (\<not> found c \<longrightarrow> closestEff c = never)"

lemma loop_inv_step:
  assumes "loop_inv tun now X c" "effectiveRSSI ap now tun \<noteq> NaN" "flt never (floor_dbm tun)"
  shows "loop_inv tun now (insert (k, ap) X) (consider_ap tun now (k, ap) c)"
proof (cases "qualifies tun now ap")
  case False
  then have "consider_ap tun now (k, ap) c = c" by (simp add: consider_ap_def qualifies_def)
  with False assms(1) show ?thesis unfolding loop_inv_def by (simp; blast)
next
  case True
  let ?e = "effectiveRSSI ap now tun"
  have "floor_dbm tun \<noteq> NaN" using assms(3) by auto
  then have fe: "fle (floor_dbm tun) ?e"
    using True assms(2) by (simp add: qualifies_def not_flt)
  show ?thesis
  proof (cases "flt (closestEff c) ?e")
    case gt: True
    have "fle (effectiveRSSI ap' now tun) ?e"
      if "(k', ap') \<in> X" "qualifies tun now ap'" for k' ap'
      using that assms(1) gt unfolding loop_inv_def
      by (metis (mono_tags, lifting) case_prodD case_prodI fle_lt_trans flt_imp_fle)
    with gt True fe show ?thesis
      unfolding loop_inv_def by (auto simp: consider_ap_def qualifies_def intro: fle_refl dest: fle_not_NaN)
  next
    case le: False
    have fnd: "found c"
    proof (rule ccontr)
      assume "\<not> found c"
      then have "closestEff c = never" using assms(1) by (simp add: loop_inv_def)
      with le flt_le_trans [OF assms(3) fe] show False by simp
    qed
    then have "closestEff c \<noteq> NaN"
      using assms(1) unfolding loop_inv_def by (auto dest: fle_not_NaN)
    with le assms(2) have "fle ?e (closestEff c)" by (simp add: not_flt)
    moreover have "best (consider_ap tun now (k, ap) c) = best c"
      "closestEff (consider_ap tun now (k, ap) c) = closestEff c" "found (consider_ap tun now (k, ap) c)"
      using le True by (auto simp: consider_ap_def qualifies_def Let_def)
    ultimately show ?thesis
      using True fnd assms(1) unfolding loop_inv_def by (simp; blast)
  qed
qed

lemma loop_inv_fold:
  assumes "flt never (floor_dbm tun)" "\<And>k ap. (k, ap) \<in> set xs \<Longrightarrow> effectiveRSSI ap now tun \<noteq> NaN"
    "loop_inv tun now X c"
  shows "loop_inv tun now (set xs \<union> X) (fold (consider_ap tun now) xs c)"
  using assms(2,3)
proof (induction xs arbitrary: X c)
  case (Cons x xs)
  obtain k ap where x: "x = (k, ap)" by (cases x)
  have step: "loop_inv tun now (insert (k, ap) X) (consider_ap tun now (k, ap) c)"
    using Cons.prems x by (intro loop_inv_step assms(1)) auto
  have "\<And>k ap. (k, ap) \<in> set xs \<Longrightarrow> effectiveRSSI ap now tun \<noteq> NaN"
    using Cons.prems(1) by (meson list.set_intros(2))
  from Cons.IH [OF this step] show ?case by (simp add: x)
qed simp

lemma loop_inv_init: "loop_inv tun now {} init_closest"
  by (simp add: loop_inv_def init_closest_def)

lemma closest_max:
  assumes "rank_ok bs tun now"
  shows "case closestInPresence bs tun now of
     None \<Rightarrow> list_all (\<lambda>(k, ap). flt (effectiveRSSI ap now tun) (floor_dbm tun)) (perAP bs)
   | Some (cap, k, eff, diff) \<Rightarrow>
       (\<exists>ap. cap = Some ap \<and> (k, ap) \<in> set (perAP bs) \<and> eff = effectiveRSSI ap now tun
          \<and> fle (floor_dbm tun) eff
          \<and> list_all (\<lambda>(k', ap'). fle (effectiveRSSI ap' now tun) eff) (perAP bs))"
proof -
  let ?c = "fold (consider_ap tun now) (perAP bs) init_closest"
  have nn: "\<And>k ap. (k, ap) \<in> set (perAP bs) \<Longrightarrow> effectiveRSSI ap now tun \<noteq> NaN"
    using assms by (auto simp: rank_ok_def list_all_iff)
  have fl: "flt never (floor_dbm tun)" "floor_dbm tun \<noteq> NaN"
    using assms floor_dbm_Fin by (auto simp: rank_ok_def)
  have inv: "loop_inv tun now (set (perAP bs)) ?c"
    using loop_inv_fold [OF fl(1) nn loop_inv_init] by simp
  show ?thesis
  proof (cases "found ?c")
    case False
    with inv show ?thesis
      by (auto simp: closestInPresence_def Let_def loop_inv_def qualifies_def list_all_iff)
  next
    case True
    then obtain ap k where b: "best ?c = Some (ap, k)" "(k, ap) \<in> set (perAP bs)" "qualifies tun now ap"
        "closestEff ?c = effectiveRSSI ap now tun"
      and mx: "\<And>k' ap'. (k', ap') \<in> set (perAP bs) \<Longrightarrow> qualifies tun now ap' \<Longrightarrow>
                 fle (effectiveRSSI ap' now tun) (closestEff ?c)"
      using inv unfolding loop_inv_def by blast
    have ge: "fle (floor_dbm tun) (effectiveRSSI ap now tun)"
      using b(3) nn [OF b(2)] fl(2) by (simp add: qualifies_def not_flt)
    have "fle (effectiveRSSI ap' now tun) (effectiveRSSI ap now tun)" if "(k', ap') \<in> set (perAP bs)" for k' ap'
      using that mx b(4) flt_imp_fle fle_trans [OF _ ge] by (cases "qualifies tun now ap'") (auto simp: qualifies_def)
    with True b ge show ?thesis by (auto simp: closestInPresence_def Let_def list_all_iff)
  qed
qed


text \<open>
  C5: closest access point wins. With the readings of a beacon free of NaN and a floor in
  the validated range, \<open>closestInPresence\<close> finds nobody exactly when every reading is
  below the presence floor; otherwise it returns an access point of the beacon, with
  its own effective RSSI, at or above the floor, and no other access point of the
  beacon has a larger one.
\<close>

theorem closest_is_maximal:
  assumes "rank_ok bs tun now"
  shows "case closestInPresence bs tun now of
     None \<Rightarrow> list_all (\<lambda>(k, ap). flt (effectiveRSSI ap now tun) (floor_dbm tun)) (perAP bs)
   | Some (cap, k, eff, diff) \<Rightarrow>
       (\<exists>ap. cap = Some ap \<and> (k, ap) \<in> set (perAP bs) \<and> eff = effectiveRSSI ap now tun
          \<and> fle (floor_dbm tun) eff
          \<and> list_all (\<lambda>(k', ap'). fle (effectiveRSSI ap' now tun) eff) (perAP bs))"
  using assms by (rule closest_max)

theorem closest_is_maximal_witness:
  "let bs = (newBeaconState zero_key ''fob'')\<lparr>perAP :=
        [(''ap1'', \<lparr>apName = ''ap1'', ewmaRSSI = Fin (- 70), lastRSSI = - 70, lastSightingTs = 9, lastSeenAt = 0\<rparr>),
         (''ap2'', \<lparr>apName = ''ap2'', ewmaRSSI = Fin (- 60), lastRSSI = - 60, lastSightingTs = 9, lastSeenAt = 0\<rparr>)]\<rparr>
   in rank_ok bs sample_defaults 9
      \<and> (\<exists>ap. closestInPresence bs sample_defaults 9 = Some (Some ap, ''ap2'', Fin (- 60), Fin 10))"
proof -
  let ?bs = "(newBeaconState zero_key ''fob'')\<lparr>perAP :=
        [(''ap1'', \<lparr>apName = ''ap1'', ewmaRSSI = Fin (- 70), lastRSSI = - 70, lastSightingTs = 9, lastSeenAt = 0\<rparr>),
         (''ap2'', \<lparr>apName = ''ap2'', ewmaRSSI = Fin (- 60), lastRSSI = - 60, lastSightingTs = 9, lastSeenAt = 0\<rparr>)]\<rparr>"
  have ok: "rank_ok ?bs sample_defaults 9"
    by (simp add: rank_ok_def bad_floor_def sample_defaults_def effectiveRSSI_def time_is_zero_def float_eval)
  have "\<exists>ap. closestInPresence ?bs sample_defaults 9 = Some (Some ap, ''ap2'', Fin (- 60), Fin 10)"
    by (simp add: closestInPresence_def consider_ap_def init_closest_def effectiveRSSI_def floor_dbm_def
          sample_defaults_def time_is_zero_def never_def float_eval Let_def)
  with ok closest_is_maximal [OF ok] show ?thesis by (simp add: Let_def)
qed

subsection \<open>The order of iteration does not matter\<close>

definition rank_step :: "Resolved \<Rightarrow> gtime \<Rightarrow> string \<times> apState \<Rightarrow> float64 \<times> float64 \<times> bool \<Rightarrow> float64 \<times> float64 \<times> bool" where
  "rank_step tun now kv s =
     (case s of (c, r, f) \<Rightarrow>
      let e = effectiveRSSI (snd kv) now tun in
      if flt e (floor_dbm tun) then (c, r, f)
      else if flt c e then (e, c, True)
      else if flt r e then (c, e, True)
      else (c, r, True))"

definition rank_view :: "closest_vars \<Rightarrow> float64 \<times> float64 \<times> bool" where
  "rank_view c = (closestEff c, runnerUpEff c, found c)"

lemma rank_view_step: "rank_view (consider_ap tun now kv c) = rank_step tun now kv (rank_view c)"
  by (cases kv) (auto simp: consider_ap_def rank_step_def rank_view_def Let_def)

lemma rank_view_fold:
  "rank_view (fold (consider_ap tun now) xs c) = fold (rank_step tun now) xs (rank_view c)"
  by (induction xs arbitrary: c) (simp_all add: rank_view_step)

lemma rank_step_commute:
  assumes "fle r c" "effectiveRSSI (snd x) now tun \<noteq> NaN" "effectiveRSSI (snd y) now tun \<noteq> NaN"
  shows "rank_step tun now x (rank_step tun now y (c, r, f)) = rank_step tun now y (rank_step tun now x (c, r, f))"
  using assms
  by (cases "effectiveRSSI (snd x) now tun"; cases "effectiveRSSI (snd y) now tun"; cases c; cases r)
     (auto simp: rank_step_def Let_def)

lemma rank_step_ordered:
  assumes "fle r c" "effectiveRSSI (snd x) now tun \<noteq> NaN" "rank_step tun now x (c, r, f) = (c', r', f')"
  shows "fle r' c'"
proof -
  have "c \<noteq> NaN" using assms(1) fle_not_NaN by blast
  then have "fle c (effectiveRSSI (snd x) now tun) \<or> fle (effectiveRSSI (snd x) now tun) c"
    "\<not> flt c (effectiveRSSI (snd x) now tun) \<Longrightarrow> fle (effectiveRSSI (snd x) now tun) c"
    using not_flt flt_imp_fle assms(2) by blast+
  then show ?thesis
    using assms(1,3) flt_imp_fle by (auto simp: rank_step_def Let_def split: if_splits)
qed

lemma rank_fold_perm:
  assumes "mset xs = mset ys" "\<And>x. x \<in> set xs \<Longrightarrow> effectiveRSSI (snd x) now tun \<noteq> NaN"
  shows "fold (rank_step tun now) xs (never, never, False) = fold (rank_step tun now) ys (never, never, False)"
proof (rule fold_permuted_eq [where P = "\<lambda>(c, r, f). fle r c"])
  show "mset xs = mset ys" by (rule assms(1))
  show "case (never, never, False) of (c, r, f) \<Rightarrow> fle r c" by (simp add: never_def)
  show "case rank_step tun now x z of (c, r, f) \<Rightarrow> fle r c"
    if "x \<in> set xs" "case z of (c, r, f) \<Rightarrow> fle r c" for x z
    using that rank_step_ordered assms(2) by (cases z) (fastforce split: prod.split)
  show "rank_step tun now x (rank_step tun now y z) = rank_step tun now y (rank_step tun now x z)"
    if "x \<in> set xs" "y \<in> set xs" "case z of (c, r, f) \<Rightarrow> fle r c" for x y z
    using that rank_step_commute assms(2) by (cases z) simp
qed

text \<open>
  The outcome of the ranking does not depend on the iteration order of the map, which Go
  randomises. For two states whose per-access-point maps hold the same entries in any
  order, the same decision in-presence or not is taken, with the same effective RSSI of
  the winner and the same gap to the runner-up.
\<close>

theorem closest_order_independent:
  assumes "rank_ok bs tun now" "mset (perAP bs') = mset (perAP bs)"
  shows "map_option (\<lambda>(cap, k, eff, diff). (eff, diff)) (closestInPresence bs' tun now)
       = map_option (\<lambda>(cap, k, eff, diff). (eff, diff)) (closestInPresence bs tun now)"
proof -
  have "\<And>x. x \<in> set (perAP bs) \<Longrightarrow> effectiveRSSI (snd x) now tun \<noteq> NaN"
    using assms(1) by (auto simp: rank_ok_def list_all_iff)
  then have "fold (rank_step tun now) (perAP bs) (never, never, False)
           = fold (rank_step tun now) (perAP bs') (never, never, False)"
    using assms(2) by (intro rank_fold_perm) simp_all
  then have "rank_view (fold (consider_ap tun now) (perAP bs') init_closest)
           = rank_view (fold (consider_ap tun now) (perAP bs) init_closest)"
    by (simp add: rank_view_fold) (simp add: rank_view_def init_closest_def)
  then show ?thesis
    by (auto simp: closestInPresence_def Let_def rank_view_def split: option.split)
qed

theorem closest_order_independent_witness:
  "let ap = \<lparr>apName = ''ap'', ewmaRSSI = Fin (- 70), lastRSSI = - 70, lastSightingTs = 9, lastSeenAt = 0\<rparr>;
       bs = (newBeaconState zero_key ''fob'')\<lparr>perAP := [(''x'', ap), (''y'', ap\<lparr>ewmaRSSI := Fin (- 64)\<rparr>)]\<rparr>;
       bs' = (newBeaconState zero_key ''fob'')\<lparr>perAP := [(''y'', ap\<lparr>ewmaRSSI := Fin (- 64)\<rparr>), (''x'', ap)]\<rparr>
   in map_option (\<lambda>(cap, k, eff, diff). (eff, diff)) (closestInPresence bs' sample_defaults 9)
      = map_option (\<lambda>(cap, k, eff, diff). (eff, diff)) (closestInPresence bs sample_defaults 9)"
  unfolding Let_def
  by (rule closest_order_independent)
     (simp_all add: rank_ok_def bad_floor_def sample_defaults_def effectiveRSSI_def time_is_zero_def float_eval)

end
