(* ===== verification/Presence_Engine.thy ===== *)
theory Presence_Engine
  imports Presence_Rank
begin

section \<open>The presence engine: invariants and guarantees\<close>

text \<open>
  The contract of an in-place update of one beacon is the locale \<open>beacon_update\<close>; it is
  interpreted on the two updates of the engine, the recomputation behind \<open>Submit\<close> and
  \<open>Tick\<close> and the relabelling behind \<open>ApplyTopology\<close>. Its lemmas lift the contract to the
  whole engine. The relation \<open>estep\<close> interleaves all operations, the clock, the receiver
  of the outgoing channel and Go's reordering of maps; the invariant and the two hard
  guarantees of the package comment are proved over it.
\<close>

subsection \<open>What the actions leave alone\<close>

definition same_core :: "Engine \<Rightarrow> Engine \<Rightarrow> bool" where
  "same_core e e' \<longleftrightarrow>
     e_top e' = e_top e \<and> e_tun e' = e_tun e \<and> clk e' = clk e \<and> out_cap e' = out_cap e
     \<and> e_beacons e' = e_beacons e \<and> e_resolved e' = e_resolved e"

lemma same_core_refl [simp]: "same_core e e"
  by (simp add: same_core_def)

lemma same_core_trans: "same_core e e' \<Longrightarrow> same_core e' e'' \<Longrightarrow> same_core e e''"
  by (simp add: same_core_def)

lemma same_core_logged [simp]: "same_core e (logged x e)"
  by (simp add: same_core_def logged_def)

lemma same_core_maybeLogDrop: "same_core e (maybeLogDrop ev e)"
  by (simp add: same_core_def maybeLogDrop_def logged_def Let_def)

lemma same_core_emit: "same_core e (emit ev e)"
  by (auto simp: same_core_def emit_def maybeLogDrop_def logged_def Let_def split: option.split)

lemma same_core_perform: "same_core e (perform a e)"
  by (cases a) (simp_all add: same_core_emit)

lemma same_core_performs: "same_core e (fold perform acts e)"
  by (induction acts arbitrary: e) (auto intro: same_core_trans same_core_perform)

lemma performs_sel [simp]:
  "e_top (fold perform acts e) = e_top e" "e_tun (fold perform acts e) = e_tun e"
  "clk (fold perform acts e) = clk e" "out_cap (fold perform acts e) = out_cap e"
  "e_beacons (fold perform acts e) = e_beacons e" "e_resolved (fold perform acts e) = e_resolved e"
  using same_core_performs [of e acts] by (simp_all add: same_core_def)

lemma put_beacon_sel [simp]:
  "e_top (put_beacon k bs e) = e_top e" "e_tun (put_beacon k bs e) = e_tun e"
  "clk (put_beacon k bs e) = clk e" "out_cap (put_beacon k bs e) = out_cap e"
  "e_resolved (put_beacon k bs e) = e_resolved e" "out_queue (put_beacon k bs e) = out_queue e"
  "e_beacons (put_beacon k bs e) = mput k bs (e_beacons e)" "trace (put_beacon k bs e) = trace e"
  by (simp_all add: put_beacon_def)

subsection \<open>Invariants\<close>

definition beacon_inv :: "beaconState \<Rightarrow> bool" where
  "beacon_inv bs \<longleftrightarrow>
     mwf (perAP bs) \<and> 0 \<le> candidateCount bs
     \<and> (currentZone bs = [] \<longrightarrow> currentAP bs = [] \<and> candidateAP bs = [] \<and> candidateCount bs = 0)"

definition queue_ok :: "Engine \<Rightarrow> bool" where
  "queue_ok e \<longleftrightarrow> (case out_cap e of None \<Rightarrow> out_queue e = [] | Some c \<Rightarrow> length (out_queue e) \<le> c)"

text \<open>
  The engine's invariant: every beacon is stored under its own key and satisfies
  \<open>beacon_inv\<close>, the cache holds exactly the resolved tunables of its name, the
  outgoing queue respects the channel's capacity, the empty string names no access
  point of the topology, and no nil access point has been dereferenced.
\<close>

definition engine_inv :: "Engine \<Rightarrow> bool" where
  "engine_inv e \<longleftrightarrow>
     mwf (e_beacons e) \<and> queue_ok e \<and> Zone (e_top e) [] = [] \<and> Panicked \<notin> set (trace e)
     \<and> (\<forall>k bs. mget (e_beacons e) k = Some bs \<longrightarrow>
          bs_id bs = k \<and> beacon_inv bs
          \<and> mget (e_resolved e) (bs_name bs) = Some (ResolveFor (e_tun e) (bs_name bs)))"

lemma queue_ok_emit: "queue_ok e \<Longrightarrow> queue_ok (emit ev e)"
  by (auto simp: queue_ok_def emit_def maybeLogDrop_def logged_def Let_def split: option.splits)

lemma queue_ok_logged [simp]: "queue_ok (logged x e) = queue_ok e"
  by (simp add: queue_ok_def logged_def split: option.split)

lemma queue_ok_put_beacon [simp]: "queue_ok (put_beacon k bs e) = queue_ok e"
  by (simp add: queue_ok_def split: option.split)

lemma queue_ok_perform: "queue_ok e \<Longrightarrow> queue_ok (perform a e)"
  by (cases a) (simp_all add: queue_ok_emit)

lemma queue_ok_performs: "queue_ok e \<Longrightarrow> queue_ok (fold perform acts e)"
  by (induction acts arbitrary: e) (simp_all add: queue_ok_perform)

lemma engine_invI:
  assumes "mwf (e_beacons e)" "queue_ok e" "Zone (e_top e) [] = []" "Panicked \<notin> set (trace e)"
    "\<And>k bs. mget (e_beacons e) k = Some bs \<Longrightarrow>
       bs_id bs = k \<and> beacon_inv bs \<and> mget (e_resolved e) (bs_name bs) = Some (ResolveFor (e_tun e) (bs_name bs))"
  shows "engine_inv e"
  using assms by (simp add: engine_inv_def)

lemma engine_invD:
  assumes "engine_inv e" "mget (e_beacons e) k = Some bs"
  shows "bs_id bs = k" "beacon_inv bs"
    "mget (e_resolved e) (bs_name bs) = Some (ResolveFor (e_tun e) (bs_name bs))"
  using assms by (auto simp: engine_inv_def)

lemma engine_inv_mwf: "engine_inv e \<Longrightarrow> mwf (e_beacons e)"
  by (simp add: engine_inv_def)

lemma engine_inv_queue: "engine_inv e \<Longrightarrow> queue_ok e"
  by (simp add: engine_inv_def)

lemma engine_inv_safe: "engine_inv e \<Longrightarrow> Zone (e_top e) [] = [] \<and> Panicked \<notin> set (trace e)"
  by (simp add: engine_inv_def)

lemma performs_safe:
  "NilDeref \<notin> set acts \<Longrightarrow> Panicked \<notin> set (trace e) \<Longrightarrow> Panicked \<notin> set (trace (fold perform acts e))"
proof (induction acts arbitrary: e)
  case (Cons a acts)
  then have "Panicked \<notin> set (trace (perform a e))"
    by (cases a) (auto simp: emit_def maybeLogDrop_def logged_def Let_def split: option.split)
  with Cons show ?case by simp
qed simp

lemma tun_of_cong: "e_resolved e = e_resolved e' \<Longrightarrow> bs_name bs = bs_name bs' \<Longrightarrow> tun_of e bs = tun_of e' bs'"
  by (simp add: tun_of_def)

lemma mput_keys_present: "mget m k = Some v \<Longrightarrow> map fst (mput k w m) = map fst m"
  by (induction m) (auto split: if_splits)

subsection \<open>The contract of an update of one beacon\<close>

locale beacon_update =
  fixes upd :: "Engine \<Rightarrow> beaconState \<Rightarrow> beaconState \<times> action list" and now :: gtime
  assumes upd_context:
      "e_top e = e_top e' \<Longrightarrow> e_resolved e = e_resolved e' \<Longrightarrow> upd e bs = upd e' bs"
    and upd_keeps: "bs_id (fst (upd e bs)) = bs_id bs" "bs_name (fst (upd e bs)) = bs_name bs"
      "perAP (fst (upd e bs)) = perAP bs"
    and upd_inv: "beacon_inv bs \<Longrightarrow> beacon_inv (fst (upd e bs))"
    and upd_holds: "currentZone bs \<noteq> [] \<Longrightarrow> in_sticky_window bs (tun_of e bs) now \<Longrightarrow>
      currentZone (fst (upd e bs)) \<noteq> [] \<and> lastArrivalTs (fst (upd e bs)) = lastArrivalTs bs"
    and upd_no_nil: "Zone (e_top e) [] = [] \<Longrightarrow> NilDeref \<notin> set (snd (upd e bs))"
begin

lemma apply_at_frame:
  "e_top (apply_at upd k e) = e_top e" "e_tun (apply_at upd k e) = e_tun e"
  "clk (apply_at upd k e) = clk e" "e_resolved (apply_at upd k e) = e_resolved e"
  "out_cap (apply_at upd k e) = out_cap e" "map fst (e_beacons (apply_at upd k e)) = map fst (e_beacons e)"
  by (auto simp: apply_at_def Let_def split_beta mput_keys_present split: option.split)

lemma apply_at_get:
  "mget (e_beacons (apply_at upd k e)) k' =
     (if k' = k then map_option (\<lambda>bs. fst (upd e bs)) (mget (e_beacons e) k) else mget (e_beacons e) k')"
  by (auto simp: apply_at_def Let_def split_beta mget_mput split: option.split)

lemma fold_apply_frame:
  "e_top (fold (apply_at upd) ks e) = e_top e" "e_tun (fold (apply_at upd) ks e) = e_tun e"
  "clk (fold (apply_at upd) ks e) = clk e" "e_resolved (fold (apply_at upd) ks e) = e_resolved e"
  "out_cap (fold (apply_at upd) ks e) = out_cap e"
  "map fst (e_beacons (fold (apply_at upd) ks e)) = map fst (e_beacons e)"
  by (induction ks arbitrary: e) (simp_all add: apply_at_frame)

text \<open>A pass over distinct keys updates each beacon once, independently of the others.\<close>

lemma fold_apply_get:
  "distinct ks \<Longrightarrow>
   mget (e_beacons (fold (apply_at upd) ks e)) k =
     (if k \<in> set ks then map_option (\<lambda>bs. fst (upd e bs)) (mget (e_beacons e) k)
      else mget (e_beacons e) k)"
proof (induction ks arbitrary: e)
  case (Cons k0 ks)
  have "upd (apply_at upd k0 e) bs = upd e bs" for bs
    by (rule upd_context) (simp_all add: apply_at_frame)
  with Cons show ?case by (auto simp: apply_at_get)
qed simp

lemma apply_at_inv: "engine_inv e \<Longrightarrow> engine_inv (apply_at upd k e)"
proof (rule engine_invI)
  assume inv: "engine_inv e"
  show "mwf (e_beacons (apply_at upd k e))"
    using engine_inv_mwf [OF inv] by (simp add: apply_at_frame)
  show "queue_ok (apply_at upd k e)"
    using engine_inv_queue [OF inv]
    by (auto simp: apply_at_def Let_def split_beta intro!: queue_ok_performs split: option.split)
  show "Zone (e_top (apply_at upd k e)) [] = []" "Panicked \<notin> set (trace (apply_at upd k e))"
    using engine_inv_safe [OF inv] upd_no_nil
    by (auto simp: apply_at_frame)
       (auto simp: apply_at_def Let_def split_beta performs_safe split: option.splits)
  show "bs_id bs = k' \<and> beacon_inv bs \<and> mget (e_resolved (apply_at upd k e)) (bs_name bs)
          = Some (ResolveFor (e_tun (apply_at upd k e)) (bs_name bs))"
    if "mget (e_beacons (apply_at upd k e)) k' = Some bs" for k' bs
    using that engine_invD [OF inv] upd_inv
    by (auto simp: apply_at_get apply_at_frame upd_keeps split: if_splits)
qed

lemma fold_apply_inv: "engine_inv e \<Longrightarrow> engine_inv (fold (apply_at upd) ks e)"
  by (induction ks arbitrary: e) (simp_all add: apply_at_inv)

end


subsection \<open>The two updates of the engine fulfil the contract\<close>

lemma set_zone_sel [simp]:
  "bs_id (set_zone z k bs) = bs_id bs" "bs_name (set_zone z k bs) = bs_name bs"
  "perAP (set_zone z k bs) = perAP bs" "currentZone (set_zone z k bs) = z"
  "currentAP (set_zone z k bs) = k" "lastArrivalTs (set_zone z k bs) = lastArrivalTs bs"
  "candidateAP (set_zone z k bs) = []" "candidateCount (set_zone z k bs) = 0"
  "lastBatteryMV (set_zone z k bs) = lastBatteryMV bs" "lastTemperatureC (set_zone z k bs) = lastTemperatureC bs"
  by (simp_all add: set_zone_def clear_candidate_def)

lemma clear_candidate_sel [simp]:
  "bs_id (clear_candidate bs) = bs_id bs" "bs_name (clear_candidate bs) = bs_name bs"
  "perAP (clear_candidate bs) = perAP bs" "currentZone (clear_candidate bs) = currentZone bs"
  "currentAP (clear_candidate bs) = currentAP bs" "lastArrivalTs (clear_candidate bs) = lastArrivalTs bs"
  "candidateAP (clear_candidate bs) = []" "candidateCount (clear_candidate bs) = 0"
  by (simp_all add: clear_candidate_def)

lemmas recompute_defs = recomputeOne_def case_away_def case_in_zone_def

lemma case_in_zone_keeps:
  "bs_id (fst (case_in_zone tun bs now fa z cl)) = bs_id bs"
  "bs_name (fst (case_in_zone tun bs now fa z cl)) = bs_name bs"
  "perAP (fst (case_in_zone tun bs now fa z cl)) = perAP bs"
  "lastArrivalTs (fst (case_in_zone tun bs now fa z cl)) = lastArrivalTs bs"
  by (auto simp: case_in_zone_def Let_def split: prod.split)

lemma case_in_zone_zone:
  "currentZone (fst (case_in_zone tun bs now fa z cl)) = currentZone bs
   \<or> currentZone (fst (case_in_zone tun bs now fa z cl)) = z"
  by (auto simp: case_in_zone_def Let_def split: prod.split)

lemma case_in_zone_inv:
  "beacon_inv bs \<Longrightarrow> currentZone bs \<noteq> [] \<Longrightarrow> z \<noteq> [] \<Longrightarrow> beacon_inv (fst (case_in_zone tun bs now fa z cl))"
  by (auto simp: case_in_zone_def Let_def beacon_inv_def split: prod.split)

lemma case_away_keeps:
  "bs_id (fst (case_away tun bs now)) = bs_id bs" "bs_name (fst (case_away tun bs now)) = bs_name bs"
  "perAP (fst (case_away tun bs now)) = perAP bs" "lastArrivalTs (fst (case_away tun bs now)) = lastArrivalTs bs"
  by (simp_all add: case_away_def)

lemma case_away_inv: "beacon_inv bs \<Longrightarrow> beacon_inv (fst (case_away tun bs now))"
  by (auto simp: case_away_def beacon_inv_def)

lemma recomputeOne_keeps:
  "bs_id (fst (recomputeOne tp tun bs now fa)) = bs_id bs"
  "bs_name (fst (recomputeOne tp tun bs now fa)) = bs_name bs"
  "perAP (fst (recomputeOne tp tun bs now fa)) = perAP bs"
  by (auto simp: recomputeOne_def Let_def case_away_keeps case_in_zone_keeps split: option.split)

lemma recomputeOne_inv: "beacon_inv bs \<Longrightarrow> beacon_inv (fst (recomputeOne tp tun bs now fa))"
  by (auto simp: recomputeOne_def Let_def case_away_inv case_in_zone_inv split: option.split)
     (simp_all add: beacon_inv_def)

text \<open>Inside the sticky window neither a departure nor a new arrival happens.\<close>

lemma case_away_holds:
  "currentZone bs \<noteq> [] \<Longrightarrow> in_sticky_window bs tun now \<Longrightarrow> case_away tun bs now = (bs, [])"
  by (simp add: case_away_def sticky_active_def force_away_def)

lemma recomputeOne_holds:
  assumes "currentZone bs \<noteq> []" "in_sticky_window bs tun now"
  shows "currentZone (fst (recomputeOne tp tun bs now fa)) \<noteq> []
       \<and> lastArrivalTs (fst (recomputeOne tp tun bs now fa)) = lastArrivalTs bs"
  using assms case_in_zone_zone [of tun bs now fa]
  by (auto simp: recomputeOne_def Let_def case_away_holds case_in_zone_keeps split: option.split) metis+

text \<open>The closest access point is nil only together with the empty key.\<close>

lemma closest_nil: "closestInPresence bs tun now = Some (None, k, eff, d) \<Longrightarrow> k = []"
  by (auto simp: closestInPresence_def Let_def split: if_splits option.splits)

lemma emit_built_nil:
  assumes "closestInPresence bs tun now = Some cl" "Zone tp [] = []" "Zone tp (fst (snd cl)) \<noteq> []"
  shows "emit_built bs' cl t st \<noteq> NilDeref"
proof -
  obtain cap k eff d where cl: "cl = (cap, k, eff, d)" by (cases cl)
  with assms closest_nil [of bs tun now k eff d] show ?thesis
    by (cases cap) (auto simp: emit_built_def)
qed

lemma case_in_zone_acts:
  "a \<in> set (snd (case_in_zone tun bs now fa z cl)) \<Longrightarrow> \<exists>bs' st. a = emit_built bs' cl now st"
  by (auto simp: case_in_zone_def Let_def split: prod.splits if_splits)

lemma recomputeOne_no_nil:
  assumes "Zone tp [] = []"
  shows "NilDeref \<notin> set (snd (recomputeOne tp tun bs now fa))"
proof (cases "closestInPresence bs tun now")
  case None
  then show ?thesis by (simp add: recomputeOne_def case_away_def)
next
  case (Some cl)
  have "NilDeref \<noteq> emit_built bs' cl t st" if "Zone tp (fst (snd cl)) \<noteq> []" for bs' t st
    using emit_built_nil [OF Some assms that, of bs' t st] by simp
  then show ?thesis
    by (auto simp: recomputeOne_def Some Let_def case_away_def dest!: case_in_zone_acts)
qed

lemma relabelOne_no_nil:
  assumes "Zone tp [] = []"
  shows "NilDeref \<notin> set (snd (relabelOne tp tun bs now))"
proof (cases "closestInPresence bs tun now")
  case (Some cl)
  have "NilDeref \<noteq> emit_built bs' cl t st" if "Zone tp (fst (snd cl)) \<noteq> []" for bs' t st
    using emit_built_nil [OF Some assms that, of bs' t st] by simp
  then show ?thesis by (simp add: relabelOne_def Some Let_def)
qed (simp add: relabelOne_def)

interpretation recompute: beacon_update "\<lambda>e bs. recomputeOne (e_top e) (tun_of e bs) bs now fa" now
  for now fa
  by unfold_locales
     (auto simp: recomputeOne_keeps recomputeOne_inv recomputeOne_no_nil dest: recomputeOne_holds,
      simp add: tun_of_def)

lemma relabelOne_keeps:
  "bs_id (fst (relabelOne tp tun bs now)) = bs_id bs" "bs_name (fst (relabelOne tp tun bs now)) = bs_name bs"
  "perAP (fst (relabelOne tp tun bs now)) = perAP bs"
  "lastArrivalTs (fst (relabelOne tp tun bs now)) = lastArrivalTs bs"
  by (auto simp: relabelOne_def Let_def split: option.split)

lemma relabelOne_inv: "beacon_inv bs \<Longrightarrow> beacon_inv (fst (relabelOne tp tun bs now))"
  by (auto simp: relabelOne_def Let_def beacon_inv_def split: option.split)

lemma relabelOne_zone: "currentZone (fst (relabelOne tp tun bs now)) = [] \<longleftrightarrow> currentZone bs = []"
  by (auto simp: relabelOne_def Let_def split: option.split)

interpretation relabel: beacon_update "\<lambda>e bs. relabelOne (e_top e) (tun_of e bs) bs now" now
  for now
  by unfold_locales
     (simp_all add: relabelOne_keeps relabelOne_inv relabelOne_zone relabelOne_no_nil tun_of_def)

end
