(* ===== verification/Presence_Run.thy ===== *)
theory Presence_Run
  imports Presence_Engine
begin

section \<open>The presence engine: executions\<close>

text \<open>
  Every public operation keeps the engine's invariant; the step relation \<open>estep\<close>
  interleaves them with the environment. Over it the theory proves the invariant of all
  reachable states and the sticky-arrival guarantee, and for single operations the
  immediate arrival, the confirm count of zone switches, the safety bound for
  departures, and what republishing, topology changes and restoring do.
\<close>

subsection \<open>The operations keep the invariant\<close>

lemma recompute_at_eq:
  "recompute_at now fa = apply_at (\<lambda>e bs. recomputeOne (e_top e) (tun_of e bs) bs now fa)"
  by (simp add: fun_eq_iff recompute_at_def)

lemma relabel_at_eq: "relabel_at now = apply_at (\<lambda>e bs. relabelOne (e_top e) (tun_of e bs) bs now)"
  by (simp add: fun_eq_iff relabel_at_def)

lemma put_beacon_inv:
  assumes "engine_inv e" "mget (e_beacons e) k = Some bs" "beacon_inv bs'" "bs_id bs' = bs_id bs"
    "bs_name bs' = bs_name bs"
  shows "engine_inv (put_beacon k bs' e)"
  using assms(1,3-5) engine_invD [OF assms(1,2)] by (auto simp: engine_inv_def mget_mput)

lemma note_sighting_keeps [simp]:
  "bs_id (note_sighting tun s now bs) = bs_id bs" "bs_name (note_sighting tun s now bs) = bs_name bs"
  "currentZone (note_sighting tun s now bs) = currentZone bs"
  "currentAP (note_sighting tun s now bs) = currentAP bs"
  "lastArrivalTs (note_sighting tun s now bs) = lastArrivalTs bs"
  "candidateAP (note_sighting tun s now bs) = candidateAP bs"
  "candidateCount (note_sighting tun s now bs) = candidateCount bs"
  by (simp_all add: note_sighting_def Let_def)

lemma note_sighting_inv: "beacon_inv bs \<Longrightarrow> beacon_inv (note_sighting tun s now bs)"
  by (simp add: beacon_inv_def) (simp add: note_sighting_def Let_def)

lemma logged_inv: "x \<noteq> Panicked \<Longrightarrow> engine_inv e \<Longrightarrow> engine_inv (logged x e)"
  by (auto simp: engine_inv_def logged_def queue_ok_def split: option.splits)

lemma Submit_inv: "engine_inv e \<Longrightarrow> engine_inv (Submit s e)"
  by (auto simp: Submit_def handleSighting_def recompute_at_eq logged_inv
        intro!: recompute.apply_at_inv put_beacon_inv note_sighting_inv dest: engine_invD split: option.split)

lemma Tick_inv: "engine_inv e \<Longrightarrow> engine_inv (Tick e)"
  by (simp add: Tick_def recomputeAll_def recompute_at_eq recompute.fold_apply_inv)

lemma fold_resolve_get:
  "mget (fold (\<lambda>(k, bs) m. mput (bs_name bs) (ResolveFor tun (bs_name bs)) m) xs m0) n =
     (if n \<in> (bs_name \<circ> snd) ` set xs then Some (ResolveFor tun n) else mget m0 n)"
  by (induction xs arbitrary: m0) (auto simp: mget_mput split: prod.splits)

lemma ApplyTunables_inv: "engine_inv e \<Longrightarrow> engine_inv (ApplyTunables tn e)"
  by (auto simp: ApplyTunables_def engine_inv_def queue_ok_def fold_resolve_get image_iff
        dest!: mget_Some_in split: option.splits)

lemma emit_inv: "engine_inv e \<Longrightarrow> engine_inv (emit ev e)"
  using same_core_emit [of e ev] queue_ok_emit [of e ev] performs_safe [of "[Emit ev]" e]
  by (simp add: engine_inv_def same_core_def)

lemma fold_emit_inv: "engine_inv e \<Longrightarrow> engine_inv (fold (\<lambda>x e. emit (f x) e) xs e)"
  by (induction xs arbitrary: e) (simp_all add: emit_inv)

lemma RepublishAll_fold: "RepublishAll e = fold (\<lambda>x e'. emit (republish_event (tun_of e (snd x)) (snd x) (clk e)) e') (e_beacons e) e"
  unfolding RepublishAll_def by (rule fold_cong) (auto simp: split_beta)

lemma RepublishAll_inv: "engine_inv e \<Longrightarrow> engine_inv (RepublishAll e)"
  by (simp add: RepublishAll_fold fold_emit_inv)

lemma restore_one_inv: "engine_inv (fst en) \<Longrightarrow> engine_inv (fst (restore_one now sn en))"
proof -
  obtain e n where en: "en = (e, n)" by (cases en)
  assume inv: "engine_inv (fst en)"
  have "engine_inv (put_beacon k (bs\<lparr>currentZone := z, currentAP := a, lastArrivalTs := now\<rparr>) e)"
    if "mget (e_beacons e) k = Some bs" "z \<noteq> []" for k bs z a
    using inv that engine_invD(2) [of e k bs] by (intro put_beacon_inv) (auto simp: en beacon_inv_def)
  with inv show ?thesis by (auto simp: en restore_one_def split: option.split)
qed

lemma RestoreState_inv: "engine_inv e \<Longrightarrow> engine_inv (fst (RestoreState sns e))"
proof -
  have "engine_inv (fst en) \<Longrightarrow> engine_inv (fst (fold (restore_one now) sns en))" for now en
    by (induction sns arbitrary: en) (simp_all add: restore_one_inv)
  from this [of "(e, 0)"] show "engine_inv e \<Longrightarrow> engine_inv (fst (RestoreState sns e))"
    by (simp add: RestoreState_def)
qed

subsection \<open>Changing the topology\<close>

lemma encode_rune_nonempty [simp]: "encode_rune r \<noteq> []"
  by (simp add: encode_rune_def)

lemma runes_nonempty: "s \<noteq> [] \<Longrightarrow> runes s \<noteq> []"
  by (cases s) (simp_all add: runes_def Let_def split_beta)

lemma ToLower_eq_Nil [simp]: "ToLower s = [] \<longleftrightarrow> s = []"
proof (cases "s = []")
  case False
  then show ?thesis using runes_nonempty [of s] by (cases "runes s") (auto simp: ToLower_def)
qed simp

lemma NormalizeMAC_nonempty: "ParseMAC m \<noteq> None \<Longrightarrow> NormalizeMAC m \<noteq> []"
proof -
  assume ok: "ParseMAC m \<noteq> None"
  then have "m \<noteq> []" by (auto simp: ParseMAC_def)
  moreover have "mac_string hw \<noteq> []" if "length hw = 6" for hw
    using that by (simp add: mac_string_join mac_join_nonempty)
  ultimately show ?thesis using ok by (auto simp: NormalizeMAC_def split: option.split)
qed

lemma add_zones_no_empty: "add_zones zs out = Inr res \<Longrightarrow> mget out [] = None \<Longrightarrow> mget res [] = None"
proof (induction zs out rule: add_zones.induct)
  case (2 m lbl rest out)
  then have "ParseMAC m \<noteq> None" "\<not> blank lbl" "add_zones rest (mput (NormalizeMAC m) lbl out) = Inr res"
    by (auto split: if_splits)
  with "2.IH" "2.prems"(2) NormalizeMAC_nonempty [of m] show ?case by (auto simp: mget_mput)
qed simp

lemma topology_empty_key: "NewTopology zs bs = Inr t \<Longrightarrow> Zone (Some t) [] = []"
proof -
  have "NormalizeMAC [] = []" by (simp add: NormalizeMAC_def ParseMAC_def)
  moreover assume "NewTopology zs bs = Inr t"
  ultimately show ?thesis
    using add_zones_no_empty [of zs "[]"] by (auto simp: NewTopology_def Zone_get split: sum.splits)
qed

definition tracked_state :: "TrackedBeacon \<Rightarrow> beaconState option \<Rightarrow> beaconState" where
  "tracked_state b old =
     (case old of None \<Rightarrow> newBeaconState (tb_key b) (tb_name b) | Some bs \<Rightarrow> bs\<lparr>bs_name := tb_name b\<rparr>)"

lemma track_sel [simp]:
  "e_top (track b e) = e_top e" "e_tun (track b e) = e_tun e" "clk (track b e) = clk e"
  "out_cap (track b e) = out_cap e" "out_queue (track b e) = out_queue e" "trace (track b e) = trace e"
  "e_beacons (track b e) = mput (tb_key b) (tracked_state b (mget (e_beacons e) (tb_key b))) (e_beacons e)"
  "e_resolved (track b e) = mput (tb_name b) (ResolveFor (e_tun e) (tb_name b)) (e_resolved e)"
  by (simp_all add: track_def Let_def tracked_state_def)

lemma fold_track_sel [simp]:
  "e_top (fold track bs e) = e_top e" "e_tun (fold track bs e) = e_tun e" "clk (fold track bs e) = clk e"
  "out_cap (fold track bs e) = out_cap e" "out_queue (fold track bs e) = out_queue e"
  "trace (fold track bs e) = trace e"
  by (induction bs arbitrary: e) simp_all

lemma fold_track_mwf: "mwf (e_beacons e) \<Longrightarrow> mwf (e_beacons (fold track bs e))"
  by (induction bs arbitrary: e) simp_all

lemma fold_track_get:
  "distinct (map tb_key bs) \<Longrightarrow>
   mget (e_beacons (fold track bs e)) k =
     (case find (\<lambda>b. tb_key b = k) bs of
        None \<Rightarrow> mget (e_beacons e) k
      | Some b \<Rightarrow> Some (tracked_state b (mget (e_beacons e) k)))"
proof (induction bs arbitrary: e)
  case (Cons b bs)
  have "find (\<lambda>b. tb_key b = k) bs = None" if "tb_key b = k"
    using that Cons.prems by (auto simp: find_None_iff image_iff)
  with Cons show ?case by (auto simp: mget_mput split: option.split)
qed simp

lemma fold_track_resolved:
  "mget (e_resolved (fold track bs e)) n =
     (if n \<in> tb_name ` set bs then Some (ResolveFor (e_tun e) n) else mget (e_resolved e) n)"
  by (induction bs arbitrary: e) (auto simp: mget_mput)

lemma mget_filter_key: "mget (filter (\<lambda>(k, v). P k) m) k = (if P k then mget m k else None)"
  by (induction m) auto

lemma mwf_filter: "mwf m \<Longrightarrow> mwf (filter P m)"
  by (simp add: distinct_map_filter)

text \<open>The engine before the synthetic emits: exactly the tracked beacons, with their new names.\<close>

definition retracked :: "Topology \<Rightarrow> Engine \<Rightarrow> Engine" where
  "retracked t e = prune (beacons t) (fold track (beacons t) (e\<lparr>e_top := Some t\<rparr>))"

lemma ApplyTopology_eq:
  "ApplyTopology (Some t) e =
     fold (apply_at (\<lambda>e bs. relabelOne (e_top e) (tun_of e bs) bs (clk (retracked t e0))))
       (mkeys (e_beacons (retracked t e))) (retracked t e)" if "e0 = e"
  using that by (simp add: ApplyTopology_def Let_def Beacons_def retracked_def relabel_at_eq)

lemma retracked_get:
  assumes "distinct (map tb_key (beacons t))"
  shows "mget (e_beacons (retracked t e)) k =
    map_option (\<lambda>b. tracked_state b (mget (e_beacons e) k)) (find (\<lambda>b. tb_key b = k) (beacons t))"
proof -
  have "k \<in> tb_key ` set (beacons t) \<longleftrightarrow> find (\<lambda>b. tb_key b = k) (beacons t) \<noteq> None"
    by (auto simp: find_None_iff)
  then show ?thesis
    using fold_track_get [OF assms, of "e\<lparr>e_top := Some t\<rparr>" k]
    by (auto simp: retracked_def prune_def mget_filter_key split: option.split)
qed

lemma retracked_sel [simp]:
  "e_top (retracked t e) = Some t" "e_tun (retracked t e) = e_tun e" "clk (retracked t e) = clk e"
  "out_cap (retracked t e) = out_cap e" "out_queue (retracked t e) = out_queue e"
  "trace (retracked t e) = trace e"
  by (simp_all add: retracked_def prune_def)

lemma tracked_state_inv:
  "(\<And>bs. old = Some bs \<Longrightarrow> beacon_inv bs \<and> bs_id bs = tb_key b) \<Longrightarrow>
   beacon_inv (tracked_state b old) \<and> bs_id (tracked_state b old) = tb_key b
   \<and> bs_name (tracked_state b old) = tb_name b"
  by (auto simp: tracked_state_def beacon_inv_def newBeaconState_def split: option.split)

lemma retracked_inv:
  assumes "engine_inv e" "NewTopology zs bs = Inr t"
  shows "engine_inv (retracked t e)"
proof (rule engine_invI)
  have t: "beacons t = bs" "distinct (map tb_key (beacons t))" "Zone (Some t) [] = []"
    using add_beacons_ok [of 0 "[]" "[]" bs "[]"] topology_empty_key assms(2)
    by (auto simp: NewTopology_def split: sum.splits)
  show "mwf (e_beacons (retracked t e))"
    using engine_inv_mwf [OF assms(1)] by (simp add: retracked_def prune_def mwf_filter fold_track_mwf)
  show "queue_ok (retracked t e)"
    using engine_inv_queue [OF assms(1)] by (simp add: queue_ok_def split: option.splits)
  show "Zone (e_top (retracked t e)) [] = []" "Panicked \<notin> set (trace (retracked t e))"
    using engine_inv_safe [OF assms(1)] by (simp_all add: t)
  show "bs_id b = k \<and> beacon_inv b \<and> mget (e_resolved (retracked t e)) (bs_name b)
          = Some (ResolveFor (e_tun (retracked t e)) (bs_name b))"
    if "mget (e_beacons (retracked t e)) k = Some b" for k b
  proof -
    from that obtain tb where tb: "find (\<lambda>b. tb_key b = k) (beacons t) = Some tb"
      and b: "b = tracked_state tb (mget (e_beacons e) k)"
      by (auto simp: retracked_get [OF t(2)])
    then have key: "tb_key tb = k" "tb \<in> set (beacons t)" by (auto simp: find_Some_iff)
    with tracked_state_inv [of "mget (e_beacons e) k" tb] engine_invD(1,2) [OF assms(1)] b
    have "bs_id b = k" "beacon_inv b" "bs_name b = tb_name tb" by auto
    moreover have "mget (e_resolved (retracked t e)) (tb_name tb) = Some (ResolveFor (e_tun e) (tb_name tb))"
      using key(2) by (simp add: retracked_def prune_def mget_filter_key fold_track_resolved)
    ultimately show ?thesis by simp
  qed
qed

lemma ApplyTopology_inv:
  "engine_inv e \<Longrightarrow> NewTopology zs bs = Inr t \<Longrightarrow> engine_inv (ApplyTopology (Some t) e)"
  unfolding ApplyTopology_eq [OF refl] by (intro relabel.fold_apply_inv retracked_inv)


subsection \<open>Starting the engine\<close>

definition blank_engine :: "Topology option \<Rightarrow> Tunables \<Rightarrow> gtime \<Rightarrow> nat option \<Rightarrow> Engine" where
  "blank_engine tp tun now cap =
     \<lparr>e_top = tp, e_tun = tun, clk = now, out_cap = cap, out_queue = [], e_beacons = [],
      e_resolved = [], dropLogLast = 0, trace = []\<rparr>"

lemma register_track:
  "mget (e_beacons e) (tb_key b) = None \<Longrightarrow> e_tun e = tun \<Longrightarrow> register tun b e = track b e"
  by (simp add: register_def track_def Let_def)

lemma fold_register_track:
  "distinct (map tb_key bs) \<Longrightarrow> (\<And>b. b \<in> set bs \<Longrightarrow> mget (e_beacons e) (tb_key b) = None) \<Longrightarrow>
   e_tun e = tun \<Longrightarrow> fold (register tun) bs e = fold track bs e"
proof (induction bs arbitrary: e)
  case (Cons b bs)
  have "mget (e_beacons (track b e)) (tb_key b') = None" if "b' \<in> set bs" for b'
    using that Cons.prems(1,2) by (auto simp: mget_mput image_iff)
  with Cons show ?case by (simp add: register_track)
qed simp

lemma NewEngine_track:
  assumes "distinct (map tb_key (beacons t))"
  shows "NewEngine (Some t) tun now cap = fold track (beacons t) (blank_engine (Some t) tun now cap)"
  using fold_register_track [OF assms, of "blank_engine (Some t) tun now cap" tun]
  by (simp add: NewEngine_def Beacons_def blank_engine_def)

lemma NewEngine_inv:
  assumes "NewTopology zs bs = Inr t"
  shows "engine_inv (NewEngine (Some t) tun now cap)"
proof -
  let ?e0 = "blank_engine (Some t) tun now cap"
  have d: "distinct (map tb_key (beacons t))"
    using add_beacons_ok [of 0 "[]" "[]" bs "[]"] assms by (auto simp: NewTopology_def split: sum.splits)
  show ?thesis unfolding NewEngine_track [OF d]
  proof (rule engine_invI)
    show "mwf (e_beacons (fold track (beacons t) ?e0))"
      by (rule fold_track_mwf) (simp add: blank_engine_def)
    show "queue_ok (fold track (beacons t) ?e0)"
      by (simp add: queue_ok_def blank_engine_def split: option.split)
    show "Zone (e_top (fold track (beacons t) ?e0)) [] = []"
      using topology_empty_key [OF assms] by (simp add: blank_engine_def)
    show "Panicked \<notin> set (trace (fold track (beacons t) ?e0))" by (simp add: blank_engine_def)
    show "bs_id b = k \<and> beacon_inv b \<and> mget (e_resolved (fold track (beacons t) ?e0)) (bs_name b)
            = Some (ResolveFor (e_tun (fold track (beacons t) ?e0)) (bs_name b))"
      if "mget (e_beacons (fold track (beacons t) ?e0)) k = Some b" for k b
    proof -
      from that obtain tb where "find (\<lambda>b. tb_key b = k) (beacons t) = Some tb"
        and b: "b = tracked_state tb None"
        by (auto simp: fold_track_get [OF d] blank_engine_def split: option.splits)
      then have "tb_key tb = k" "tb \<in> set (beacons t)" by (auto simp: find_Some_iff)
      with tracked_state_inv [of None tb] show ?thesis by (simp add: b fold_track_resolved)
    qed
  qed
qed

subsection \<open>Executions\<close>

text \<open>
  One step of the running system: an operation of the engine, the clock moving forward,
  the consumer receiving from the channel, or the runtime choosing another iteration
  order for a map. Topologies come from \<open>NewTopology\<close>.
\<close>

inductive estep :: "Engine \<Rightarrow> Engine \<Rightarrow> bool" where
  submit: "estep e (Submit s e)"
| tick: "estep e (Tick e)"
| tunables: "estep e (ApplyTunables tn e)"
| topology: "NewTopology zs bs = Inr t \<Longrightarrow> estep e (ApplyTopology (Some t) e)"
| republish: "estep e (RepublishAll e)"
| restore: "estep e (fst (RestoreState sns e))"
| advance: "clk e \<le> t \<Longrightarrow> estep e (e\<lparr>clk := t\<rparr>)"
| receive: "out_queue e = ev # q \<Longrightarrow> estep e (e\<lparr>out_queue := q\<rparr>)"
| reorder: "mset m = mset (e_beacons e) \<Longrightarrow> estep e (e\<lparr>e_beacons := m\<rparr>)"
| reorder_aps: "mget (e_beacons e) k = Some b \<Longrightarrow> mset m = mset (perAP b) \<Longrightarrow>
    estep e (put_beacon k (b\<lparr>perAP := m\<rparr>) e)"

inductive_cases estepE: "estep e e'"

inductive reachable :: "Engine \<Rightarrow> bool" where
  start: "NewTopology zs bs = Inr t \<Longrightarrow> reachable (NewEngine (Some t) tun now cap)"
| step: "reachable e \<Longrightarrow> estep e e' \<Longrightarrow> reachable e'"

lemma mwf_perm: "mset m' = mset m \<Longrightarrow> mwf m \<Longrightarrow> mwf m'"
  by (metis mset_eq_imp_distinct_iff mset_map)

lemma estep_inv: "estep e e' \<Longrightarrow> engine_inv e \<Longrightarrow> engine_inv e'"
proof (induction rule: estep.induct)
  case (receive e ev q)
  then show ?case by (auto simp: engine_inv_def queue_ok_def split: option.splits)
next
  case (reorder m e)
  then have "mget m k = mget (e_beacons e) k" for k
    using mget_perm [OF engine_inv_mwf] by blast
  with reorder mwf_perm [OF reorder(1)] show ?case
    by (auto simp: engine_inv_def queue_ok_def split: option.splits)
next
  case (reorder_aps e k b m)
  then show ?case
    using engine_invD(2) [OF reorder_aps(3,1)] mwf_perm [OF reorder_aps(2)]
    by (intro put_beacon_inv [OF reorder_aps(3,1)]) (auto simp: beacon_inv_def)
next
  case (advance e t)
  then show ?case by (auto simp: engine_inv_def queue_ok_def split: option.splits)
qed (simp_all add: Submit_inv Tick_inv ApplyTunables_inv ApplyTopology_inv RepublishAll_inv RestoreState_inv)

lemma reachable_inv: "reachable e \<Longrightarrow> engine_inv e"
  by (induction rule: reachable.induct) (auto intro: NewEngine_inv estep_inv)

text \<open>
  C8: in every state that the engine can reach, under any interleaving of sightings, ticks,
  tunables and topology changes, republishing, restoring and channel reads, every
  beacon is stored once and under its own key, a beacon that is away has no current or
  candidate access point, the cached tunables are the ones resolved from the current
  document, the outgoing queue is within the capacity of the channel, and no nil access
  point was ever dereferenced.
\<close>

theorem engine_reachable_invariant:
  assumes "reachable e"
  shows "mwf (e_beacons e) \<and> queue_ok e \<and> Panicked \<notin> set (trace e)
       \<and> (\<forall>k bs. mget (e_beacons e) k = Some bs \<longrightarrow>
            bs_id bs = k \<and> mwf (perAP bs) \<and> tun_of e bs = ResolveFor (e_tun e) (bs_name bs)
            \<and> (currentZone bs = [] \<longrightarrow> currentAP bs = [] \<and> candidateAP bs = [] \<and> candidateCount bs = 0))"
  using reachable_inv [OF assms]
  by (auto simp: engine_inv_def beacon_inv_def tun_of_def mget_zero_def)

text \<open>A concrete engine: one beacon, one access point with a zone, a channel of capacity two.\<close>

definition sample_beacon :: BeaconKey where
  "sample_beacon = mk_key KindName ''Fob''"

definition sample_top :: Topology where
  "sample_top = \<lparr>zones = [(''aa:bb:cc:dd:ee:ff'', ''kitchen'')],
                 beacons = [\<lparr>tb_key = sample_beacon, tb_name = ''fob''\<rparr>]\<rparr>"

definition sample_tun :: Tunables where
  "sample_tun = \<lparr>Defaults = sample_defaults, Tun_Beacons = []\<rparr>"

definition sample_engine :: Engine where
  "sample_engine = NewEngine (Some sample_top) sample_tun (100 * second) (Some 2)"

definition sample_sighting :: Sighting where
  "sample_sighting =
     \<lparr>s_Beacon = sample_beacon, s_BeaconName = ''fob'', s_APMac = ''aa:bb:cc:dd:ee:ff'', s_APName = ''ap'',
      s_RSSI = - 60, s_At = 0, s_BatteryMV = None, s_TemperatureC = None\<rparr>"

lemma sample_top_ok:
  "NewTopology [(''aa:bb:cc:dd:ee:ff'', ''kitchen'')] [\<lparr>tb_key = sample_beacon, tb_name = ''fob''\<rparr>] = Inr sample_top"
proof -
  have "\<not> blank ''fob''" by (rule not_blank_plain) (simp_all add: plain_eval)
  then show ?thesis
    by (subst sample_topology)
       (simp_all add: sample_mac_forms sample_top_def sample_beacon_def key_IsZero_def kind_defs)
qed

lemma sample_engine_reachable: "reachable sample_engine"
  unfolding sample_engine_def by (rule reachable.start [OF sample_top_ok])

theorem engine_reachable_invariant_witness:
  "queue_ok (Tick (Submit sample_sighting sample_engine))
   \<and> Panicked \<notin> set (trace (Tick (Submit sample_sighting sample_engine)))"
proof -
  have "reachable (Tick (Submit sample_sighting sample_engine))"
    by (intro reachable.step [OF _ estep.tick] reachable.step [OF _ estep.submit] sample_engine_reachable)
  from engine_reachable_invariant [OF this] show ?thesis by blast
qed


subsection \<open>The sticky-arrival window\<close>

text \<open>Beacon \<open>k\<close> publishes a zone and its last arrival was not before \<open>T\<close>.\<close>

definition holding :: "BeaconKey \<Rightarrow> gtime \<Rightarrow> Engine \<Rightarrow> bool" where
  "holding k T e \<longleftrightarrow>
     T \<le> clk e
     \<and> (\<exists>bs. mget (e_beacons e) k = Some bs \<and> currentZone bs \<noteq> [] \<and> T \<le> lastArrivalTs bs)"

text \<open>
  The clock is less than \<open>W\<close> seconds after \<open>T\<close>, and \<open>k\<close> is tracked with a sticky window of at
  least \<open>W\<close> seconds (and at most what a duration can hold).
\<close>

definition within_window :: "BeaconKey \<Rightarrow> gtime \<Rightarrow> int \<Rightarrow> Engine \<Rightarrow> bool" where
  "within_window k T W e \<longleftrightarrow>
     clk e < T + W * second
     \<and> (\<exists>bs. mget (e_beacons e) k = Some bs
          \<and> W \<le> StickyAfterArrivalS (tun_of e bs) \<and> StickyAfterArrivalS (tun_of e bs) \<le> max_dur_s)"

lemma window_sticky:
  assumes "within_window k T W e" "mget (e_beacons e) k = Some bs" "T \<le> lastArrivalTs bs" "0 \<le> W"
  shows "in_sticky_window bs (tun_of e bs) (clk e)"
proof -
  let ?s = "StickyAfterArrivalS (tun_of e bs)"
  have w: "clk e < T + W * second" "W \<le> ?s" "?s \<le> max_dur_s"
    using assms(1,2) by (auto simp: within_window_def)
  have "W * second \<le> ?s * second" using w(2) by (simp add: second_def)
  moreover have "seconds_dur ?s = ?s * second" using w assms(4) by (intro seconds_dur_id) auto
  moreover have "0 \<le> ?s * second" using w assms(4) by (simp add: second_def)
  ultimately show ?thesis
    using w(1) assms(3) by (auto simp: in_sticky_window_def time_sub_def)
qed

lemma recompute_hold:
  assumes "mget (e_beacons e) k = Some bs" "currentZone bs \<noteq> []" "T \<le> lastArrivalTs bs"
    "in_sticky_window bs (tun_of e bs) now" "mget (e_beacons e') k =
      Some (fst (recomputeOne (e_top e) (tun_of e bs) bs now fa))" "clk e' = clk e" "T \<le> clk e"
  shows "holding k T e'"
  using assms recomputeOne_holds [OF assms(2,4), of "e_top e" fa] by (auto simp: holding_def)

lemma hold_Submit:
  assumes "holding k T e" "within_window k T W e" "0 \<le> W"
  shows "holding k T (Submit s e)"
proof -
  obtain bs where bs: "mget (e_beacons e) k = Some bs" "currentZone bs \<noteq> []" "T \<le> lastArrivalTs bs" "T \<le> clk e"
    using assms(1) by (auto simp: holding_def)
  show ?thesis
  proof (cases "mget (e_beacons e) (s_Beacon s)")
    case None
    with assms(1) show ?thesis by (simp add: Submit_def handleSighting_def holding_def logged_def)
  next
    case (Some b)
    let ?b = "note_sighting (tun_of e b) s (clk e) b"
    let ?e = "put_beacon (s_Beacon s) ?b e"
    have eq: "Submit s e = recompute_at (clk e) (ToLower (s_APMac s)) (s_Beacon s) ?e"
      by (simp add: Submit_def handleSighting_def Some)
    have clk: "clk (Submit s e) = clk ?e"
      unfolding eq recompute_at_eq by (simp add: recompute.apply_at_frame)
    show ?thesis
    proof (cases "k = s_Beacon s")
      case True
      with Some bs have "b = bs" by simp
      have tun: "tun_of ?e ?b = tun_of e bs" using \<open>b = bs\<close> by (intro tun_of_cong) simp_all
      have "in_sticky_window ?b (tun_of ?e ?b) (clk e)"
        using window_sticky [OF assms(2) bs(1,3) assms(3)] \<open>b = bs\<close> tun
        by (simp add: in_sticky_window_def)
      moreover have "mget (e_beacons (Submit s e)) k =
          Some (fst (recomputeOne (e_top ?e) (tun_of ?e ?b) ?b (clk e) (ToLower (s_APMac s))))"
        unfolding eq recompute_at_eq by (simp add: recompute.apply_at_get mget_mput True)
      ultimately show ?thesis
        using bs \<open>b = bs\<close> clk
        by (intro recompute_hold [where e = ?e and bs = ?b]) (simp_all add: mget_mput True)
    next
      case False
      then have "mget (e_beacons (Submit s e)) k = Some bs"
        unfolding eq recompute_at_eq by (simp add: recompute.apply_at_get mget_mput bs)
      with bs clk show ?thesis by (simp add: holding_def)
    qed
  qed
qed

lemma hold_Tick:
  assumes "holding k T e" "within_window k T W e" "0 \<le> W" "mwf (e_beacons e)"
  shows "holding k T (Tick e)"
proof -
  obtain bs where bs: "mget (e_beacons e) k = Some bs" "currentZone bs \<noteq> []" "T \<le> lastArrivalTs bs" "T \<le> clk e"
    using assms(1) by (auto simp: holding_def)
  have "k \<in> set (mkeys (e_beacons e))" using mget_Some_in [OF bs(1)] by (force simp: mkeys_def)
  moreover have "distinct (mkeys (e_beacons e))" using assms(4) by (simp add: mkeys_def)
  ultimately have "mget (e_beacons (Tick e)) k =
      Some (fst (recomputeOne (e_top e) (tun_of e bs) bs (clk e) []))"
    by (simp add: Tick_def recomputeAll_def recompute_at_eq recompute.fold_apply_get bs)
  moreover have "clk (Tick e) = clk e"
    by (simp add: Tick_def recomputeAll_def recompute_at_eq recompute.fold_apply_frame)
  ultimately show ?thesis
    using window_sticky [OF assms(2) bs(1,3) assms(3)] bs by (intro recompute_hold) auto
qed

lemma retracked_distinct: "NewTopology zs bs = Inr t \<Longrightarrow> distinct (map tb_key (beacons t))"
  using add_beacons_ok [of 0 "[]" "[]" bs "[]"] by (auto simp: NewTopology_def split: sum.splits)

lemma ApplyTopology_get:
  assumes "NewTopology zs bs = Inr t" "mwf (e_beacons e)"
  shows "mget (e_beacons (ApplyTopology (Some t) e)) k =
    map_option (\<lambda>b. fst (relabelOne (Some t) (tun_of (retracked t e) b) b (clk e)))
      (mget (e_beacons (retracked t e)) k)"
proof -
  have d: "distinct (mkeys (e_beacons (retracked t e)))"
    using assms(2) by (simp add: mkeys_def retracked_def prune_def mwf_filter fold_track_mwf)
  have "mget (e_beacons (retracked t e)) k = None" if "k \<notin> set (mkeys (e_beacons (retracked t e)))"
    using that by (simp add: mkeys_def map_of_eq_None_iff)
  then show ?thesis
    unfolding ApplyTopology_eq [OF refl] using d by (simp add: relabel.fold_apply_get)
qed

lemma hold_ApplyTopology:
  assumes "holding k T e" "NewTopology zs bs = Inr t" "mwf (e_beacons e)"
    "mget (e_beacons (ApplyTopology (Some t) e)) k \<noteq> None"
  shows "holding k T (ApplyTopology (Some t) e)"
proof -
  obtain b where b: "mget (e_beacons e) k = Some b" "currentZone b \<noteq> []" "T \<le> lastArrivalTs b" "T \<le> clk e"
    using assms(1) by (auto simp: holding_def)
  have clk: "clk (ApplyTopology (Some t) e) = clk e"
    unfolding ApplyTopology_eq [OF refl] by (simp add: relabel.fold_apply_frame)
  have keep: "relabelOne tp tun (tracked_state tb (Some b)) now = r \<Longrightarrow>
      currentZone (fst r) \<noteq> [] \<and> lastArrivalTs (fst r) = lastArrivalTs b" for tp tun tb now r
    using b(2) relabelOne_zone [of tp tun "tracked_state tb (Some b)" now]
      relabelOne_keeps(4) [of tp tun "tracked_state tb (Some b)" now] by (auto simp: tracked_state_def)
  show ?thesis
    using assms(4) keep b clk
    by (auto simp: ApplyTopology_get [OF assms(2,3)] retracked_get [OF retracked_distinct [OF assms(2)]] holding_def)
qed

lemma hold_RestoreState:
  assumes "holding k T e"
  shows "holding k T (fst (RestoreState sns e))"
proof -
  have "holding k T e' \<and> clk e' = clk e \<Longrightarrow> fold (restore_one (clk e)) sns (e', n) = r \<Longrightarrow>
      holding k T (fst r)" for e' n r
  proof (induction sns arbitrary: e' n)
    case (Cons sn sns)
    obtain e'' n'' where r: "restore_one (clk e) sn (e', n) = (e'', n'')" by fastforce
    then have "holding k T e'' \<and> clk e'' = clk e"
      using Cons.prems(1)
      by (auto simp: restore_one_def holding_def mget_mput split: option.splits if_splits)
    from Cons.IH [OF this] Cons.prems(2) r show ?case by simp
  qed auto
  from this [of e 0] assms show ?thesis by (simp add: RestoreState_def)
qed

lemma RepublishAll_core: "same_core e (RepublishAll e)"
proof -
  have "same_core e (fold (\<lambda>x e'. emit (f x) e') xs e)" for f xs e
    by (induction xs arbitrary: e) (auto intro: same_core_trans same_core_emit)
  then show ?thesis by (simp add: RepublishAll_fold)
qed

lemma estep_hold:
  assumes "estep e e'" "holding k T e" "within_window k T W e" "0 \<le> W" "mwf (e_beacons e)"
    "mget (e_beacons e') k \<noteq> None"
  shows "holding k T e'"
  using assms
proof (cases rule: estep.cases)
  case (tunables tn)
  with assms(2) show ?thesis by (auto simp: ApplyTunables_def holding_def split: option.split)
next
  case republish
  with assms(2) RepublishAll_core [of e] show ?thesis by (simp add: holding_def same_core_def)
next
  case (reorder m)
  with assms(2) mget_perm [OF assms(5), of m] show ?thesis by (simp add: holding_def)
next
  case (reorder_aps k' b m)
  with assms(2) show ?thesis by (auto simp: holding_def mget_mput)
next
  case (advance t)
  with assms(2) show ?thesis by (auto simp: holding_def)
next
  case (receive ev q)
  with assms(2) show ?thesis by (auto simp: holding_def)
qed (auto intro: hold_Submit hold_Tick hold_ApplyTopology hold_RestoreState)



subsection \<open>Arrivals\<close>

lemma fold_freshest_ge:
  "t \<le> fold (\<lambda>(k, ap) t. if t < lastSightingTs ap then lastSightingTs ap else t) xs t"
proof (induction xs arbitrary: t)
  case (Cons x xs)
  have "t \<le> (case x of (k, ap) \<Rightarrow> \<lambda>t. if t < lastSightingTs ap then lastSightingTs ap else t) t"
    by (auto split: prod.split)
  also note Cons.IH
  finally show ?case by simp
qed simp

lemma freshest_fold_mem:
  "(k, ap) \<in> set xs \<Longrightarrow>
   lastSightingTs ap \<le> fold (\<lambda>(k, ap) t. if t < lastSightingTs ap then lastSightingTs ap else t) xs t"
proof (induction xs arbitrary: t)
  case (Cons x xs)
  then show ?case
    using fold_freshest_ge [of "lastSightingTs ap" xs] fold_freshest_ge [of t xs]
    by (cases "x = (k, ap)") (auto intro: order_trans)
qed simp

lemma freshest_ge: "(k, ap) \<in> set (perAP bs) \<Longrightarrow> lastSightingTs ap \<le> freshestSightingTs bs"
  by (simp add: freshestSightingTs_def freshest_fold_mem)

text \<open>A sighting just recorded rules out the safety bound.\<close>

lemma no_force_away:
  assumes "(k, ap) \<in> set (perAP bs)" "lastSightingTs ap = now" "0 \<le> TAwayMaxS tun" "TAwayMaxS tun \<le> max_dur_s"
  shows "\<not> force_away bs tun now"
proof -
  have "time_sub now (freshestSightingTs bs) \<le> 0"
    using freshest_ge [OF assms(1)] assms(2) by (simp add: time_sub_def)
  then show ?thesis using seconds_dur_nonneg [OF assms(3,4)] by (simp add: force_away_def Let_def)
qed

lemma note_sighting_mem:
  "mget (perAP (note_sighting tun s now bs)) (ToLower (s_APMac s)) =
     Some (update_ap tun s now (mget (perAP bs) (ToLower (s_APMac s))))"
  by (simp add: note_sighting_def Let_def mget_mput)

lemma update_ap_sel [simp]: "lastSightingTs (update_ap tun s now old) = now"
  by (simp add: update_ap_def Let_def)

lemma effective_now:
  assumes "lastSightingTs ap = now" "0 < now" "0 \<le> GracePeriodS tun"
  shows "effectiveRSSI ap now tun = ewmaRSSI ap"
  using assms f_of_int_nonneg [OF assms(3)]
  by (simp add: effectiveRSSI_def time_is_zero_def dur_seconds_eq)

lemma recompute_arrival:
  assumes "currentZone bs = []" "\<not> force_away bs tun now"
    "closestInPresence bs tun now = Some (Some ap, k, eff, d)" "Zone tp k \<noteq> []"
  shows "recomputeOne tp tun bs now fa =
    (let bs1 = (set_zone (Zone tp k) k bs)\<lparr>lastArrivalTs := now\<rparr> in
     (bs1, [Emit (buildEvent bs1 ap k eff d now True)]))"
  using assms by (simp add: recomputeOne_def emit_built_def Let_def)

text \<open>The sighting, as recorded, is at or above the presence floor.\<close>

definition qualifying :: "Engine \<Rightarrow> Sighting \<Rightarrow> beaconState \<Rightarrow> bool" where
  "qualifying e s bs \<longleftrightarrow>
     fle (floor_dbm (tun_of e bs))
       (ewmaRSSI (update_ap (tun_of e bs) s (clk e) (mget (perAP bs) (ToLower (s_APMac s)))))"

lemma qualifying_closest:
  assumes "qualifying e s bs" "validateDefaults (tun_of e bs) = None" "0 < clk e"
    "rank_ok (note_sighting (tun_of e bs) s (clk e) bs) (tun_of e bs) (clk e)"
  obtains ap k eff d where
    "closestInPresence (note_sighting (tun_of e bs) s (clk e) bs) (tun_of e bs) (clk e) = Some (Some ap, k, eff, d)"
    "(k, ap) \<in> set (perAP (note_sighting (tun_of e bs) s (clk e) bs))" "qualifies (tun_of e bs) (clk e) ap"
proof -
  let ?tun = "tun_of e bs" and ?b = "note_sighting (tun_of e bs) s (clk e) bs"
  let ?ap = "update_ap ?tun s (clk e) (mget (perAP bs) (ToLower (s_APMac s)))"
  have mem: "(ToLower (s_APMac s), ?ap) \<in> set (perAP ?b)"
    using note_sighting_mem by (rule mget_Some_in)
  have "0 \<le> GracePeriodS ?tun" using assms(2) by (simp only: validateDefaults_iff)
  then have "effectiveRSSI ?ap (clk e) ?tun = ewmaRSSI ?ap" using assms(3) by (intro effective_now) simp_all
  with assms(1) have "\<not> flt (effectiveRSSI ?ap (clk e) ?tun) (floor_dbm ?tun)"
    unfolding qualifying_def by (metis fle_lt_trans flt_irrefl)
  then have "closestInPresence ?b ?tun (clk e) \<noteq> None"
    using closest_max [OF assms(4)] mem by (auto simp: list_all_iff split: option.splits)
  then obtain cap k eff d where c: "closestInPresence ?b ?tun (clk e) = Some (cap, k, eff, d)" by auto
  with closest_max [OF assms(4)] obtain ap where ap: "cap = Some ap" "(k, ap) \<in> set (perAP ?b)"
    "eff = effectiveRSSI ap (clk e) ?tun" "fle (floor_dbm ?tun) eff" by auto
  then have "qualifies ?tun (clk e) ap" unfolding qualifies_def by (metis fle_lt_trans flt_irrefl)
  with c ap show thesis by (intro that) auto
qed


lemma emit_trace:
  "\<exists>rest. trace (emit ev e) = trace e @ EventEmitted ev # rest
     \<and> (rest = [] \<or> rest = [EventSent ev] \<or> rest = [EventDropped ev] \<or> rest = [EventDropped ev, DropWarned ev])"
  by (auto simp: emit_def maybeLogDrop_def logged_def Let_def split: option.split)

lemma Submit_recompute:
  assumes "mget (e_beacons e) (s_Beacon s) = Some bs"
    "recomputeOne (e_top e) (tun_of e bs) (note_sighting (tun_of e bs) s (clk e) bs) (clk e) (ToLower (s_APMac s))
       = (bs', acts)"
  shows "mget (e_beacons (Submit s e)) (s_Beacon s) = Some bs'"
    and "trace (Submit s e) = trace (fold perform acts (put_beacon (s_Beacon s) bs'
           (put_beacon (s_Beacon s) (note_sighting (tun_of e bs) s (clk e) bs) e)))"
    and "out_queue (Submit s e) = out_queue (fold perform acts (put_beacon (s_Beacon s) bs'
           (put_beacon (s_Beacon s) (note_sighting (tun_of e bs) s (clk e) bs) e)))"
proof -
  let ?b = "note_sighting (tun_of e bs) s (clk e) bs"
  let ?e = "put_beacon (s_Beacon s) ?b e"
  have tun: "tun_of ?e ?b = tun_of e bs" by (intro tun_of_cong) simp_all
  have eq: "Submit s e = fold perform acts (put_beacon (s_Beacon s) bs' ?e)"
    using assms by (simp add: Submit_def handleSighting_def recompute_at_def apply_at_def mget_mput tun)
  show "mget (e_beacons (Submit s e)) (s_Beacon s) = Some bs'" by (simp add: eq mget_mput)
  show "trace (Submit s e) = trace (fold perform acts (put_beacon (s_Beacon s) bs' ?e))"
    "out_queue (Submit s e) = out_queue (fold perform acts (put_beacon (s_Beacon s) bs' ?e))" by (simp_all add: eq)
qed

lemma emit_queue:
  "out_queue (emit ev e) =
     (case out_cap e of None \<Rightarrow> out_queue e
      | Some c \<Rightarrow> if length (out_queue e) < c then out_queue e @ [ev] else out_queue e)"
  by (auto simp: emit_def maybeLogDrop_def logged_def Let_def split: option.split)

lemma arrival:
  assumes "mget (e_beacons e) (s_Beacon s) = Some bs" "currentZone bs = []"
    and "validateDefaults (tun_of e bs) = None" "TAwayMaxS (tun_of e bs) \<le> max_dur_s" "0 < clk e"
    and "qualifying e s bs" "rank_ok (note_sighting (tun_of e bs) s (clk e) bs) (tun_of e bs) (clk e)"
    and "\<forall>(k, ap) \<in> set (perAP (note_sighting (tun_of e bs) s (clk e) bs)).
           qualifies (tun_of e bs) (clk e) ap \<longrightarrow> Zone (e_top e) k \<noteq> []"
  shows "\<exists>bs' ev rest. mget (e_beacons (Submit s e)) (s_Beacon s) = Some bs'
       \<and> currentZone bs' \<noteq> [] \<and> lastArrivalTs bs' = clk e
       \<and> trace (Submit s e) = trace e @ EventEmitted ev # rest
       \<and> ev_Beacon ev = bs_id bs \<and> ev_State ev = currentZone bs' \<and> ev_State ev = Zone (e_top e) (ev_APMac ev)
       \<and> ev_StickyActive ev \<and> ev_EmittedAt ev = clk e \<and> out_queue (Submit s e) = out_queue (emit ev e)"
proof -
  let ?tun = "tun_of e bs" and ?b = "note_sighting (tun_of e bs) s (clk e) bs"
  obtain ap k eff d where c: "closestInPresence ?b ?tun (clk e) = Some (Some ap, k, eff, d)"
    and ap: "(k, ap) \<in> set (perAP ?b)" "qualifies ?tun (clk e) ap"
    using assms(6,3,5,7) by (rule qualifying_closest)
  have z: "Zone (e_top e) k \<noteq> []" using assms(8) ap by auto
  have "1 \<le> TAwayMaxS ?tun" using assms(3) by (simp only: validateDefaults_iff)
  then have "\<not> force_away ?b ?tun (clk e)"
    using mget_Some_in [OF note_sighting_mem [of ?tun s "clk e" bs]] assms(4)
    by (intro no_force_away) auto
  then have r: "recomputeOne (e_top e) ?tun ?b (clk e) (ToLower (s_APMac s)) =
      (let bs1 = (set_zone (Zone (e_top e) k) k ?b)\<lparr>lastArrivalTs := clk e\<rparr> in
       (bs1, [Emit (buildEvent bs1 ap k eff d (clk e) True)]))"
    using assms(2) c z by (intro recompute_arrival) simp_all
  let ?bs1 = "(set_zone (Zone (e_top e) k) k ?b)\<lparr>lastArrivalTs := clk e\<rparr>"
  let ?ev = "buildEvent ?bs1 ap k eff d (clk e) True"
  have r': "recomputeOne (e_top e) ?tun ?b (clk e) (ToLower (s_APMac s)) = (?bs1, [Emit ?ev])"
    using r by (simp only: Let_def)
  obtain rest where "trace (Submit s e) = trace e @ EventEmitted ?ev # rest"
    using Submit_recompute(2) [OF assms(1) r']
      emit_trace [of ?ev "put_beacon (s_Beacon s) ?bs1 (put_beacon (s_Beacon s) ?b e)"] by auto
  moreover have "mget (e_beacons (Submit s e)) (s_Beacon s) = Some ?bs1"
    by (rule Submit_recompute(1) [OF assms(1) r'])
  moreover have "out_queue (Submit s e) = out_queue (emit ?ev e)"
    using Submit_recompute(3) [OF assms(1) r'] by (simp only: fold_simps perform.simps emit_queue put_beacon_sel)
  ultimately show ?thesis
    using z by (intro exI [of _ ?bs1] exI [of _ ?ev] exI [of _ rest]) (simp add: buildEvent_def)
qed


text \<open>The concrete engine fulfils the hypotheses.\<close>

lemma sample_engine_sel:
  "e_beacons sample_engine = [(sample_beacon, newBeaconState sample_beacon ''fob'')]"
  "e_resolved sample_engine = [(''fob'', sample_defaults)]" "clk sample_engine = 100 * second"
  "e_top sample_engine = Some sample_top" "trace sample_engine = []"
  by (simp_all add: sample_engine_def NewEngine_def Beacons_def sample_top_def register_def sample_tun_def
        ResolveFor_def)

lemma ToLower_sample: "ToLower ''aa:bb:cc:dd:ee:ff'' = ''aa:bb:cc:dd:ee:ff''"
  by (rule ToLower_plain) (auto simp: plain_eval)

lemma sample_zone: "Zone (Some sample_top) ''aa:bb:cc:dd:ee:ff'' = ''kitchen''"
proof -
  have "length sample_mac = 6" by (simp add: sample_mac_def)
  from NormalizeMAC_forms [OF this, of "''aa:bb:cc:dd:ee:ff''"] have "NormalizeMAC ''aa:bb:cc:dd:ee:ff'' = ''aa:bb:cc:dd:ee:ff''"
    using sample_mac_forms by (simp add: mac_forms_def)
  then show ?thesis by (simp add: Zone_get sample_top_def)
qed

lemma sample_arrival_hyps:
  defines "bs \<equiv> newBeaconState sample_beacon ''fob''"
  shows "mget (e_beacons sample_engine) (s_Beacon sample_sighting) = Some bs" "currentZone bs = []"
    "validateDefaults (tun_of sample_engine bs) = None" "TAwayMaxS (tun_of sample_engine bs) \<le> max_dur_s"
    "0 < clk sample_engine" "qualifying sample_engine sample_sighting bs"
    "rank_ok (note_sighting (tun_of sample_engine bs) sample_sighting (clk sample_engine) bs)
       (tun_of sample_engine bs) (clk sample_engine)"
    "\<forall>(k, ap) \<in> set (perAP (note_sighting (tun_of sample_engine bs) sample_sighting (clk sample_engine) bs)).
       qualifies (tun_of sample_engine bs) (clk sample_engine) ap \<longrightarrow> Zone (e_top sample_engine) k \<noteq> []"
proof -
  have tun: "tun_of sample_engine bs = sample_defaults"
    by (simp add: tun_of_def mget_zero_def sample_engine_sel bs_def newBeaconState_def)
  show "mget (e_beacons sample_engine) (s_Beacon sample_sighting) = Some bs" "currentZone bs = []"
    by (simp_all add: sample_engine_sel sample_sighting_def bs_def newBeaconState_def)
  show "validateDefaults (tun_of sample_engine bs) = None" by (simp add: tun validate_eval)
  show "TAwayMaxS (tun_of sample_engine bs) \<le> max_dur_s" by (simp add: tun sample_defaults_def max_dur_s_def)
  show "0 < clk sample_engine" by (simp add: sample_engine_sel second_def)
  show "qualifying sample_engine sample_sighting bs"
    unfolding qualifying_def tun
    by (simp add: floor_dbm_def sample_defaults_def update_ap_def bs_def newBeaconState_def sample_sighting_def
          float_eval)
  show "rank_ok (note_sighting (tun_of sample_engine bs) sample_sighting (clk sample_engine) bs)
       (tun_of sample_engine bs) (clk sample_engine)"
    unfolding tun
    by (simp add: rank_ok_def bad_floor_def note_sighting_def update_ap_def bs_def newBeaconState_def
          sample_defaults_def sample_sighting_def effectiveRSSI_def time_is_zero_def sample_engine_sel float_eval)
  show "\<forall>(k, ap) \<in> set (perAP (note_sighting (tun_of sample_engine bs) sample_sighting (clk sample_engine) bs)).
       qualifies (tun_of sample_engine bs) (clk sample_engine) ap \<longrightarrow> Zone (e_top sample_engine) k \<noteq> []"
    by (simp add: note_sighting_def bs_def newBeaconState_def sample_sighting_def ToLower_sample sample_engine_sel
          sample_zone)
qed



subsection \<open>A sticky run\<close>

lemma Submit_name:
  assumes "mget (e_beacons e) (s_Beacon s) = Some bs" "mget (e_beacons (Submit s e)) (s_Beacon s) = Some bs'"
  shows "bs_name bs' = bs_name bs"
proof -
  obtain b acts where r: "recomputeOne (e_top e) (tun_of e bs) (note_sighting (tun_of e bs) s (clk e) bs) (clk e)
      (ToLower (s_APMac s)) = (b, acts)" by fastforce
  have "bs_name b = bs_name bs"
    using recomputeOne_keeps(2) [of "e_top e" "tun_of e bs" "note_sighting (tun_of e bs) s (clk e) bs"] r
    by (metis fst_conv note_sighting_keeps(2))
  with Submit_recompute(1) [OF assms(1) r] assms(2) show ?thesis by simp
qed

lemma Submit_frame: "e_resolved (Submit s e) = e_resolved e" "clk (Submit s e) = clk e"
  by (auto simp: Submit_def handleSighting_def recompute_at_eq recompute.apply_at_frame logged_def split: option.split)

text \<open>The concrete engine after the arrival, and a later tick inside the window.\<close>

definition sample_arrived :: Engine where
  "sample_arrived = Submit sample_sighting sample_engine"

lemma sample_arrived_state:
  "engine_inv sample_arrived" "holding sample_beacon (100 * second) sample_arrived"
  "e_resolved sample_arrived = [(''fob'', sample_defaults)]" "clk sample_arrived = 100 * second"
  "\<exists>bs. mget (e_beacons sample_arrived) sample_beacon = Some bs \<and> bs_name bs = ''fob''"
proof -
  have s: "s_Beacon sample_sighting = sample_beacon" by (simp add: sample_sighting_def)
  show inv: "engine_inv sample_arrived"
    unfolding sample_arrived_def by (intro Submit_inv reachable_inv sample_engine_reachable)
  show res: "e_resolved sample_arrived = [(''fob'', sample_defaults)]" "clk sample_arrived = 100 * second"
    by (simp_all add: sample_arrived_def Submit_frame sample_engine_sel)
  obtain bs' where b: "mget (e_beacons sample_arrived) sample_beacon = Some bs'" "currentZone bs' \<noteq> []"
    "lastArrivalTs bs' = 100 * second"
    using arrival [OF sample_arrival_hyps] by (auto simp: s sample_arrived_def sample_engine_sel)
  then show "holding sample_beacon (100 * second) sample_arrived" by (simp add: holding_def res)
  have "bs_name bs' = ''fob''"
    using Submit_name [OF sample_arrival_hyps(1)] b(1) by (simp add: s sample_arrived_def newBeaconState_def)
  with b(1) show "\<exists>bs. mget (e_beacons sample_arrived) sample_beacon = Some bs \<and> bs_name bs = ''fob''" by blast
qed

lemma sample_window:
  assumes "e_resolved e = [(''fob'', sample_defaults)]" "clk e \<le> 200 * second"
    "\<exists>bs. mget (e_beacons e) sample_beacon = Some bs \<and> bs_name bs = ''fob''"
  shows "within_window sample_beacon (100 * second) 120 e"
  using assms
  by (auto simp: within_window_def tun_of_def mget_zero_def sample_defaults_def max_dur_s_def second_def)


end
