(* ===== verification/Presence_Guarantees.thy ===== *)
theory Presence_Guarantees
  imports Presence_Run
begin

section \<open>The presence engine: behaviour of the single operations\<close>

text \<open>
  What a recomputation publishes, when a beacon may change its zone, when it is declared
  away, and what republishing, topology changes, snapshots and the outgoing channel do.
\<close>

subsection \<open>Every change is published\<close>

definition published :: "beaconState \<Rightarrow> PresenceState" where
  "published bs = (if currentZone bs = [] then StateNotHome else currentZone bs)"

lemma case_in_zone_publishes:
  assumes "case_in_zone tun bs now fa z (Some ap, k, eff, d) = (bs', acts)" "z \<noteq> []" "currentZone bs \<noteq> []"
  shows "(acts = [] \<and> currentZone bs' = currentZone bs)
       \<or> (\<exists>ev. acts = [Emit ev] \<and> ev_State ev = published bs' \<and> ev_Beacon ev = bs_id bs' \<and> ev_EmittedAt ev = now)"
  using assms
  by (auto simp: case_in_zone_def Let_def emit_built_def buildEvent_def published_def
      simp del: set_zone_sel(7,8) split: if_splits)

lemma case_away_publishes:
  assumes "case_away tun bs now = (bs', acts)"
  shows "(acts = [] \<and> bs' = bs)
       \<or> (\<exists>ev. acts = [Emit ev] \<and> currentZone bs' = [] \<and> ev_State ev = StateNotHome \<and> ev_Beacon ev = bs_id bs'
            \<and> ev_EmittedAt ev = now)"
  using assms
  by (auto simp: case_away_def departure_event_def Let_def split: if_splits option.splits)

lemma recompute_publishes:
  assumes "recomputeOne tp tun bs now fa = (bs', acts)" "Zone tp [] = []"
  shows "(currentZone bs' = currentZone bs \<and> (\<forall>ev. Emit ev \<notin> set acts))
       \<or> (\<exists>ev. acts = [Emit ev] \<and> ev_State ev = published bs' \<and> ev_Beacon ev = bs_id bs' \<and> ev_EmittedAt ev = now)"
proof (cases "closestInPresence bs tun now")
  case None
  with assms(1) case_away_publishes [of tun bs now bs' acts] show ?thesis
    by (auto simp: recomputeOne_def published_def)
next
  case (Some cl)
  obtain cap k eff d where cl: "cl = (cap, k, eff, d)" by (cases cl)
  show ?thesis
  proof (cases "force_away bs tun now")
    case True
    with Some assms(1) case_away_publishes [of tun bs now bs' acts] show ?thesis
      by (auto simp: recomputeOne_def published_def)
  next
    case away: False
    show ?thesis
    proof (cases "Zone tp k = []")
      case True
      with Some away assms(1) show ?thesis by (auto simp: recomputeOne_def cl)
    next
      case False
      with assms(2) Some closest_nil [of bs tun now k eff d] obtain ap where "cap = Some ap"
        by (cases cap) (auto simp: cl)
      with Some away False assms(1) case_in_zone_publishes [of tun bs now fa "Zone tp k" ap k eff d bs' acts]
      show ?thesis
        by (auto simp: recomputeOne_def cl Let_def emit_built_def buildEvent_def published_def split: if_splits)
    qed
  qed
qed


definition sample_kitchen :: beaconState where
  "sample_kitchen = (newBeaconState sample_beacon ''fob'')\<lparr>currentZone := ''kitchen'',
     currentAP := ''aa:bb:cc:dd:ee:ff'', lastArrivalTs := 100 * second\<rparr>"

lemma sample_departure:
  "recomputeOne (Some sample_top) sample_defaults sample_kitchen (500 * second) [] =
     (set_zone [] [] sample_kitchen, [Emit (departure_event sample_kitchen sample_defaults (500 * second))])"
proof -
  have "\<not> in_sticky_window sample_kitchen sample_defaults (500 * second)"
    by (simp add: in_sticky_window_def sample_kitchen_def sample_defaults_def time_sub_def seconds_dur_id max_dur_s_def
          second_def)
  moreover have "closestInPresence sample_kitchen sample_defaults (500 * second) = None"
    by (simp add: closestInPresence_def sample_kitchen_def newBeaconState_def init_closest_def)
  ultimately show ?thesis
    by (simp add: recomputeOne_def case_away_def sticky_active_def) (simp add: sample_kitchen_def)
qed


subsection \<open>Switching zones\<close>


definition sample_two :: beaconState where
  "sample_two =
     (let ap = \<lparr>apName = ''ap'', ewmaRSSI = Fin (- 80), lastRSSI = - 80, lastSightingTs = 9, lastSeenAt = 0\<rparr> in
      (newBeaconState sample_beacon ''fob'')
        \<lparr>perAP := [(''a'', ap), (''b'', ap\<lparr>ewmaRSSI := Fin (- 60)\<rparr>)], currentZone := ''kitchen'', currentAP := ''a''\<rparr>)"

definition sample_two_top :: Topology where
  "sample_two_top = \<lparr>zones = [(''a'', ''kitchen''), (''b'', ''hall'')], beacons = []\<rparr>"

lemma sample_two_eval:
  defines "tun \<equiv> sample_defaults\<lparr>ConfirmCount := 1\<rparr>"
  shows "Zone (Some sample_two_top) ''b'' = ''hall''"
    "closestInPresence sample_two tun 9 =
       Some (map_option snd (List.find (\<lambda>x. fst x = ''b'') (perAP sample_two)), ''b'', Fin (- 60), Fin 20)"
    "\<not> force_away sample_two tun 9"
proof -
  have "NormalizeMAC ''b'' = ''b''"
    using ToLower_plain [of "''b''"] by (simp add: NormalizeMAC_def ParseMAC_def plain_eval)
  then show "Zone (Some sample_two_top) ''b'' = ''hall''" by (simp add: Zone_get sample_two_top_def)
  show "closestInPresence sample_two tun 9 =
       Some (map_option snd (List.find (\<lambda>x. fst x = ''b'') (perAP sample_two)), ''b'', Fin (- 60), Fin 20)"
    by (simp add: closestInPresence_def consider_ap_def init_closest_def effectiveRSSI_def floor_dbm_def tun_def
          sample_defaults_def sample_two_def time_is_zero_def never_def float_eval Let_def)
  show "\<not> force_away sample_two tun 9"
    by (simp add: force_away_def freshestSightingTs_def sample_two_def Let_def tun_def sample_defaults_def seconds_dur_id
          max_dur_s_def second_def)
qed


text \<open>
  Ticks never advance the confirmation. A recomputation that no sighting caused leaves
  the candidate and its count as they are or resets both.
\<close>

theorem tick_keeps_candidate:
  "let bs' = fst (recomputeOne tp tun bs now []) in
   (candidateAP bs' = candidateAP bs \<and> candidateCount bs' = candidateCount bs)
   \<or> (candidateAP bs' = [] \<and> candidateCount bs' = 0)"
  by (auto simp: recompute_defs Let_def split_beta split: option.split)


subsection \<open>Departures\<close>

lemma performs_mono: "set (trace e) \<subseteq> set (trace (fold perform acts e))"
proof (induction acts arbitrary: e)
  case (Cons a acts)
  have "set (trace e) \<subseteq> set (trace (perform a e))"
    by (cases a) (auto simp: emit_def maybeLogDrop_def logged_def Let_def split: option.split)
  with Cons.IH [of "perform a e"] show ?case by auto
qed simp

lemma performs_emits: "Emit ev \<in> set acts \<Longrightarrow> EventEmitted ev \<in> set (trace (fold perform acts e))"
proof (induction acts arbitrary: e)
  case (Cons a acts)
  then show ?case
    using emit_trace [of ev e] performs_mono [of "emit ev e" acts] by (cases "a = Emit ev") auto
qed simp

context beacon_update
begin

lemma apply_at_trace_mono: "set (trace e) \<subseteq> set (trace (apply_at upd k e))"
  using performs_mono by (auto simp: apply_at_def Let_def split_beta split: option.split) fastforce

lemma fold_apply_trace_mono: "set (trace e) \<subseteq> set (trace (fold (apply_at upd) ks e))"
proof (induction ks arbitrary: e)
  case (Cons k ks)
  from apply_at_trace_mono [of e k] Cons [of "apply_at upd k e"] show ?case by auto
qed simp

text \<open>A pass emits every event that the update of one of its beacons asks for.\<close>

lemma fold_apply_emits:
  "distinct ks \<Longrightarrow> k \<in> set ks \<Longrightarrow> mget (e_beacons e) k = Some bs \<Longrightarrow> Emit ev \<in> set (snd (upd e bs)) \<Longrightarrow>
   EventEmitted ev \<in> set (trace (fold (apply_at upd) ks e))"
proof (induction ks arbitrary: e)
  case (Cons k0 ks)
  show ?case
  proof (cases "k0 = k")
    case True
    with Cons.prems have "EventEmitted ev \<in> set (trace (apply_at upd k0 e))"
      by (simp add: apply_at_def Let_def split_beta performs_emits)
    with fold_apply_trace_mono [of "apply_at upd k0 e" ks] show ?thesis by auto
  next
    case False
    have "upd (apply_at upd k0 e) bs = upd e bs" by (rule upd_context) (simp_all add: apply_at_frame)
    with False Cons show ?thesis by (simp add: apply_at_get)
  qed
qed simp

end

lemma recompute_departs:
  assumes "currentZone bs \<noteq> []" "\<not> in_sticky_window bs tun now"
    "closestInPresence bs tun now = None \<or> force_away bs tun now"
  shows "recomputeOne tp tun bs now fa = (set_zone [] [] bs, [Emit (departure_event bs tun now)])"
  using assms by (auto simp: recomputeOne_def case_away_def sticky_active_def split: option.split)

text \<open>
  C15: the safety bound works. Outside the sticky window, if no access point has reported a
  beacon for more than \<open>TAwayMaxS\<close> seconds, the next tick declares it away and emits a
  \<open>not_home\<close> event, whatever the decay arithmetic says about its effective RSSI; the
  other beacons do not matter.
\<close>

theorem away_after_silence:
  assumes "mwf (e_beacons e)" "mget (e_beacons e) k = Some bs" "currentZone bs \<noteq> []"
    and "\<not> in_sticky_window bs (tun_of e bs) (clk e)" "freshestSightingTs bs \<noteq> 0"
    and "0 \<le> TAwayMaxS (tun_of e bs)" "TAwayMaxS (tun_of e bs) \<le> max_dur_s"
    and "freshestSightingTs bs + TAwayMaxS (tun_of e bs) * second < clk e"
  shows "(\<exists>bs'. mget (e_beacons (Tick e)) k = Some bs' \<and> currentZone bs' = [] \<and> currentAP bs' = [])
       \<and> (\<exists>ev. EventEmitted ev \<in> set (trace (Tick e)) \<and> ev_Beacon ev = bs_id bs \<and> ev_State ev = StateNotHome)"
proof -
  let ?tun = "tun_of e bs"
  have "seconds_dur (TAwayMaxS ?tun) = TAwayMaxS ?tun * second" using assms(6,7) by (rule seconds_dur_id)
  moreover have "TAwayMaxS ?tun * second < 2 ^ 63 - 1"
    using assms(7) by (simp add: max_dur_s_def second_def)
  ultimately have "seconds_dur (TAwayMaxS ?tun) < time_sub (clk e) (freshestSightingTs bs)"
    using assms(8) by (auto simp: time_sub_def)
  then have "force_away bs ?tun (clk e)"
    using assms(4,5) by (simp add: force_away_def time_is_zero_def sticky_active_def Let_def)
  with assms(3,4) have r: "recomputeOne (e_top e) ?tun bs (clk e) [] =
      (set_zone [] [] bs, [Emit (departure_event bs ?tun (clk e))])" by (intro recompute_departs) auto
  have k: "k \<in> set (mkeys (e_beacons e))" "distinct (mkeys (e_beacons e))"
    using mget_Some_in [OF assms(2)] assms(1) by (force simp: mkeys_def)+
  have "mget (e_beacons (Tick e)) k = Some (set_zone [] [] bs)"
    using k assms(2) r by (simp add: Tick_def recomputeAll_def recompute_at_eq recompute.fold_apply_get)
  moreover have "EventEmitted (departure_event bs ?tun (clk e)) \<in> set (trace (Tick e))"
    unfolding Tick_def recomputeAll_def recompute_at_eq
    by (rule recompute.fold_apply_emits [OF k(2,1) assms(2)]) (simp add: r)
  moreover have "ev_State (departure_event bs ?tun (clk e)) = StateNotHome"
    "ev_Beacon (departure_event bs ?tun (clk e)) = bs_id bs"
    by (simp_all add: departure_event_def Let_def split: option.split)
  ultimately show ?thesis by auto
qed

definition sample_silent :: Engine where
  "sample_silent =
     sample_engine\<lparr>clk := 500 * second, e_beacons := [(sample_beacon, sample_kitchen\<lparr>perAP :=
        [(''x'', \<lparr>apName = ''x'', ewmaRSSI = Fin 0, lastRSSI = 0, lastSightingTs = 450 * second, lastSeenAt = 0\<rparr>)]\<rparr>)]\<rparr>"

theorem away_after_silence_witness:
  "\<exists>bs'. mget (e_beacons (Tick sample_silent)) sample_beacon = Some bs' \<and> currentZone bs' = []"
proof -
  let ?bs = "sample_kitchen\<lparr>perAP :=
        [(''x'', \<lparr>apName = ''x'', ewmaRSSI = Fin 0, lastRSSI = 0, lastSightingTs = 450 * second, lastSeenAt = 0\<rparr>)]\<rparr>"
  have tun: "tun_of sample_silent ?bs = sample_defaults"
    by (simp add: tun_of_def mget_zero_def sample_silent_def sample_engine_sel sample_kitchen_def newBeaconState_def)
  have fr: "freshestSightingTs ?bs = 450 * second"
    by (simp add: freshestSightingTs_def second_def)
  have "\<not> in_sticky_window ?bs sample_defaults (500 * second)"
    by (simp add: in_sticky_window_def sample_kitchen_def sample_defaults_def time_sub_def seconds_dur_id max_dur_s_def
          second_def)
  then show ?thesis
    using away_after_silence [of sample_silent sample_beacon ?bs, unfolded tun fr]
    by (auto simp: sample_silent_def sample_defaults_def max_dur_s_def second_def) (auto simp: sample_kitchen_def)
qed


subsection \<open>Republishing\<close>

fun emitted :: "effect list \<Rightarrow> PresenceEvent list" where
  "emitted [] = []"
| "emitted (EventEmitted ev # xs) = ev # emitted xs"
| "emitted (x # xs) = emitted xs"

lemma emitted_append: "emitted (xs @ ys) = emitted xs @ emitted ys"
  by (induction xs rule: emitted.induct) simp_all

lemma emitted_emit: "emitted (trace (emit ev e)) = emitted (trace e) @ [ev]"
proof -
  obtain rest where "trace (emit ev e) = trace e @ EventEmitted ev # rest"
    "rest = [] \<or> rest = [EventSent ev] \<or> rest = [EventDropped ev] \<or> rest = [EventDropped ev, DropWarned ev]"
    using emit_trace [of ev e] by blast
  then show ?thesis by (auto simp: emitted_append)
qed

lemma emitted_fold: "emitted (trace (fold (\<lambda>x e. emit (f x) e) xs e)) = emitted (trace e) @ map f xs"
  by (induction xs arbitrary: e) (simp_all add: emitted_emit)

lemma republish_event_state:
  "ev_State (republish_event tun bs now) = published bs" "ev_Beacon (republish_event tun bs now) = bs_id bs"
  by (auto simp: republish_event_def published_def buildEvent_def Let_def split: option.split)

text \<open>
  Republishing is read-only. \<open>RepublishAll\<close> changes no beacon, no tunables, no topology and
  no cache, and emits exactly one event per tracked beacon, in the order of the map, whose
  state is the one currently published.
\<close>

theorem republish_read_only:
  "same_core e (RepublishAll e)
   \<and> (\<exists>evs. emitted (trace (RepublishAll e)) = emitted (trace e) @ evs
        \<and> map ev_State evs = map (published \<circ> snd) (e_beacons e)
        \<and> map ev_Beacon evs = map (bs_id \<circ> snd) (e_beacons e))"
proof
  show "same_core e (RepublishAll e)" by (rule RepublishAll_core)
qed (auto simp: RepublishAll_fold emitted_fold republish_event_state)

subsection \<open>Topology changes\<close>



subsection \<open>Snapshots and restarts\<close>

definition restored :: "gtime \<Rightarrow> beaconState \<Rightarrow> beaconState \<Rightarrow> beaconState" where
  "restored now b old =
     b\<lparr>currentZone := currentZone old, currentAP := currentAP old, lastArrivalTs := now\<rparr>"

lemma restore_fold:
  "mwf xs \<Longrightarrow>
   mget (e_beacons (fst (fold (restore_one now) (map (snapshot_beacon e0) xs) (e, n)))) k =
     (case mget xs k of
        None \<Rightarrow> mget (e_beacons e) k
      | Some old \<Rightarrow> if currentZone old = [] then mget (e_beacons e) k
                    else map_option (\<lambda>b. restored now b old) (mget (e_beacons e) k))"
proof (induction xs arbitrary: e n)
  case (Cons x xs)
  obtain k0 old where x: "x = (k0, old)" by (cases x)
  have none: "mget xs k0 = None" using Cons.prems by (simp add: x map_of_eq_None_iff)
  show ?case
    using Cons none
    by (auto simp: x restore_one_def snapshot_beacon_def Let_def mget_mput restored_def split: option.split)
qed simp

text \<open>
  A restart keeps the published zones. Take the snapshot of an engine before the restart
  and restore it into the fresh engine: every beacon tracked by both that published a
  zone publishes the same zone with the same access point again, with a fresh sticky
  window from the restart on; every other beacon of the new engine is unchanged.
\<close>

theorem restart_keeps_zones:
  assumes "mwf (e_beacons e)"
  shows "mget (e_beacons (fst (RestoreState (sn_Beacons (Snapshot e)) e2))) k =
     (case mget (e_beacons e) k of
        None \<Rightarrow> mget (e_beacons e2) k
      | Some old \<Rightarrow> if currentZone old = [] then mget (e_beacons e2) k
                    else map_option (\<lambda>b. b\<lparr>currentZone := currentZone old, currentAP := currentAP old,
                                           lastArrivalTs := clk e2\<rparr>) (mget (e_beacons e2) k))"
  using restore_fold [OF assms, of "clk e2" e e2 0 k]
  by (simp add: RestoreState_def Snapshot_def restored_def split: option.split)

theorem restart_keeps_zones_witness:
  "\<exists>b. mget (e_beacons (fst (RestoreState (sn_Beacons (Snapshot sample_silent)) sample_engine))) sample_beacon = Some b
     \<and> currentZone b = ''kitchen'' \<and> lastArrivalTs b = 100 * second"
  by (subst restart_keeps_zones) (simp_all add: sample_silent_def sample_engine_sel sample_kitchen_def)

subsection \<open>The outgoing channel\<close>

text \<open>
  The engine never blocks and never loses an event silently. With a channel of capacity
  \<open>c\<close>, an emitted event is appended to the queue exactly when there is room; otherwise
  the queue is unchanged and the drop is reported to the hook, and a warning is logged
  unless one was logged less than a minute before.
\<close>

theorem emit_sends_or_reports:
  assumes "out_cap e = Some c"
  shows "if length (out_queue e) < c
     then out_queue (emit ev e) = out_queue e @ [ev] \<and> trace (emit ev e) = trace e @ [EventEmitted ev, EventSent ev]
     else out_queue (emit ev e) = out_queue e
          \<and> trace (emit ev e) = trace e @ [EventEmitted ev, EventDropped ev] @
              (if dropLogLast e \<noteq> 0 \<and> s64 (unix_nano (clk e) - dropLogLast e) < minute then [] else [DropWarned ev])"
  using assms by (auto simp: emit_def maybeLogDrop_def logged_def Let_def dropLogMinInterval_def)

theorem emit_sends_or_reports_witness:
  "out_queue (emit zero_event sample_engine) = [zero_event]"
proof -
  have "out_cap sample_engine = Some 2" "out_queue sample_engine = []"
    by (simp_all add: sample_engine_def NewEngine_def Beacons_def sample_top_def register_def)
  with emit_sends_or_reports [of sample_engine 2 zero_event] show ?thesis by simp
qed


end
