(* ===== verification/Bounded_Queue.thy ===== *)
theory Bounded_Queue
  imports Prelude
begin

section \<open>Bounded channels with a drop-oldest policy\<close>

text \<open>
  Three producers of the program put items into a buffered channel that they never wait
  for: \<open>Publisher.enqueue\<close>, \<open>ObservationsWriter.Submit\<close> and \<open>RawPostsWriter.Submit\<close>. Each runs
  the same three non-blocking \<open>select\<close> statements: try to send; if the channel is full,
  try to receive (and discard) the oldest item; try to send again, and if that fails
  give the new item up. Other goroutines may use the channel between the statements.

  A buffered channel is a list with a capacity. What others do between the statements
  is a pair of functions on that list. The locale \<open>drop_oldest_queue\<close> states the common
  contract; the theories of the three producers interpret it.
\<close>

subsection \<open>Non-blocking channel operations\<close>

definition try_send :: "nat \<Rightarrow> 'a \<Rightarrow> 'a list \<Rightarrow> 'a list option" where
  "try_send cap x q = (if length q < cap then Some (q @ [x]) else None)"

fun try_recv :: "'a list \<Rightarrow> ('a \<times> 'a list) option" where
  "try_recv [] = None"
| "try_recv (x # q) = Some (x, q)"

text \<open>
  The result of the three statements: the channel, the items lost (the evicted oldest one,
  the incoming one), and whether the incoming item was accepted.
\<close>

definition drop_oldest :: "nat \<Rightarrow> ('a list \<Rightarrow> 'a list) \<Rightarrow> ('a list \<Rightarrow> 'a list) \<Rightarrow> 'a \<Rightarrow> 'a list
    \<Rightarrow> 'a list \<times> 'a list \<times> bool" where
  "drop_oldest cap env1 env2 x q =
     (case try_send cap x q of
        Some q1 \<Rightarrow> (q1, [], True)
      | None \<Rightarrow>
          (let (q2, evicted) = (case try_recv (env1 q) of
                  None \<Rightarrow> (env1 q, []) | Some (y, r) \<Rightarrow> (r, [y])) in
           case try_send cap x (env2 q2) of
             Some q3 \<Rightarrow> (q3, evicted, True)
           | None \<Rightarrow> (env2 q2, evicted @ [x], False)))"

text \<open>The environment never overfills the channel.\<close>

definition env_ok :: "nat \<Rightarrow> ('a list \<Rightarrow> 'a list) \<Rightarrow> bool" where
  "env_ok cap env \<longleftrightarrow> (\<forall>q. length q \<le> cap \<longrightarrow> length (env q) \<le> cap)"

lemma env_ok_id [simp]: "env_ok cap (\<lambda>q. q)" "env_ok cap id"
  by (simp_all add: env_ok_def)

lemma drop_oldest_bounded:
  assumes "env_ok cap env1" "env_ok cap env2" "length q \<le> cap"
  shows "length (fst (drop_oldest cap env1 env2 x q)) \<le> cap"
proof -
  have "length (env1 q) \<le> cap" using assms by (simp add: env_ok_def)
  then have "length (env2 r) \<le> cap" if "length r \<le> length (env1 q)" for r
    using that assms(2) by (simp add: env_ok_def)
  then show ?thesis
    using assms(3)
    by (cases "env1 q") (auto simp: drop_oldest_def try_send_def Let_def)
qed

lemma drop_oldest_quiet:
  assumes "0 < cap" "length q \<le> cap"
  shows "drop_oldest cap (\<lambda>q. q) (\<lambda>q. q) x q =
    (if length q < cap then (q @ [x], [], True) else (tl q @ [x], [hd q], True))"
  using assms by (cases q) (auto simp: drop_oldest_def try_send_def Let_def)

text \<open>If nobody else sends in between, the incoming item is accepted as the newest.\<close>

lemma drop_oldest_accepts:
  assumes "0 < cap" "length q \<le> cap" "\<And>q. length (env1 q) \<le> length q" "\<And>q. length (env2 q) \<le> length q"
  shows "\<exists>r. drop_oldest cap env1 env2 x q = (r @ [x], fst (snd (drop_oldest cap env1 env2 x q)), True)"
proof (cases "length q < cap")
  case True
  then show ?thesis by (auto simp: drop_oldest_def try_send_def)
next
  case False
  show ?thesis
  proof (cases "env1 q")
    case Nil
    then have "length (env2 []) < cap" using assms(1) assms(4) [of "[]"] by simp
    with False Nil show ?thesis by (auto simp: drop_oldest_def try_send_def)
  next
    case (Cons y r)
    then have "length (env2 r) < cap" using assms(2) assms(3) [of q] assms(4) [of r] by simp
    with False Cons show ?thesis by (auto simp: drop_oldest_def try_send_def)
  qed
qed

subsection \<open>The contract of a producer\<close>

text \<open>
  \<open>enq env1 env2 x s\<close> is the producer's operation on its state \<open>s\<close>; \<open>items\<close> reads the channel,
  \<open>cap\<close> its capacity, and \<open>lost\<close> the counter of dropped items.
\<close>

locale drop_oldest_queue =
  fixes enq :: "('a list \<Rightarrow> 'a list) \<Rightarrow> ('a list \<Rightarrow> 'a list) \<Rightarrow> 'a \<Rightarrow> 's \<Rightarrow> 's"
    and items :: "'s \<Rightarrow> 'a list" and cap :: "'s \<Rightarrow> nat" and lost :: "'s \<Rightarrow> 64 word"
  assumes enq_items: "items (enq env1 env2 x s) = fst (drop_oldest (cap s) env1 env2 x (items s))"
    and enq_lost: "lost (enq env1 env2 x s)
        = lost s + word_of_nat (length (fst (snd (drop_oldest (cap s) env1 env2 x (items s)))))"
    and enq_cap: "cap (enq env1 env2 x s) = cap s"
begin

lemma bounded:
  assumes "env_ok (cap s) env1" "env_ok (cap s) env2" "length (items s) \<le> cap s"
  shows "length (items (enq env1 env2 x s)) \<le> cap (enq env1 env2 x s)"
  using drop_oldest_bounded [OF assms] by (simp add: enq_items enq_cap)

text \<open>Without interference the newest item is always kept and at most the oldest is lost.\<close>

lemma quiet:
  assumes "0 < cap s" "length (items s) \<le> cap s"
  shows "if length (items s) < cap s
    then items (enq (\<lambda>q. q) (\<lambda>q. q) x s) = items s @ [x] \<and> lost (enq (\<lambda>q. q) (\<lambda>q. q) x s) = lost s
    else items (enq (\<lambda>q. q) (\<lambda>q. q) x s) = tl (items s) @ [x] \<and> lost (enq (\<lambda>q. q) (\<lambda>q. q) x s) = lost s + 1"
  using drop_oldest_quiet [OF assms, of x] by (auto simp: enq_items enq_lost)

lemma newest_kept:
  assumes "0 < cap s" "length (items s) \<le> cap s" "\<And>q. length (env1 q) \<le> length q" "\<And>q. length (env2 q) \<le> length q"
  shows "\<exists>r. items (enq env1 env2 x s) = r @ [x]"
  using drop_oldest_accepts [OF assms, of x] by (metis enq_items fst_conv)

text \<open>
  A burst of items into a channel that nobody reads leaves the newest \<open>cap\<close> ones, in order,
  and counts exactly the others.
\<close>

lemma burst:
  assumes "0 < cap s" "length (items s) \<le> cap s"
  shows "let s' = fold (enq (\<lambda>q. q) (\<lambda>q. q)) xs s; all = items s @ xs; n = length all - cap s in
    items s' = drop n all \<and> lost s' = lost s + word_of_nat n \<and> cap s' = cap s"
  using assms
proof (induction xs arbitrary: s)
  case (Cons x xs)
  let ?s1 = "enq (\<lambda>q. q) (\<lambda>q. q) x s"
  have c: "cap ?s1 = cap s" by (simp add: enq_cap)
  have b: "length (items ?s1) \<le> cap ?s1" by (rule bounded) (simp_all add: Cons.prems)
  note q = quiet [OF Cons.prems, of x]
  show ?case
  proof (cases "length (items s) < cap s")
    case True
    with q Cons.IH [of ?s1] Cons.prems(1) b show ?thesis by (simp add: c Let_def)
  next
    case False
    then have len: "length (items s) = cap s" using Cons.prems(2) by simp
    then obtain y r where yr: "items s = y # r" using Cons.prems(1) by (cases "items s") auto
    have capr: "cap s = Suc (length r)" using len by (simp add: yr)
    have "items ?s1 = r @ [x]" "lost ?s1 = lost s + 1" using q False by (simp_all add: yr)
    with Cons.IH [of ?s1] b show ?thesis by (simp add: c capr yr Let_def)
  qed
qed (simp add: Let_def)

end

end
