(* ===== verification/Go_Time.thy ===== *)
theory Go_Time
  imports Go_Strings
begin

section \<open>Calendar dates\<close>

text \<open>
  \<open>t.UTC().Format(time.RFC3339)\<close>: the proleptic Gregorian date of a time, computed from the
  number of days since 1 January of year 1 by eras of 400 years that start in March.
\<close>

definition day_len :: int where
  "day_len = 86400 * second"

definition civil :: "int \<Rightarrow> int \<times> int \<times> int" where
  "civil days =
     (let z = days + 306; era = z div 146097; doe = z mod 146097;
          yoe = (doe - doe div 1460 + doe div 36524 - doe div 146096) div 365;
          doy = doe - (365 * yoe + yoe div 4 - yoe div 100);
          mp = (5 * doy + 2) div 153;
          d = doy - (153 * mp + 2) div 5 + 1;
          m = (if mp < 10 then mp + 3 else mp - 9);
          y = yoe + era * 400 + (if m \<le> 2 then 1 else 0)
      in (y, m, d))"

fun zeros :: "nat \<Rightarrow> string \<Rightarrow> string" where
  "zeros n s = replicate (n - length s) (CHR ''0'') @ s"

definition pad2 :: "int \<Rightarrow> string" where
  "pad2 n = zeros 2 (show_nat (nat n))"

definition pad_year :: "int \<Rightarrow> string" where
  "pad_year y = (if y < 0 then ''-'' @ zeros 4 (show_nat (nat (- y))) else zeros 4 (show_nat (nat y)))"

definition RFC3339 :: "gtime \<Rightarrow> string" where
  "RFC3339 t =
     (let (y, m, d) = civil (t div day_len); s = t mod day_len div second
      in pad_year y @ ''-'' @ pad2 m @ ''-'' @ pad2 d @ ''T'' @ pad2 (s div 3600) @ '':''
           @ pad2 (s div 60 mod 60) @ '':'' @ pad2 (s mod 60) @ ''Z'')"

end
