(* ===== verification/Mqtt.thy ===== *)
theory Mqtt
  imports Presence Bounded_Queue Go_Time
begin

section \<open>The MQTT publisher (internal/mqtt)\<close>

text \<open>
  \<open>discovery.go\<close>: topics, the device-discovery document and the telemetry document;
  \<open>publisher.go\<close>: the send queue, the record of what has been announced, and the
  publication of events and removals.

  The paho client is a third-party package: what it answers to a publish is the
  parameter \<open>broker\<close>, and the messages handed to it are recorded in \<open>wire\<close>. JSON encoding goes
  through the function variable \<open>marshalCompactFn\<close> of the source, here the parameter
  \<open>marshal\<close>, which may fail. The mutex makes each use of the four maps atomic, and only the
  drain goroutine publishes; other goroutines that use the queue between the three
  select statements of \<open>enqueue\<close> are its two environment arguments.
\<close>

subsection \<open>Topics (discovery.go)\<close>

definition bridgeAvailabilityTopic :: string where
  "bridgeAvailabilityTopic = ''briihass/bridge/availability''"

definition payloadOnline :: string where "payloadOnline = ''online''"
definition payloadOffline :: string where "payloadOffline = ''offline''"
definition trackerHome :: string where "trackerHome = ''home''"
definition trackerNotHome :: string where "trackerNotHome = ''not_home''"

definition trackerState :: "PresenceState \<Rightarrow> string" where
  "trackerState s = (if IsNotHome s then trackerNotHome else trackerHome)"

definition deviceConfigTopic :: "string \<Rightarrow> BeaconKey \<Rightarrow> string" where
  "deviceConfigTopic pre k = pre @ ''/device/'' @ EntityID k @ ''/config''"

definition stateTopic :: "BeaconKey \<Rightarrow> string" where
  "stateTopic k = ''briihass/'' @ EntityID k @ ''/state''"

definition telemetryTopic :: "BeaconKey \<Rightarrow> string" where
  "telemetryTopic k = ''briihass/'' @ EntityID k @ ''/telemetry''"

definition legacyTopics :: "string \<Rightarrow> BeaconKey \<Rightarrow> string list" where
  "legacyTopics pre k =
     (let base = pre @ ''/device_tracker/'' @ EntityID k
      in [base @ ''/config'', base @ ''/state'', base @ ''/attributes''])"

subsection \<open>Documents\<close>

record deviceBlock =
  Identifiers :: "string list"
  dev_Name :: string
  Manufacturer :: string
  Model :: string

record originBlock =
  orig_Name :: string
  orig_URL :: string

record availabilityBlock =
  av_Topic :: string
  PayloadAvailable :: string
  PayloadNotAvailable :: string

record component =
  Platform :: string
  UniqueID :: string
  cmp_Name :: string
  SourceType :: string
  DeviceClass :: string
  UnitOfMeasurement :: string
  StateClass :: string
  EntityCategory :: string
  StateTopic :: string
  ValueTemplate :: string
  JSONAttributesTopic :: string

record deviceDiscovery =
  Device :: deviceBlock
  Origin :: originBlock
  Availability :: "availabilityBlock list"
  Components :: "(string, component) gmap"

definition empty_component :: component where
  "empty_component =
     \<lparr>Platform = [], UniqueID = [], cmp_Name = [], SourceType = [], DeviceClass = [],
      UnitOfMeasurement = [], StateClass = [], EntityCategory = [], StateTopic = [],
      ValueTemplate = [], JSONAttributesTopic = []\<rparr>"

definition celsius :: string where
  "celsius = [char_of (0xC2 :: nat), char_of (0xB0 :: nat), CHR ''C'']"

definition BuildDeviceDiscovery :: "string \<Rightarrow> PresenceEvent \<Rightarrow> bool \<Rightarrow> bool \<Rightarrow> deviceDiscovery" where
  "BuildDeviceDiscovery pre ev withVoltage withTemp =
     (let k = ev_Beacon ev; entity = EntityID k; st = stateTopic k; tel = telemetryTopic k;
          sensor = empty_component\<lparr>Platform := ''sensor'', StateTopic := tel\<rparr>;
          cmps =
            [(entity, empty_component\<lparr>Platform := ''device_tracker'', UniqueID := entity,
                 SourceType := ''bluetooth_le'', StateTopic := st, JSONAttributesTopic := tel\<rparr>),
             (entity @ ''_rssi'', sensor\<lparr>UniqueID := entity @ ''_rssi'', cmp_Name := ''RSSI'',
                 DeviceClass := ''signal_strength'', UnitOfMeasurement := ''dBm'',
                 StateClass := ''measurement'', EntityCategory := ''diagnostic'',
                 ValueTemplate := ''{{ value_json.rssi }}''\<rparr>),
             (entity @ ''_area'', sensor\<lparr>UniqueID := entity @ ''_area'', cmp_Name := ''Area'',
                 ValueTemplate := ''{{ value_json.area }}''\<rparr>)];
          cmps1 = (if withVoltage then
            mput (entity @ ''_voltage'') (sensor\<lparr>UniqueID := entity @ ''_voltage'',
                 cmp_Name := ''Battery voltage'', DeviceClass := ''voltage'', UnitOfMeasurement := ''mV'',
                 StateClass := ''measurement'', EntityCategory := ''diagnostic'',
                 ValueTemplate := ''{{ value_json.voltage }}''\<rparr>) cmps else cmps);
          cmps2 = (if withTemp then
            mput (entity @ ''_temperature'') (sensor\<lparr>UniqueID := entity @ ''_temperature'',
                 cmp_Name := ''Temperature'', DeviceClass := ''temperature'', UnitOfMeasurement := celsius,
                 StateClass := ''measurement'',
                 ValueTemplate := ''{{ value_json.temperature }}''\<rparr>) cmps1 else cmps1)
      in \<lparr>Device = \<lparr>Identifiers = [entity], dev_Name = ev_BeaconName ev, Manufacturer = ''briihass'',
                    Model = ''BLE presence bridge''\<rparr>,
          Origin = \<lparr>orig_Name = ''briihass'', orig_URL = ''https://github.com/briihass/briihass''\<rparr>,
          Availability = [\<lparr>av_Topic = bridgeAvailabilityTopic, PayloadAvailable = payloadOnline,
                           PayloadNotAvailable = payloadOffline\<rparr>],
          Components = cmps2\<rparr>)"

definition fsign :: "float64 \<Rightarrow> float64" where
  "fsign v = (if flt v fzero then Fin (- 1) else Fin 1)"

text \<open>\<open>roundTo\<close>: the powers of ten are exact, so \<open>p\<close> is \<open>10 ^ n\<close> itself.\<close>

definition roundTo :: "float64 \<Rightarrow> nat \<Rightarrow> float64" where
  "roundTo v n =
     fadd (fdivc (f_of_int (f_to_int64 (fadd (fmul v (Fin (10 ^ n))) (fmul (fsign v) (Fin (1 / 2)))))) (10 ^ n)) fzero"

record statePayload =
  Area :: string
  st_RSSI :: "int option"
  Voltage :: "int option"
  Temperature :: "float64 option"
  st_APMac :: string
  st_APName :: string
  st_RSSIEWMA :: float64
  st_RSSIEffect :: float64
  st_LastSeen :: string
  st_StickyActive :: bool
  st_EmittedAt :: string

definition BuildState :: "PresenceEvent \<Rightarrow> statePayload" where
  "BuildState ev =
     (let s = \<lparr>Area = ev_State ev, st_RSSI = None, Voltage = ev_BatteryMV ev, Temperature = ev_TemperatureC ev,
               st_APMac = ev_APMac ev, st_APName = ev_APName ev, st_RSSIEWMA = fzero, st_RSSIEffect = fzero,
               st_LastSeen = [], st_StickyActive = ev_StickyActive ev, st_EmittedAt = RFC3339 (ev_EmittedAt ev)\<rparr>;
          s1 = (if ev_State ev \<noteq> StateNotHome \<and> ev_APMac ev \<noteq> [] then
                  s\<lparr>st_RSSI := Some (f_to_int64 (roundTo (ev_RSSIEWMA ev) 0)),
                    st_RSSIEWMA := roundTo (ev_RSSIEWMA ev) 2,
                    st_RSSIEffect := roundTo (ev_RSSIEffective ev) 2\<rparr>
                else s)
      in if \<not> time_is_zero (ev_LastSeen ev) then s1\<lparr>st_LastSeen := RFC3339 (ev_LastSeen ev)\<rparr> else s1)"

datatype document = DocDiscovery deviceDiscovery | DocState statePayload

type_synonym marshal_fn = "document \<Rightarrow> string option"

subsection \<open>State of the publisher (publisher.go)\<close>

record Options =
  BrokerURL :: string
  Username :: string
  Password :: string
  ClientID :: string
  DiscoveryPrefix :: string
  HABirthTopic :: string
  BufferSize :: int
  ConnectTimeout :: duration
  has_Logger :: bool

definition applyDefaults :: "Options \<Rightarrow> Options" where
  "applyDefaults op =
     op\<lparr>ClientID := (if ClientID op = [] then ''briihass'' else ClientID op),
       DiscoveryPrefix := (if DiscoveryPrefix op = [] then ''homeassistant'' else DiscoveryPrefix op),
       HABirthTopic := (if HABirthTopic op = [] then ''homeassistant/status'' else HABirthTopic op),
       BufferSize := (if BufferSize op \<le> 0 then 5000 else BufferSize op),
       ConnectTimeout := (if ConnectTimeout op \<le> 0 then 10 * second else ConnectTimeout op)\<rparr>"

datatype queueItem = QueueEvent PresenceEvent | QueueRemove BeaconKey

record DropInfo =
  di_Kind :: string
  di_Beacon :: BeaconKey
  di_State :: string
  di_APMac :: string

record message =
  msg_topic :: string
  msg_qos :: nat
  msg_retained :: bool
  msg_payload :: string

datatype pub_result = PubOK | PubTimedOut | PubFailed

datatype hook = Dropped DropInfo | MarshalFailed string | HAOnline

datatype mqtt_error =
    BrokerURLRequired
  | CredentialsRequired
  | LoggerRequired
  | ErrQueueFull
  | CtxDone

record Publisher =
  p_opts :: Options
  queue :: "queueItem list"
  queue_cap :: nat
  seen :: "(string, unit) gmap"
  seenIDs :: "(string, BeaconKey) gmap"
  hasVoltage :: "(string, bool) gmap"
  hasTemp :: "(string, bool) gmap"
  dropped :: "64 word"
  pubOK :: "64 word"
  pubErr :: "64 word"
  wire :: "message list"
  hooks :: "hook list"

definition New :: "Options \<Rightarrow> mqtt_error + Publisher" where
  "New opts0 =
     (let opts = applyDefaults opts0 in
      if BrokerURL opts = [] then Inl BrokerURLRequired
      else if Username opts = [] \<or> Password opts = [] then Inl CredentialsRequired
      else if \<not> has_Logger opts then Inl LoggerRequired
      else Inr \<lparr>p_opts = opts, queue = [], queue_cap = nat (BufferSize opts), seen = [], seenIDs = [],
                hasVoltage = [], hasTemp = [], dropped = 0, pubOK = 0, pubErr = 0, wire = [], hooks = []\<rparr>)"

definition call_hook :: "hook \<Rightarrow> Publisher \<Rightarrow> Publisher" where
  "call_hook h p = p\<lparr>hooks := hooks p @ [h]\<rparr>"

definition clearSeen :: "Publisher \<Rightarrow> Publisher" where
  "clearSeen p = p\<lparr>seen := [], seenIDs := [], hasVoltage := [], hasTemp := []\<rparr>"

text \<open>The on-connect handler: announce availability, forget what was announced.\<close>

definition onConnect :: "Publisher \<Rightarrow> Publisher" where
  "onConnect p =
     clearSeen (p\<lparr>wire := wire p @ [\<lparr>msg_topic = bridgeAvailabilityTopic, msg_qos = 1, msg_retained = True,
                                      msg_payload = payloadOnline\<rparr>]\<rparr>)"

definition ResyncDiscovery :: "Publisher \<Rightarrow> Publisher" where
  "ResyncDiscovery p = call_hook HAOnline (clearSeen p)"

definition onBirthMessage :: "string \<Rightarrow> Publisher \<Rightarrow> Publisher" where
  "onBirthMessage body p =
     (if TrimSpace body \<noteq> payloadOnline then p else call_hook HAOnline (clearSeen p))"

subsection \<open>The send queue\<close>

definition dropInfoFrom :: "queueItem \<Rightarrow> DropInfo" where
  "dropInfoFrom item =
     (case item of
        QueueRemove k \<Rightarrow> \<lparr>di_Kind = ''remove'', di_Beacon = k, di_State = [], di_APMac = []\<rparr>
      | QueueEvent ev \<Rightarrow> \<lparr>di_Kind = ''event'', di_Beacon = ev_Beacon ev, di_State = ev_State ev,
                          di_APMac = ev_APMac ev\<rparr>)"

type_synonym env = "queueItem list \<Rightarrow> queueItem list"

definition enqueue :: "env \<Rightarrow> env \<Rightarrow> queueItem \<Rightarrow> Publisher \<Rightarrow> Publisher \<times> bool" where
  "enqueue env1 env2 item p =
     (case try_send (queue_cap p) item (queue p) of
        Some q \<Rightarrow> (p\<lparr>queue := q\<rparr>, True)
      | None \<Rightarrow>
          (let p1 = p\<lparr>queue := env1 (queue p)\<rparr>;
               (p2, droppedOldest) = (case try_recv (queue p1) of
                  None \<Rightarrow> (p1, None)
                | Some (old, q) \<Rightarrow> (p1\<lparr>queue := q, dropped := dropped p1 + 1\<rparr>, Some old));
               p3 = p2\<lparr>queue := env2 (queue p2)\<rparr>
           in case try_send (queue_cap p3) item (queue p3) of
                Some q \<Rightarrow>
                  (let p4 = p3\<lparr>queue := q\<rparr> in
                   case droppedOldest of
                     None \<Rightarrow> (p4, True)
                   | Some old \<Rightarrow> (call_hook (Dropped (dropInfoFrom old)) p4, True))
              | None \<Rightarrow>
                  (call_hook (Dropped (dropInfoFrom item)) (p3\<lparr>dropped := dropped p3 + 1\<rparr>), False)))"

definition Publish :: "env \<Rightarrow> env \<Rightarrow> PresenceEvent \<Rightarrow> Publisher \<Rightarrow> Publisher" where
  "Publish env1 env2 ev p = fst (enqueue env1 env2 (QueueEvent ev) p)"

definition RemoveEntity :: "bool \<Rightarrow> env \<Rightarrow> env \<Rightarrow> BeaconKey \<Rightarrow> Publisher \<Rightarrow> Publisher \<times> mqtt_error option" where
  "RemoveEntity ctx_done env1 env2 k p =
     (if ctx_done then (p, Some CtxDone)
      else (let (p1, ok) = enqueue env1 env2 (QueueRemove k) p
            in (p1, if ok then None else Some ErrQueueFull)))"

subsection \<open>Publishing\<close>

text \<open>What the client answers may depend on everything sent before.\<close>

type_synonym broker_fn = "message list \<Rightarrow> message \<Rightarrow> pub_result"

definition publishOne :: "broker_fn \<Rightarrow> string \<Rightarrow> string \<Rightarrow> bool \<Rightarrow> Publisher \<Rightarrow> Publisher" where
  "publishOne broker topic payload retained p =
     (let m = \<lparr>msg_topic = topic, msg_qos = 0, msg_retained = retained, msg_payload = payload\<rparr>;
          p1 = p\<lparr>wire := wire p @ [m]\<rparr>
      in case broker (wire p) m of
           PubTimedOut \<Rightarrow> p1\<lparr>pubErr := pubErr p1 + 1\<rparr>
         | PubFailed \<Rightarrow> p1\<lparr>pubErr := pubErr p1 + 1\<rparr>
         | PubOK \<Rightarrow> p1\<lparr>pubOK := pubOK p1 + 1\<rparr>)"

definition clear_topics :: "broker_fn \<Rightarrow> string list \<Rightarrow> Publisher \<Rightarrow> Publisher" where
  "clear_topics broker ts p = fold (\<lambda>t p. publishOne broker t [] True p) ts p"

definition handleRemove :: "broker_fn \<Rightarrow> BeaconKey \<Rightarrow> Publisher \<Rightarrow> Publisher" where
  "handleRemove broker k p =
     (let entity = EntityID k; pre = DiscoveryPrefix (p_opts p);
          p1 = p\<lparr>seen := mdel entity (seen p), seenIDs := mdel entity (seenIDs p),
                 hasVoltage := mdel entity (hasVoltage p), hasTemp := mdel entity (hasTemp p)\<rparr>;
          p2 = publishOne broker (deviceConfigTopic pre k) [] True p1;
          p3 = publishOne broker (stateTopic k) [] True p2;
          p4 = publishOne broker (telemetryTopic k) [] True p3
      in clear_topics broker (legacyTopics pre k) p4)"

text \<open>The part of \<open>handle\<close> that publishes the discovery configuration; \<open>None\<close> if it cannot be encoded.\<close>

definition announce ::
    "marshal_fn \<Rightarrow> broker_fn \<Rightarrow> PresenceEvent \<Rightarrow> bool \<Rightarrow> bool \<Rightarrow> bool \<Rightarrow> Publisher \<Rightarrow> Publisher option" where
  "announce marshal broker ev alreadySeen withVoltage withTemp p =
     (let k = ev_Beacon ev; entity = EntityID k; pre = DiscoveryPrefix (p_opts p) in
      case marshal (DocDiscovery (BuildDeviceDiscovery pre ev withVoltage withTemp)) of
        None \<Rightarrow> None
      | Some body \<Rightarrow>
          (let p1 = publishOne broker (deviceConfigTopic pre k) body True p;
               p2 = (if \<not> alreadySeen then clear_topics broker (legacyTopics pre k) p1 else p1)
           in Some (p2\<lparr>seen := mput entity () (seen p2), seenIDs := mput entity k (seenIDs p2),
                       hasVoltage := mput entity withVoltage (hasVoltage p2),
                       hasTemp := mput entity withTemp (hasTemp p2)\<rparr>)))"

definition publish_state :: "marshal_fn \<Rightarrow> broker_fn \<Rightarrow> PresenceEvent \<Rightarrow> Publisher \<Rightarrow> Publisher" where
  "publish_state marshal broker ev p =
     (let p1 = publishOne broker (stateTopic (ev_Beacon ev)) (trackerState (ev_State ev)) True p in
      case marshal (DocState (BuildState ev)) of
        None \<Rightarrow> call_hook (MarshalFailed ''state'') p1
      | Some body \<Rightarrow> publishOne broker (telemetryTopic (ev_Beacon ev)) body True p1)"

definition handle :: "marshal_fn \<Rightarrow> broker_fn \<Rightarrow> PresenceEvent \<Rightarrow> Publisher \<Rightarrow> Publisher" where
  "handle marshal broker ev p =
     (let entity = EntityID (ev_Beacon ev);
          alreadySeen = (mget (seen p) entity \<noteq> None);
          hadVoltage = mget_zero False (hasVoltage p) entity;
          hadTemp = mget_zero False (hasTemp p) entity;
          withVoltage = (hadVoltage \<or> ev_BatteryMV ev \<noteq> None);
          withTemp = (hadTemp \<or> ev_TemperatureC ev \<noteq> None);
          needConfig = (\<not> alreadySeen \<or> withVoltage \<noteq> hadVoltage \<or> withTemp \<noteq> hadTemp)
      in if needConfig then
           (case announce marshal broker ev alreadySeen withVoltage withTemp p of
              None \<Rightarrow> call_hook (MarshalFailed ''discovery'') p
            | Some p1 \<Rightarrow> publish_state marshal broker ev p1)
         else publish_state marshal broker ev p)"

text \<open>One iteration of the drain loop, and the loop over the items that arrive before cancellation.\<close>

definition drain_step :: "marshal_fn \<Rightarrow> broker_fn \<Rightarrow> Publisher \<Rightarrow> Publisher" where
  "drain_step marshal broker p =
     (case try_recv (queue p) of
        None \<Rightarrow> p
      | Some (item, q) \<Rightarrow>
          (case item of
             QueueRemove k \<Rightarrow> handleRemove broker k (p\<lparr>queue := q\<rparr>)
           | QueueEvent ev \<Rightarrow> handle marshal broker ev (p\<lparr>queue := q\<rparr>)))"

definition Publisher_Run :: "marshal_fn \<Rightarrow> broker_fn \<Rightarrow> nat \<Rightarrow> Publisher \<Rightarrow> Publisher" where
  "Publisher_Run marshal broker n p = (drain_step marshal broker ^^ n) p"

definition orphan_keys :: "BeaconKey list \<Rightarrow> Publisher \<Rightarrow> BeaconKey list" where
  "orphan_keys known p =
     map snd (filter (\<lambda>(entity, k). entity \<notin> EntityID ` set known) (seenIDs p))"

text \<open>The loop of \<open>RepublishOrphans\<close>: count of removes enqueued and the first error.\<close>

fun remove_all :: "(BeaconKey \<Rightarrow> env \<times> env) \<Rightarrow> BeaconKey list \<Rightarrow> Publisher \<Rightarrow> nat \<Rightarrow> mqtt_error option
    \<Rightarrow> Publisher \<times> nat \<times> mqtt_error option" where
  "remove_all envs [] p n err = (p, n, err)"
| "remove_all envs (k # ks) p n err =
     (let (p1, ok) = enqueue (fst (envs k)) (snd (envs k)) (QueueRemove k) p in
      if \<not> ok then remove_all envs ks p1 n (if err = None then Some ErrQueueFull else err)
      else remove_all envs ks p1 (n + 1) err)"

definition RepublishOrphans :: "bool \<Rightarrow> (BeaconKey \<Rightarrow> env \<times> env) \<Rightarrow> BeaconKey list \<Rightarrow> Publisher
    \<Rightarrow> Publisher \<times> nat \<times> mqtt_error option" where
  "RepublishOrphans ctx_done envs known p =
     (if ctx_done then (p, 0, Some CtxDone)
      else remove_all envs (orphan_keys known p) p 0 None)"

record Stats =
  QueueDepth :: nat
  QueueCapacity :: nat
  st_Dropped :: "64 word"
  PublishOK :: "64 word"
  PublishErr :: "64 word"
  Connected :: bool

definition Publisher_Stats :: "bool \<Rightarrow> Publisher \<Rightarrow> Stats" where
  "Publisher_Stats conn p =
     \<lparr>QueueDepth = length (queue p), QueueCapacity = queue_cap p, st_Dropped = dropped p,
      PublishOK = pubOK p, PublishErr = pubErr p, Connected = conn\<rparr>"

subsection \<open>The send queue keeps the drop-oldest contract\<close>

interpretation sendq: drop_oldest_queue "\<lambda>env1 env2 item p. fst (enqueue env1 env2 item p)" queue queue_cap dropped
  by unfold_locales
    (auto simp: enqueue_def drop_oldest_def try_send_def call_hook_def Let_def split: option.split)

lemma enqueue_ok: "snd (enqueue env1 env2 item p) = snd (snd (drop_oldest (queue_cap p) env1 env2 item (queue p)))"
  by (auto simp: enqueue_def drop_oldest_def try_send_def Let_def split: option.split)

lemma enqueue_keeps [simp]:
  "p_opts (fst (enqueue env1 env2 item p)) = p_opts p"
  "seen (fst (enqueue env1 env2 item p)) = seen p"
  "seenIDs (fst (enqueue env1 env2 item p)) = seenIDs p"
  "hasVoltage (fst (enqueue env1 env2 item p)) = hasVoltage p"
  "hasTemp (fst (enqueue env1 env2 item p)) = hasTemp p"
  "wire (fst (enqueue env1 env2 item p)) = wire p"
  by (simp_all add: enqueue_def call_hook_def Let_def split: option.split prod.split)

lemma enqueue_room: "length (queue p) < queue_cap p \<Longrightarrow> enqueue env1 env2 item p = (p\<lparr>queue := queue p @ [item]\<rparr>, True)"
  by (simp add: enqueue_def try_send_def)

end
