(* ===== verification/Mqtt_Broker.thy ===== *)
theory Mqtt_Broker
  imports Mqtt
begin

section \<open>What Home Assistant finds at the broker\<close>

text \<open>
  The publisher is correct if the retained messages at the broker describe what it was told.
  \<open>deliver\<close> is the broker's documented treatment of a retained message: it replaces the one
  stored for its topic, and an empty payload deletes it. \<open>pub_step\<close> is one action of the
  publisher together with its effect on the broker's store; \<open>pub_inv\<close> is the invariant of
  all states it can reach: whatever is marked as announced is retained at the broker, with the
  sensors that \<open>hasVoltage\<close> and \<open>hasTemp\<close> record.
\<close>

declare map_of_eq_Some_iff [simp del]

type_synonym store = "string \<Rightarrow> string option"

definition deliver :: "message \<Rightarrow> store \<Rightarrow> store" where
  "deliver m s =
     (if msg_retained m then s(msg_topic m := (if msg_payload m = [] then None else Some (msg_payload m))) else s)"

text \<open>Only what the broker acknowledges reaches its store.\<close>

fun deliver_all :: "broker_fn \<Rightarrow> message list \<Rightarrow> message list \<Rightarrow> store \<Rightarrow> store" where
  "deliver_all broker sent [] s = s"
| "deliver_all broker sent (m # ms) s =
     deliver_all broker (sent @ [m]) ms (if broker sent m = PubOK then deliver m s else s)"

definition broker_store :: "broker_fn \<Rightarrow> Publisher \<Rightarrow> Publisher \<Rightarrow> store \<Rightarrow> store" where
  "broker_store broker p p' s = deliver_all broker (wire p) (drop (length (wire p)) (wire p')) s"

definition process :: "marshal_fn \<Rightarrow> broker_fn \<Rightarrow> queueItem \<Rightarrow> Publisher \<Rightarrow> Publisher" where
  "process marshal broker item p =
     (case item of QueueRemove k \<Rightarrow> handleRemove broker k p | QueueEvent ev \<Rightarrow> handle marshal broker ev p)"

lemma drain_step_process:
  "drain_step marshal broker p =
     (case try_recv (queue p) of None \<Rightarrow> p | Some (item, q) \<Rightarrow> process marshal broker item (p\<lparr>queue := q\<rparr>))"
  by (simp add: drain_step_def process_def split: option.split prod.split queueItem.split)

subsection \<open>The messages of each operation\<close>

abbreviation rmsg :: "string \<Rightarrow> string \<Rightarrow> message" where
  "rmsg topic payload \<equiv> \<lparr>msg_topic = topic, msg_qos = 0, msg_retained = True, msg_payload = payload\<rparr>"

lemma publishOne_simps [simp]:
  "wire (publishOne broker topic payload True p) = wire p @ [rmsg topic payload]"
  "p_opts (publishOne broker topic payload r p) = p_opts p"
  "seen (publishOne broker topic payload r p) = seen p"
  "seenIDs (publishOne broker topic payload r p) = seenIDs p"
  "hasVoltage (publishOne broker topic payload r p) = hasVoltage p"
  "hasTemp (publishOne broker topic payload r p) = hasTemp p"
  "queue (publishOne broker topic payload r p) = queue p"
  "queue_cap (publishOne broker topic payload r p) = queue_cap p"
  "hooks (publishOne broker topic payload r p) = hooks p"
  by (simp_all add: publishOne_def Let_def split: pub_result.split)

lemma clear_topics_simps [simp]:
  "wire (clear_topics broker ts p) = wire p @ map (\<lambda>t. rmsg t []) ts"
  "p_opts (clear_topics broker ts p) = p_opts p"
  "seen (clear_topics broker ts p) = seen p"
  "seenIDs (clear_topics broker ts p) = seenIDs p"
  "hasVoltage (clear_topics broker ts p) = hasVoltage p"
  "hasTemp (clear_topics broker ts p) = hasTemp p"
  "queue (clear_topics broker ts p) = queue p"
  "queue_cap (clear_topics broker ts p) = queue_cap p"
  "hooks (clear_topics broker ts p) = hooks p"
  by (induction ts arbitrary: p) (simp_all add: clear_topics_def)

lemma call_hook_simps [simp]:
  "wire (call_hook h p) = wire p" "p_opts (call_hook h p) = p_opts p" "seen (call_hook h p) = seen p"
  "seenIDs (call_hook h p) = seenIDs p" "hasVoltage (call_hook h p) = hasVoltage p"
  "hasTemp (call_hook h p) = hasTemp p" "queue (call_hook h p) = queue p"
  "queue_cap (call_hook h p) = queue_cap p" "hooks (call_hook h p) = hooks p @ [h]"
  by (simp_all add: call_hook_def)

lemma clearSeen_simps [simp]:
  "wire (clearSeen p) = wire p" "p_opts (clearSeen p) = p_opts p" "seen (clearSeen p) = []"
  "seenIDs (clearSeen p) = []" "hasVoltage (clearSeen p) = []" "hasTemp (clearSeen p) = []"
  "queue (clearSeen p) = queue p" "queue_cap (clearSeen p) = queue_cap p" "hooks (clearSeen p) = hooks p"
  by (simp_all add: clearSeen_def)

text \<open>The topics that belong to an entity.\<close>

definition entity_topics :: "string \<Rightarrow> BeaconKey \<Rightarrow> string list" where
  "entity_topics pre k =
     [deviceConfigTopic pre k, stateTopic k, telemetryTopic k] @ legacyTopics pre k"

lemma handleRemove_simps [simp]:
  "wire (handleRemove broker k p) = wire p @ map (\<lambda>t. rmsg t []) (entity_topics (DiscoveryPrefix (p_opts p)) k)"
  "p_opts (handleRemove broker k p) = p_opts p"
  "seen (handleRemove broker k p) = mdel (EntityID k) (seen p)"
  "seenIDs (handleRemove broker k p) = mdel (EntityID k) (seenIDs p)"
  "hasVoltage (handleRemove broker k p) = mdel (EntityID k) (hasVoltage p)"
  "hasTemp (handleRemove broker k p) = mdel (EntityID k) (hasTemp p)"
  "queue (handleRemove broker k p) = queue p"
  "queue_cap (handleRemove broker k p) = queue_cap p"
  by (simp_all add: handleRemove_def entity_topics_def Let_def)

lemma publish_state_simps [simp]:
  "p_opts (publish_state marshal broker ev p) = p_opts p"
  "seen (publish_state marshal broker ev p) = seen p"
  "seenIDs (publish_state marshal broker ev p) = seenIDs p"
  "hasVoltage (publish_state marshal broker ev p) = hasVoltage p"
  "hasTemp (publish_state marshal broker ev p) = hasTemp p"
  "queue (publish_state marshal broker ev p) = queue p"
  "queue_cap (publish_state marshal broker ev p) = queue_cap p"
  by (simp_all add: publish_state_def Let_def split: option.split)

definition state_msgs :: "marshal_fn \<Rightarrow> PresenceEvent \<Rightarrow> message list" where
  "state_msgs marshal ev =
     rmsg (stateTopic (ev_Beacon ev)) (trackerState (ev_State ev)) #
     (case marshal (DocState (BuildState ev)) of
        None \<Rightarrow> [] | Some body \<Rightarrow> [rmsg (telemetryTopic (ev_Beacon ev)) body])"

lemma publish_state_wire [simp]: "wire (publish_state marshal broker ev p) = wire p @ state_msgs marshal ev"
  by (simp add: publish_state_def state_msgs_def Let_def split: option.split)

lemma announce_Some:
  assumes "announce marshal broker ev old wv wt p = Some p1"
  obtains body where "marshal (DocDiscovery (BuildDeviceDiscovery (DiscoveryPrefix (p_opts p)) ev wv wt)) = Some body"
    and "wire p1 = wire p @ rmsg (deviceConfigTopic (DiscoveryPrefix (p_opts p)) (ev_Beacon ev)) body #
           (if old then [] else map (\<lambda>t. rmsg t []) (legacyTopics (DiscoveryPrefix (p_opts p)) (ev_Beacon ev)))"
    and "p_opts p1 = p_opts p" "queue p1 = queue p" "queue_cap p1 = queue_cap p"
    and "seen p1 = mput (EntityID (ev_Beacon ev)) () (seen p)"
    and "seenIDs p1 = mput (EntityID (ev_Beacon ev)) (ev_Beacon ev) (seenIDs p)"
    and "hasVoltage p1 = mput (EntityID (ev_Beacon ev)) wv (hasVoltage p)"
    and "hasTemp p1 = mput (EntityID (ev_Beacon ev)) wt (hasTemp p)"
  using assms by (auto simp: announce_def Let_def split: option.splits)

subsection \<open>Topics do not overlap\<close>

lemma topic_last [simp]:
  "last (deviceConfigTopic pre k) = CHR ''g''"
  "last (stateTopic k) = CHR ''e''"
  "last (telemetryTopic k) = CHR ''y''"
  by (simp_all add: deviceConfigTopic_def stateTopic_def telemetryTopic_def)

lemma topic_inj [simp]:
  "deviceConfigTopic pre k = deviceConfigTopic pre k' \<longleftrightarrow> EntityID k = EntityID k'"
  "stateTopic k = stateTopic k' \<longleftrightarrow> EntityID k = EntityID k'"
  "telemetryTopic k = telemetryTopic k' \<longleftrightarrow> EntityID k = EntityID k'"
  by (simp_all add: deviceConfigTopic_def stateTopic_def telemetryTopic_def)

lemma last_neq: "last xs \<noteq> last ys \<Longrightarrow> xs \<noteq> ys"
  by auto

lemma topic_kinds [simp]:
  "deviceConfigTopic pre k \<noteq> stateTopic k'" "stateTopic k' \<noteq> deviceConfigTopic pre k"
  "deviceConfigTopic pre k \<noteq> telemetryTopic k'" "telemetryTopic k' \<noteq> deviceConfigTopic pre k"
  "stateTopic k \<noteq> telemetryTopic k'" "telemetryTopic k' \<noteq> stateTopic k"
  by (rule last_neq, simp)+

lemma legacy_no_config: "deviceConfigTopic pre k \<notin> set (legacyTopics pre k')"
  by (auto simp: legacyTopics_def deviceConfigTopic_def Let_def dest: arg_cong [where f = last])

lemma legacy_no_telemetry: "telemetryTopic k \<notin> set (legacyTopics pre k')"
  by (auto simp: legacyTopics_def telemetryTopic_def Let_def dest: arg_cong [where f = last])

text \<open>A topic of the form \<open>briihass/<entity>/state\<close> has two slashes, a legacy topic at least three.\<close>

lemma no_slash_EntityID: "valid_key k \<Longrightarrow> count_list (EntityID k) (CHR ''/'') = 0"
  using EntityID_safe [of k]
  by (induction "EntityID k") (auto simp: list_all_iff label_char_def safe_rune_def in_range_def count_list_0_iff)

lemma count_list_append: "count_list (xs @ ys) x = count_list xs x + count_list ys x"
  by (induction xs) auto

lemma legacy_no_state:
  assumes "valid_key k"
  shows "stateTopic k \<notin> set (legacyTopics pre k')"
proof
  assume "stateTopic k \<in> set (legacyTopics pre k')"
  then obtain suffix where "stateTopic k = pre @ ''/device_tracker/'' @ EntityID k' @ suffix" "CHR ''/'' \<in> set suffix"
    by (fastforce simp: legacyTopics_def Let_def)
  then have "count_list (stateTopic k) (CHR ''/'') \<ge> 3"
    by (simp add: count_list_append) (metis One_nat_def Suc_leI add_leE count_list_0_iff gr0I trans_le_add2)
  with no_slash_EntityID [OF assms] show False by (simp add: stateTopic_def count_list_append)
qed

lemma legacy_inj:
  "t \<in> set (legacyTopics pre k) \<Longrightarrow> t \<in> set (legacyTopics pre k') \<Longrightarrow> EntityID k = EntityID k'"
  by (auto simp: legacyTopics_def Let_def)

lemma availability_no_entity: "bridgeAvailabilityTopic \<notin> set (entity_topics pre k)"
proof -
  have "last (butlast bridgeAvailabilityTopic) = CHR ''t''" "last (butlast (telemetryTopic k)) = CHR ''r''"
    by (simp_all add: bridgeAvailabilityTopic_def telemetryTopic_def butlast_append)
  then have "bridgeAvailabilityTopic \<noteq> telemetryTopic k" by auto
  moreover have "last bridgeAvailabilityTopic = CHR ''y''" by (simp add: bridgeAvailabilityTopic_def)
  ultimately show ?thesis
    by (auto simp: entity_topics_def legacyTopics_def Let_def dest: arg_cong [where f = last])
qed

lemma entity_topics_disjoint:
  assumes "valid_key k" "valid_key k'" "EntityID k \<noteq> EntityID k'" "t \<in> set (entity_topics pre k)"
  shows "t \<notin> set (entity_topics pre k')"
  using assms(3,4)
  by (auto simp: entity_topics_def legacy_no_config legacy_no_telemetry legacy_no_state assms(1,2) dest: legacy_inj)

text \<open>
  The topics of two entities with different ids never coincide: what is published or
  cleared for one beacon cannot touch another, and no topic of an entity is the bridge's
  availability topic.
\<close>

theorem topics_disjoint:
  assumes "valid_key k" "valid_key k'" "EntityID k \<noteq> EntityID k'"
  shows "set (entity_topics pre k) \<inter> set (entity_topics pre k') = {} \<and>
    bridgeAvailabilityTopic \<notin> set (entity_topics pre k)"
  using entity_topics_disjoint [OF assms] availability_no_entity by blast

theorem topics_disjoint_witness:
  "let k = mk_key KindName ''fob''; k' = mk_key KindEddystoneURL ''fob'' in
   set (entity_topics ''homeassistant'' k) \<inter> set (entity_topics ''homeassistant'' k') = {}"
proof -
  let ?k = "mk_key KindName ''fob''" and ?k' = "mk_key KindEddystoneURL ''fob''"
  have v: "valid_key ?k" "valid_key ?k'" by (simp_all add: valid_key_def knownKinds_def kind_defs)
  have "EntityID ?k \<noteq> EntityID ?k'"
    using EntityID_same_kind [OF v] by (auto simp: kind_defs mk_key_def)
  from topics_disjoint [OF v this] show ?thesis by (simp add: Let_def)
qed

subsection \<open>Handling an event\<close>

definition wantVoltage :: "Publisher \<Rightarrow> PresenceEvent \<Rightarrow> bool" where
  "wantVoltage p ev \<longleftrightarrow> mget_zero False (hasVoltage p) (EntityID (ev_Beacon ev)) \<or> ev_BatteryMV ev \<noteq> None"

definition wantTemp :: "Publisher \<Rightarrow> PresenceEvent \<Rightarrow> bool" where
  "wantTemp p ev \<longleftrightarrow> mget_zero False (hasTemp p) (EntityID (ev_Beacon ev)) \<or> ev_TemperatureC ev \<noteq> None"

definition config_doc :: "Publisher \<Rightarrow> PresenceEvent \<Rightarrow> document" where
  "config_doc p ev =
     DocDiscovery (BuildDeviceDiscovery (DiscoveryPrefix (p_opts p)) ev (wantVoltage p ev) (wantTemp p ev))"

text \<open>The three ways \<open>handle\<close> goes: config not encodable, config (re)published, config already current.\<close>

lemma handle_cases:
  obtains (failed) "marshal (config_doc p ev) = None"
      "handle marshal broker ev p = call_hook (MarshalFailed ''discovery'') p"
  | (announced) p1 where
      "announce marshal broker ev (mget (seen p) (EntityID (ev_Beacon ev)) \<noteq> None) (wantVoltage p ev) (wantTemp p ev) p
         = Some p1"
      "handle marshal broker ev p = publish_state marshal broker ev p1"
  | (current) "mget (seen p) (EntityID (ev_Beacon ev)) \<noteq> None"
      "wantVoltage p ev = mget_zero False (hasVoltage p) (EntityID (ev_Beacon ev))"
      "wantTemp p ev = mget_zero False (hasTemp p) (EntityID (ev_Beacon ev))"
      "handle marshal broker ev p = publish_state marshal broker ev p"
proof -
  let ?e = "EntityID (ev_Beacon ev)"
  let ?old = "mget (seen p) ?e \<noteq> None"
  let ?need = "\<not> ?old \<or> wantVoltage p ev \<noteq> mget_zero False (hasVoltage p) ?e
                \<or> wantTemp p ev \<noteq> mget_zero False (hasTemp p) ?e"
  let ?a = "announce marshal broker ev ?old (wantVoltage p ev) (wantTemp p ev) p"
  have eq: "handle marshal broker ev p =
      (if ?need then (case ?a of None \<Rightarrow> call_hook (MarshalFailed ''discovery'') p
                               | Some p1 \<Rightarrow> publish_state marshal broker ev p1)
       else publish_state marshal broker ev p)"
    by (simp add: handle_def wantVoltage_def wantTemp_def Let_def)
  show thesis
  proof (cases ?need)
    case True
    then show ?thesis
      using eq failed announced by (cases ?a) (auto simp: announce_def config_doc_def Let_def split: option.splits)
  next
    case False
    then show ?thesis using eq current by auto
  qed
qed

lemma deliver_all_ok:
  "(\<And>h m. broker h m = PubOK) \<Longrightarrow> deliver_all broker sent ms s = fold deliver ms s"
  by (induction ms arbitrary: sent s) simp_all

lemma fold_clear:
  "fold deliver (map (\<lambda>t. rmsg t []) ts) s x = (if x \<in> set ts then None else s x)"
  by (induction ts arbitrary: s) (auto simp: deliver_def)

text \<open>
  What Home Assistant needs to see after an event: the tracker's bare state, the telemetry
  document, and a discovery document for the entity with the sensors declared so far.
\<close>

definition declares :: "marshal_fn \<Rightarrow> Publisher \<Rightarrow> store \<Rightarrow> string \<Rightarrow> bool" where
  "declares marshal p s e \<longleftrightarrow>
     (\<exists>ev b. EntityID (ev_Beacon ev) = e \<and>
        marshal (DocDiscovery (BuildDeviceDiscovery (DiscoveryPrefix (p_opts p)) ev
          (mget_zero False (hasVoltage p) e) (mget_zero False (hasTemp p) e))) = Some b \<and>
        s (deviceConfigTopic (DiscoveryPrefix (p_opts p)) (ev_Beacon ev)) = Some b)"

definition asserts :: "marshal_fn \<Rightarrow> Publisher \<Rightarrow> store \<Rightarrow> PresenceEvent \<Rightarrow> bool" where
  "asserts marshal p s ev \<longleftrightarrow>
     mget (seen p) (EntityID (ev_Beacon ev)) \<noteq> None \<and>
     declares marshal p s (EntityID (ev_Beacon ev)) \<and>
     s (stateTopic (ev_Beacon ev)) = Some (trackerState (ev_State ev)) \<and>
     s (telemetryTopic (ev_Beacon ev)) = marshal (DocState (BuildState ev))"

text \<open>JSON encoding succeeds, and no JSON text is empty.\<close>

definition marshals :: "marshal_fn \<Rightarrow> bool" where
  "marshals marshal \<longleftrightarrow> (\<forall>d. \<exists>b. marshal d = Some b \<and> b \<noteq> [])"

lemma marshals_nonempty: "marshals marshal \<Longrightarrow> marshal d = Some b \<Longrightarrow> b \<noteq> []"
  unfolding marshals_def by (metis option.inject)

lemma trackerState_nonempty [simp]: "trackerState x \<noteq> []"
  by (simp add: trackerState_def trackerHome_def trackerNotHome_def)

lemma state_msgs_store:
  assumes "marshals marshal"
  shows "fold deliver (state_msgs marshal ev) s =
    s(stateTopic (ev_Beacon ev) := Some (trackerState (ev_State ev)),
      telemetryTopic (ev_Beacon ev) := marshal (DocState (BuildState ev)))"
proof -
  obtain b where "marshal (DocState (BuildState ev)) = Some b" "b \<noteq> []" using assms by (auto simp: marshals_def)
  then show ?thesis by (simp add: state_msgs_def deliver_def)
qed

text \<open>The invariant that ties the record of announcements to the broker's store.\<close>

definition pub_inv :: "marshal_fn \<Rightarrow> Publisher \<Rightarrow> store \<Rightarrow> bool" where
  "pub_inv marshal p s \<longleftrightarrow>
     0 < queue_cap p \<and> length (queue p) \<le> queue_cap p \<and> mwf (seenIDs p) \<and>
     (\<forall>e. (mget (seenIDs p) e \<noteq> None) = (mget (seen p) e \<noteq> None)) \<and>
     (\<forall>e k. mget (seenIDs p) e = Some k \<longrightarrow> EntityID k = e) \<and>
     (\<forall>e. mget (seen p) e \<noteq> None \<longrightarrow> declares marshal p s e)"

lemma pub_inv_simps:
  assumes "pub_inv marshal p s"
  shows "0 < queue_cap p" "length (queue p) \<le> queue_cap p" "mwf (seenIDs p)"
    and "\<And>e. (mget (seenIDs p) e \<noteq> None) = (mget (seen p) e \<noteq> None)"
    and "\<And>e k. mget (seenIDs p) e = Some k \<Longrightarrow> EntityID k = e"
    and "\<And>e. mget (seen p) e \<noteq> None \<Longrightarrow> declares marshal p s e"
  using assms unfolding pub_inv_def by blast+

lemma declares_other:
  assumes "declares marshal p s e" "p_opts p' = p_opts p"
    and "mget_zero False (hasVoltage p') e = mget_zero False (hasVoltage p) e"
    and "mget_zero False (hasTemp p') e = mget_zero False (hasTemp p) e"
    and "\<And>k. EntityID k = e \<Longrightarrow> s' (deviceConfigTopic (DiscoveryPrefix (p_opts p)) k)
           = s (deviceConfigTopic (DiscoveryPrefix (p_opts p)) k)"
  shows "declares marshal p' s' e"
proof -
  obtain ev b where "EntityID (ev_Beacon ev) = e"
      "marshal (DocDiscovery (BuildDeviceDiscovery (DiscoveryPrefix (p_opts p)) ev
          (mget_zero False (hasVoltage p) e) (mget_zero False (hasTemp p) e))) = Some b"
      "s (deviceConfigTopic (DiscoveryPrefix (p_opts p)) (ev_Beacon ev)) = Some b"
    using assms(1) by (auto simp: declares_def)
  then show ?thesis using assms(2-) unfolding declares_def by (intro exI [of _ ev] exI [of _ b]) simp
qed

lemma broker_store_ok:
  assumes "\<And>h m. broker h m = PubOK" "wire p' = wire p @ ms"
  shows "broker_store broker p p' s = fold deliver ms s"
  by (simp add: broker_store_def assms deliver_all_ok)

lemma fold_deliver_append: "fold deliver (xs @ ys) s = fold deliver ys (fold deliver xs s)"
  by simp

text \<open>An announcement keeps the invariant and declares the entity.\<close>

lemma announce_inv:
  assumes inv: "pub_inv marshal p s" and m: "marshals marshal"
    and a: "announce marshal broker ev old (wantVoltage p ev) (wantTemp p ev) p = Some p1"
  obtains ms s' where "wire p1 = wire p @ ms" "fold deliver ms s = s'" "pub_inv marshal p1 s'"
    "mget (seen p1) (EntityID (ev_Beacon ev)) \<noteq> None"
    "\<And>t. t \<notin> set (entity_topics (DiscoveryPrefix (p_opts p)) (ev_Beacon ev)) \<Longrightarrow> s' t = s t"
    "p_opts p1 = p_opts p" "queue_cap p1 = queue_cap p" "queue p1 = queue p"
proof -
  let ?k = "ev_Beacon ev" and ?pre = "DiscoveryPrefix (p_opts p)"
  obtain body where body: "marshal (DocDiscovery (BuildDeviceDiscovery ?pre ev (wantVoltage p ev) (wantTemp p ev))) = Some body"
    and w: "wire p1 = wire p @ rmsg (deviceConfigTopic ?pre ?k) body # (if old then [] else map (\<lambda>t. rmsg t []) (legacyTopics ?pre ?k))"
    and f: "p_opts p1 = p_opts p" "queue p1 = queue p" "queue_cap p1 = queue_cap p"
      "seen p1 = mput (EntityID ?k) () (seen p)" "seenIDs p1 = mput (EntityID ?k) ?k (seenIDs p)"
      "hasVoltage p1 = mput (EntityID ?k) (wantVoltage p ev) (hasVoltage p)"
      "hasTemp p1 = mput (EntityID ?k) (wantTemp p ev) (hasTemp p)"
    by (rule announce_Some [OF a])
  let ?ms = "rmsg (deviceConfigTopic ?pre ?k) body # (if old then [] else map (\<lambda>t. rmsg t []) (legacyTopics ?pre ?k))"
  define s' where "s' = fold deliver ?ms s"
  have "body \<noteq> []" using m body by (rule marshals_nonempty)
  then have st: "s' t = (if t = deviceConfigTopic ?pre ?k then Some body
        else if \<not> old \<and> t \<in> set (legacyTopics ?pre ?k) then None else s t)" for t
    using legacy_no_config by (simp add: s'_def fold_clear deliver_def)
  have "declares marshal p1 s' e" if "mget (seen p1) e \<noteq> None" for e
  proof (cases "e = EntityID ?k")
    case True
    then show ?thesis
      unfolding declares_def using body
      by (intro exI [of _ ev] exI [of _ body]) (simp add: st f mget_zero_def mget_mput)
  next
    case False
    then have "mget (seen p) e \<noteq> None" using that by (simp add: f mget_mput)
    then have "declares marshal p s e" by (rule pub_inv_simps(6) [OF inv])
    then show ?thesis
      by (rule declares_other) (use False in \<open>auto simp: st f mget_zero_def mget_mput legacy_no_config\<close>)
  qed
  moreover note pub_inv_simps(1-5) [OF inv]
  ultimately have "pub_inv marshal p1 s'"
    unfolding pub_inv_def by (auto simp: f mget_mput split: if_splits)
  then show thesis
    by (rule that [OF w s'_def [symmetric]]) (simp_all add: f mget_mput st entity_topics_def)
qed

lemma publish_state_inv:
  assumes "pub_inv marshal p s" "marshals marshal" "mget (seen p) (EntityID (ev_Beacon ev)) \<noteq> None"
  shows "pub_inv marshal (publish_state marshal broker ev p) (fold deliver (state_msgs marshal ev) s)"
    and "asserts marshal (publish_state marshal broker ev p) (fold deliver (state_msgs marshal ev) s) ev"
proof -
  have "declares marshal (publish_state marshal broker ev p) (fold deliver (state_msgs marshal ev) s) e"
    if "mget (seen p) e \<noteq> None" for e
    using pub_inv_simps(6) [OF assms(1) that]
    by (rule declares_other) (simp_all add: state_msgs_store [OF assms(2)])
  then show "pub_inv marshal (publish_state marshal broker ev p) (fold deliver (state_msgs marshal ev) s)"
    and "asserts marshal (publish_state marshal broker ev p) (fold deliver (state_msgs marshal ev) s) ev"
    using pub_inv_simps(1-5) [OF assms(1)] assms(3)
    unfolding pub_inv_def asserts_def by (simp_all add: state_msgs_store [OF assms(2)])
qed

lemma handle_asserts:
  assumes inv: "pub_inv marshal p s" and m: "marshals marshal" and ok: "\<And>h m. broker h m = PubOK"
    and p'_def: "p' = handle marshal broker ev p" and s'_def: "s' = broker_store broker p p' s"
  shows "pub_inv marshal p' s'" and "asserts marshal p' s' ev"
    and "t \<notin> set (entity_topics (DiscoveryPrefix (p_opts p)) (ev_Beacon ev)) \<Longrightarrow> s' t = s t"
    and "queue p' = queue p" "queue_cap p' = queue_cap p" "p_opts p' = p_opts p"
proof -
  let ?ok = "pub_inv marshal p' s' \<and> asserts marshal p' s' ev \<and> queue p' = queue p \<and> queue_cap p' = queue_cap p \<and>
    p_opts p' = p_opts p \<and> (\<forall>t. t \<notin> set (entity_topics (DiscoveryPrefix (p_opts p)) (ev_Beacon ev)) \<longrightarrow> s' t = s t)"
  have ?ok
  proof (rule handle_cases [of marshal p ev broker])
    assume "marshal (config_doc p ev) = None"
    then show ?thesis using m unfolding marshals_def by (metis option.discI)
  next
    fix p1
    assume a: "announce marshal broker ev (mget (seen p) (EntityID (ev_Beacon ev)) \<noteq> None) (wantVoltage p ev) (wantTemp p ev) p
         = Some p1"
      and h: "handle marshal broker ev p = publish_state marshal broker ev p1"
    obtain ms s1 where p1: "wire p1 = wire p @ ms" "fold deliver ms s = s1" "pub_inv marshal p1 s1"
        "mget (seen p1) (EntityID (ev_Beacon ev)) \<noteq> None"
        "\<And>t. t \<notin> set (entity_topics (DiscoveryPrefix (p_opts p)) (ev_Beacon ev)) \<Longrightarrow> s1 t = s t"
        "p_opts p1 = p_opts p" "queue_cap p1 = queue_cap p" "queue p1 = queue p"
      using announce_inv [OF inv m a] by metis
    have "s' = fold deliver (state_msgs marshal ev) s1"
      unfolding s'_def p'_def h p1(2) [symmetric] fold_deliver_append [symmetric]
      by (rule broker_store_ok [OF ok]) (simp add: p1)
    then show ?thesis
      using publish_state_inv [OF p1(3) m p1(4), of broker] p1
      by (simp add: p'_def h state_msgs_store [OF m] entity_topics_def)
  next
    assume old: "mget (seen p) (EntityID (ev_Beacon ev)) \<noteq> None"
      and h: "handle marshal broker ev p = publish_state marshal broker ev p"
    have "s' = fold deliver (state_msgs marshal ev) s"
      unfolding s'_def p'_def h by (rule broker_store_ok [OF ok]) simp
    then show ?thesis
      using publish_state_inv [OF inv m old, of broker]
      by (simp add: p'_def h state_msgs_store [OF m] entity_topics_def)
  qed
  then show "pub_inv marshal p' s'" and "asserts marshal p' s' ev"
    and "t \<notin> set (entity_topics (DiscoveryPrefix (p_opts p)) (ev_Beacon ev)) \<Longrightarrow> s' t = s t"
    and "queue p' = queue p" "queue_cap p' = queue_cap p" "p_opts p' = p_opts p"
    by blast+
qed

lemma config_not_in_topics:
  "EntityID k \<noteq> EntityID k' \<Longrightarrow> deviceConfigTopic pre k \<notin> set (entity_topics pre k')"
  by (simp add: entity_topics_def legacy_no_config)

lemma handleRemove_store:
  assumes ok: "\<And>h m. broker h m = PubOK"
  shows "broker_store broker p (handleRemove broker k p) s t =
    (if t \<in> set (entity_topics (DiscoveryPrefix (p_opts p)) k) then None else s t)"
proof -
  let ?ms = "map (\<lambda>t. rmsg t []) (entity_topics (DiscoveryPrefix (p_opts p)) k)"
  have "broker_store broker p (handleRemove broker k p) s = fold deliver ?ms s"
    by (rule broker_store_ok [OF ok]) simp
  then show ?thesis by (simp add: fold_clear)
qed

lemma handleRemove_inv:
  assumes inv: "pub_inv marshal p s" and ok: "\<And>h m. broker h m = PubOK"
  shows "pub_inv marshal (handleRemove broker k p) (broker_store broker p (handleRemove broker k p) s)"
proof -
  define p' where "p' = handleRemove broker k p"
  define s' where "s' = broker_store broker p p' s"
  have f: "seen p' = mdel (EntityID k) (seen p)" "seenIDs p' = mdel (EntityID k) (seenIDs p)"
      "hasVoltage p' = mdel (EntityID k) (hasVoltage p)" "hasTemp p' = mdel (EntityID k) (hasTemp p)"
      "queue p' = queue p" "queue_cap p' = queue_cap p" "p_opts p' = p_opts p"
    by (simp_all add: p'_def)
  have st: "s' t = (if t \<in> set (entity_topics (DiscoveryPrefix (p_opts p)) k) then None else s t)" for t
    by (simp only: s'_def p'_def handleRemove_store [OF ok])
  have d: "declares marshal p' s' e" if "mget (seen p') e \<noteq> None" for e
  proof -
    have ne: "e \<noteq> EntityID k" using that by (auto simp: f mget_mdel)
    then have "mget (seen p) e \<noteq> None" using that by (simp add: f mget_mdel)
    from pub_inv_simps(6) [OF inv this] show ?thesis
      by (rule declares_other)
         (use ne in \<open>simp_all add: f st config_not_in_topics mget_zero_def mget_mdel\<close>)
  qed
  have b: "(mget (seenIDs p') e \<noteq> None) = (mget (seen p') e \<noteq> None)" for e
    using pub_inv_simps(4) [OF inv, of e] by (simp add: f mget_mdel)
  have c: "EntityID k' = e" if "mget (seenIDs p') e = Some k'" for e k'
    using that pub_inv_simps(5) [OF inv, of e k'] by (simp add: f mget_mdel split: if_splits)
  have "mwf (seenIDs p')" using pub_inv_simps(3) [OF inv] by (simp add: f)
  then have "pub_inv marshal p' s'"
    unfolding pub_inv_def f(5,6) using pub_inv_simps(1,2) [OF inv] b c d by blast
  then show ?thesis by (simp only: s'_def p'_def)
qed

subsection \<open>Steps of the publisher\<close>

text \<open>
  An enqueue from any goroutine, with whatever others do to the channel in between; the drain
  goroutine taking an item and, separately, processing an item it took; a (re)connection, to
  a broker that may hold any retained messages; a birth message; a resync request.
\<close>

inductive pub_step :: "marshal_fn \<Rightarrow> broker_fn \<Rightarrow> Publisher \<times> store \<Rightarrow> Publisher \<times> store \<Rightarrow> bool"
  for marshal :: marshal_fn and broker :: broker_fn where
  enq: "env_ok (queue_cap p) env1 \<Longrightarrow> env_ok (queue_cap p) env2 \<Longrightarrow>
    pub_step marshal broker (p, s) (fst (enqueue env1 env2 item p), s)"
| recv: "try_recv (queue p) = Some (item, q) \<Longrightarrow> pub_step marshal broker (p, s) (p\<lparr>queue := q\<rparr>, s)"
| work: "p' = process marshal broker item p \<Longrightarrow> pub_step marshal broker (p, s) (p', broker_store broker p p' s)"
| connect: "p' = onConnect p \<Longrightarrow> pub_step marshal broker (p, s) (p', broker_store broker p p' s0)"
| birth: "pub_step marshal broker (p, s) (onBirthMessage body p, s)"
| resync: "pub_step marshal broker (p, s) (ResyncDiscovery p, s)"

definition pub_reachable :: "marshal_fn \<Rightarrow> broker_fn \<Rightarrow> Options \<Rightarrow> Publisher \<Rightarrow> store \<Rightarrow> bool" where
  "pub_reachable marshal broker opts p s \<longleftrightarrow>
     (\<exists>p0 s0. New opts = Inr p0 \<and> (pub_step marshal broker)\<^sup>*\<^sup>* (p0, s0) (p, s))"

lemma declares_cong:
  "p_opts p' = p_opts p \<Longrightarrow> hasVoltage p' = hasVoltage p \<Longrightarrow> hasTemp p' = hasTemp p \<Longrightarrow>
   declares marshal p' s e = declares marshal p s e"
  by (simp add: declares_def)

lemma pub_inv_empty:
  "0 < queue_cap p \<Longrightarrow> length (queue p) \<le> queue_cap p \<Longrightarrow> seen p = [] \<Longrightarrow> seenIDs p = [] \<Longrightarrow> pub_inv marshal p s"
  by (simp add: pub_inv_def)

lemma pub_inv_queue:
  assumes "pub_inv marshal p s" "p_opts p' = p_opts p" "seen p' = seen p" "seenIDs p' = seenIDs p"
    "hasVoltage p' = hasVoltage p" "hasTemp p' = hasTemp p" "queue_cap p' = queue_cap p"
    "length (queue p') \<le> queue_cap p"
  shows "pub_inv marshal p' s"
  using pub_inv_simps [OF assms(1)] unfolding pub_inv_def
  by (simp add: assms(2-) declares_cong [OF assms(2,5,6)])

lemma New_inv: "New opts = Inr p0 \<Longrightarrow> pub_inv marshal p0 s0"
  by (auto simp: New_def Let_def applyDefaults_def pub_inv_def split: if_splits)

lemma pub_step_inv:
  assumes "pub_step marshal broker ps ps'" "marshals marshal" "\<And>h m. broker h m = PubOK"
    "pub_inv marshal (fst ps) (snd ps)"
  shows "pub_inv marshal (fst ps') (snd ps')"
  using assms
proof (induction rule: pub_step.induct)
  case (enq p env1 env2 s item)
  then have "length (queue (fst (enqueue env1 env2 item p))) \<le> queue_cap p"
    using sendq.bounded [OF enq(1,2)] pub_inv_simps(2) [of marshal p s] by (simp add: sendq.enq_cap)
  then show ?case using enq(5) by (simp add: pub_inv_queue [of marshal p s] sendq.enq_cap)
next
  case (recv p item q s)
  then have "length q \<le> queue_cap p"
    using pub_inv_simps(2) [of marshal p s] by (cases "queue p") auto
  then show ?case using recv(4) by (simp add: pub_inv_queue [of marshal p s])
next
  case (work p' item p s)
  then have "pub_inv marshal p s" by simp
  with work(1-3) show ?case
    by (cases item) (simp_all add: process_def handle_asserts(1) [OF _ _ _ refl refl] handleRemove_inv)
next
  case (connect p' p s s0)
  then show ?case using pub_inv_simps(1,2) [of marshal p s] by (simp add: onConnect_def pub_inv_empty)
next
  case (birth p s body)
  then show ?case using pub_inv_simps(1,2) [of marshal p s] by (simp add: onBirthMessage_def pub_inv_empty)
next
  case (resync p s)
  then show ?case using pub_inv_simps(1,2) [of marshal p s] by (simp add: ResyncDiscovery_def pub_inv_empty)
qed

lemma pub_reachable_inv:
  assumes "pub_reachable marshal broker opts p s" "marshals marshal" "\<And>h m. broker h m = PubOK"
  shows "pub_inv marshal p s"
proof -
  obtain p0 s0 where n: "New opts = Inr p0" and st: "(pub_step marshal broker)\<^sup>*\<^sup>* (p0, s0) (p, s)"
    using assms(1) by (auto simp: pub_reachable_def)
  from st have "pub_inv marshal (fst (p, s)) (snd (p, s))"
    by (induction rule: rtranclp_induct)
       (use New_inv [OF n] pub_step_inv [OF _ assms(2,3)] in auto)
  then show ?thesis by simp
qed

end
