(* ===== verification/Mqtt_Guarantees.thy ===== *)
theory Mqtt_Guarantees
  imports Mqtt_Broker
begin

section \<open>Guarantees of the MQTT publisher\<close>

text \<open>
  The properties of \<open>internal/mqtt\<close> over the steps of \<open>Mqtt_Broker\<close>: what is announced is retained,
  what an event leaves at the broker, what a removal, a birth message and an orphan
  reconciliation do, and what the send queue keeps under saturation.
\<close>

definition sample_options :: Options where
  "sample_options =
     \<lparr>BrokerURL = ''tcp://localhost:1883'', Username = ''u'', Password = ''p'', ClientID = [], DiscoveryPrefix = [],
      HABirthTopic = [], BufferSize = 2, ConnectTimeout = 0, has_Logger = True\<rparr>"

definition sample_key :: BeaconKey where
  "sample_key = mk_key KindName ''fob''"

definition sample_event :: PresenceEvent where
  "sample_event =
     zero_event\<lparr>ev_Beacon := sample_key, ev_BeaconName := ''Fob'', ev_State := ''kitchen'',
       ev_APMac := ''aa:bb:cc:dd:ee:ff'', ev_RSSIEWMA := Fin (- 60), ev_BatteryMV := Some 3000\<rparr>"

definition sample_marshal :: marshal_fn where
  "sample_marshal d = (case d of DocDiscovery _ \<Rightarrow> Some ''{d}'' | DocState _ \<Rightarrow> Some ''{s}'')"

definition sample_broker :: broker_fn where
  "sample_broker sent m = PubOK"

definition sample_publisher :: Publisher where
  "sample_publisher =
     \<lparr>p_opts = applyDefaults sample_options, queue = [], queue_cap = 2, seen = [], seenIDs = [],
      hasVoltage = [], hasTemp = [], dropped = 0, pubOK = 0, pubErr = 0, wire = [], hooks = []\<rparr>"

lemma sample_broker_ok: "sample_broker sent m = PubOK"
  by (simp add: sample_broker_def)

lemma sample_event_simps [simp]: "ev_Beacon sample_event = sample_key" "ev_State sample_event = ''kitchen''"
  by (simp_all add: sample_event_def)

lemma valid_sample_key [simp]: "valid_key sample_key"
  by (simp add: sample_key_def valid_key_def knownKinds_def kind_defs)

lemma sample_marshals [simp]: "marshals sample_marshal"
  by (auto simp: marshals_def sample_marshal_def split: document.split)

lemma New_sample: "New sample_options = Inr sample_publisher"
  by (simp add: New_def sample_publisher_def sample_options_def applyDefaults_def)

lemma sample_reachable0: "pub_reachable sample_marshal sample_broker sample_options sample_publisher (\<lambda>_. None)"
  unfolding pub_reachable_def using New_sample by blast

lemma sample_reachable:
  "pub_reachable sample_marshal sample_broker sample_options
     (handle sample_marshal sample_broker sample_event sample_publisher)
     (broker_store sample_broker sample_publisher
        (handle sample_marshal sample_broker sample_event sample_publisher) (\<lambda>_. None))"
proof -
  have "pub_step sample_marshal sample_broker (sample_publisher, \<lambda>_. None)
     (handle sample_marshal sample_broker sample_event sample_publisher,
      broker_store sample_broker sample_publisher
        (handle sample_marshal sample_broker sample_event sample_publisher) (\<lambda>_. None))"
    by (rule pub_step.work [where item = "QueueEvent sample_event"]) (simp add: process_def)
  with New_sample show ?thesis unfolding pub_reachable_def by blast
qed



lemma asserts_simps:
  assumes "asserts marshal p s ev"
  shows "s (stateTopic (ev_Beacon ev)) = Some (if ev_State ev = StateNotHome then ''not_home'' else ''home'')"
    and "s (telemetryTopic (ev_Beacon ev)) = marshal (DocState (BuildState ev))"
    and "s (deviceConfigTopic (DiscoveryPrefix (p_opts p)) (ev_Beacon ev)) \<noteq> None"
proof -
  show "s (stateTopic (ev_Beacon ev)) = Some (if ev_State ev = StateNotHome then ''not_home'' else ''home'')"
    using assms by (simp add: asserts_def trackerState_def IsNotHome_def trackerHome_def trackerNotHome_def)
  show "s (telemetryTopic (ev_Beacon ev)) = marshal (DocState (BuildState ev))"
    using assms by (simp add: asserts_def)
  obtain ev' :: PresenceEvent and b where "EntityID (ev_Beacon ev') = EntityID (ev_Beacon ev)"
      "s (deviceConfigTopic (DiscoveryPrefix (p_opts p)) (ev_Beacon ev')) = Some b"
    using assms unfolding asserts_def declares_def by blast
  then show "s (deviceConfigTopic (DiscoveryPrefix (p_opts p)) (ev_Beacon ev)) \<noteq> None"
    by (simp add: deviceConfigTopic_def)
qed



lemma handleRemove_forgets:
  "mget (seen (handleRemove broker k p)) (EntityID k) = None"
  "mget (seenIDs (handleRemove broker k p)) (EntityID k) = None"
  by (simp_all add: mget_mdel)

text \<open>
  C18: a removal leaves no retained message on any topic of the entity (device config, state,
  telemetry and the three legacy topics), touches no topic of another entity, forgets the
  announcement, and the next event of that beacon starts with a fresh discovery document.
\<close>

theorem remove_clears_entity:
  assumes "\<And>h m. broker h m = PubOK" "valid_key k" "valid_key k'" "EntityID k' \<noteq> EntityID k"
    and "marshal (config_doc (handleRemove broker k p) ev) = Some body" "ev_Beacon ev = k"
  shows "let p' = handleRemove broker k p; s' = broker_store broker p p' s; pre = DiscoveryPrefix (p_opts p) in
    (\<forall>t \<in> set (entity_topics pre k). s' t = None) \<and> (\<forall>t \<in> set (entity_topics pre k'). s' t = s t) \<and>
    mget (seen p') (EntityID k) = None \<and>
    (\<exists>ms. wire (handle marshal broker ev p') = wire p' @ rmsg (deviceConfigTopic pre k) body # ms)"
proof -
  define p' where "p' = handleRemove broker k p"
  let ?pre = "DiscoveryPrefix (p_opts p)"
  have pre: "DiscoveryPrefix (p_opts p') = ?pre" by (simp add: p'_def)
  have new: "mget (seen p') (EntityID (ev_Beacon ev)) = None"
    unfolding p'_def assms(6) by (rule handleRemove_forgets)
  have "\<exists>ms. wire (handle marshal broker ev p') = wire p' @ rmsg (deviceConfigTopic ?pre k) body # ms"
  proof (rule handle_cases [of marshal p' ev broker])
    fix p1
    assume a: "announce marshal broker ev (mget (seen p') (EntityID (ev_Beacon ev)) \<noteq> None)
        (wantVoltage p' ev) (wantTemp p' ev) p' = Some p1"
      and h: "handle marshal broker ev p' = publish_state marshal broker ev p1"
    show ?thesis
      using assms(5) unfolding h p'_def [symmetric] config_doc_def
      by - (rule announce_Some [OF a], simp add: pre assms(6))
  qed (use assms(5) new in \<open>auto simp: p'_def\<close>)
  moreover have "t \<notin> set (entity_topics ?pre k)" if "t \<in> set (entity_topics ?pre k')" for t
    using entity_topics_disjoint [OF assms(3,2,4) that] .
  ultimately show ?thesis
    unfolding Let_def p'_def handleRemove_store [OF assms(1)] using handleRemove_forgets by auto
qed

theorem remove_clears_entity_witness:
  "let p = handle sample_marshal sample_broker sample_event sample_publisher;
       s = broker_store sample_broker sample_publisher p (\<lambda>_. None);
       p' = handleRemove sample_broker sample_key p; s' = broker_store sample_broker p p' s
   in (\<forall>t \<in> set (entity_topics (DiscoveryPrefix (p_opts p)) sample_key). s' t = None) \<and>
      mget (seen p') (EntityID sample_key) = None"
proof -
  let ?k = "mk_key KindEddystoneURL ''fob''"
  have v: "valid_key ?k" by (simp add: valid_key_def knownKinds_def kind_defs)
  have ne: "EntityID ?k \<noteq> EntityID sample_key"
    using EntityID_same_kind [OF v valid_sample_key] by (auto simp: sample_key_def mk_key_def kind_defs)
  have m: "sample_marshal (config_doc p ev) = Some ''{d}''" for p ev
    by (simp add: sample_marshal_def config_doc_def)
  show ?thesis
    unfolding Let_def
    using remove_clears_entity [where broker = sample_broker and marshal = sample_marshal and ev = sample_event
        and p = "handle sample_marshal sample_broker sample_event sample_publisher"
        and s = "broker_store sample_broker sample_publisher
           (handle sample_marshal sample_broker sample_event sample_publisher) (\<lambda>_. None)",
        OF sample_broker_ok valid_sample_key v ne m sample_event_simps(1)]
    unfolding Let_def by blast
qed

text \<open>
  The body of a birth message is trimmed; if it is \<open>online\<close> the publisher forgets what it announced
  and asks for a republication, and the next event of any beacon publishes its discovery document,
  clears the three legacy topics and then publishes state and telemetry, in this order. Any
  other body changes nothing.
\<close>

theorem birth_reannounces:
  assumes "marshals marshal" "TrimSpace body = ''online''" "TrimSpace body' \<noteq> ''online''"
  shows "let p' = onBirthMessage body p; pre = DiscoveryPrefix (p_opts p);
             withV = (ev_BatteryMV ev \<noteq> None); withT = (ev_TemperatureC ev \<noteq> None) in
    onBirthMessage body' p = p \<and> hooks p' = hooks p @ [HAOnline] \<and> wire p' = wire p \<and>
    (\<exists>doc tel. marshal (DocDiscovery (BuildDeviceDiscovery pre ev withV withT)) = Some doc \<and>
       marshal (DocState (BuildState ev)) = Some tel \<and>
       wire (handle marshal broker ev p') = wire p @
         rmsg (deviceConfigTopic pre (ev_Beacon ev)) doc # map (\<lambda>t. rmsg t []) (legacyTopics pre (ev_Beacon ev)) @
         [rmsg (stateTopic (ev_Beacon ev)) (trackerState (ev_State ev)), rmsg (telemetryTopic (ev_Beacon ev)) tel])"
proof -
  let ?p' = "call_hook HAOnline (clearSeen p)" and ?pre = "DiscoveryPrefix (p_opts p)"
  have b: "onBirthMessage body p = ?p'" "onBirthMessage body' p = p"
    using assms(2,3) by (simp_all add: onBirthMessage_def payloadOnline_def)
  obtain doc tel where
      "marshal (DocDiscovery (BuildDeviceDiscovery ?pre ev (ev_BatteryMV ev \<noteq> None) (ev_TemperatureC ev \<noteq> None))) = Some doc"
      "marshal (DocState (BuildState ev)) = Some tel"
    using assms(1) by (meson marshals_def)
  then show ?thesis
    unfolding Let_def b
    by (simp add: handle_def announce_def publish_state_def mget_zero_def Let_def)
qed

theorem birth_reannounces_witness:
  "let p = handle sample_marshal sample_broker sample_event sample_publisher;
       p' = onBirthMessage ''online'' p
   in onBirthMessage ''offline'' p = p \<and> wire p' = wire p \<and>
      length (wire (handle sample_marshal sample_broker sample_event p')) = length (wire p) + 6"
proof -
  have "TrimSpace ''online'' = ''online''" "TrimSpace ''offline'' = ''offline''"
    by (rule TrimSpace_plain, auto simp: is_plain_def is_space_rune_def in_range_def)+
  then have t: "TrimSpace ''online'' = ''online''" "TrimSpace ''offline'' \<noteq> ''online''" by simp_all
  let ?p = "handle sample_marshal sample_broker sample_event sample_publisher"
  note r = birth_reannounces [where p = ?p and ev = sample_event and broker = sample_broker, OF sample_marshals t,
      unfolded Let_def]
  then obtain doc tel pre where "wire (handle sample_marshal sample_broker sample_event (onBirthMessage ''online'' ?p))
      = wire ?p @ rmsg (deviceConfigTopic pre sample_key) doc # map (\<lambda>t. rmsg t []) (legacyTopics pre sample_key) @
         [rmsg (stateTopic sample_key) (trackerState ''kitchen''), rmsg (telemetryTopic sample_key) tel]"
    unfolding sample_event_simps by blast
  then have "length (wire (handle sample_marshal sample_broker sample_event (onBirthMessage ''online'' ?p)))
      = length (wire ?p) + 6"
    by (simp only: length_append length_map list.size legacyTopics_def Let_def)
  with r show ?thesis unfolding Let_def by blast
qed

text \<open>
  C21: a burst of events published while nobody drains the queue leaves the newest events in the
  order in which they were published, as many as the queue holds, and counts exactly the others
  as dropped.
\<close>

theorem publish_burst_keeps_newest:
  assumes "0 < queue_cap p" "length (queue p) \<le> queue_cap p"
  shows "let p' = fold (Publish (\<lambda>q. q) (\<lambda>q. q)) evs p;
             all = queue p @ map QueueEvent evs; n = length all - queue_cap p in
    queue p' = drop n all \<and> dropped p' = dropped p + word_of_nat n"
proof -
  have "fold (Publish (\<lambda>q. q) (\<lambda>q. q)) evs p
      = fold (\<lambda>item p. fst (enqueue (\<lambda>q. q) (\<lambda>q. q) item p)) (map QueueEvent evs) p"
    by (induction evs arbitrary: p) (simp_all add: Publish_def)
  with sendq.burst [OF assms, of "map QueueEvent evs"] show ?thesis by (simp add: Let_def)
qed

theorem publish_burst_keeps_newest_witness:
  "let e1 = sample_event; e2 = sample_event\<lparr>ev_State := ''hall''\<rparr>; e3 = sample_event\<lparr>ev_State := ''den''\<rparr>;
       p' = fold (Publish (\<lambda>q. q) (\<lambda>q. q)) [e1, e2, e3] sample_publisher
   in queue p' = [QueueEvent e2, QueueEvent e3] \<and> dropped p' = 1"
proof -
  have "0 < queue_cap sample_publisher" "length (queue sample_publisher) \<le> queue_cap sample_publisher"
    by (simp_all add: sample_publisher_def)
  from publish_burst_keeps_newest [OF this,
      of "[sample_event, sample_event\<lparr>ev_State := ''hall''\<rparr>, sample_event\<lparr>ev_State := ''den''\<rparr>]"]
  show ?thesis unfolding Let_def by (simp add: sample_publisher_def)
qed

text \<open>
  When others refill the channel between the eviction and the retry, two items are lost
  and counted, the evicted one and the incoming one, but the drop hook is called only for the incoming one.
\<close>

theorem drop_hook_misses_evicted:
  assumes "queue p = old # q" "length (old # q) = queue_cap p" "length (env q) = queue_cap p"
  shows "let (p', ok) = enqueue (\<lambda>q. q) env item p in
    \<not> ok \<and> queue p' = env q \<and> dropped p' = dropped p + 2 \<and> hooks p' = hooks p @ [Dropped (dropInfoFrom item)]"
  using assms by (simp add: enqueue_def try_send_def call_hook_def)

theorem drop_hook_misses_evicted_witness:
  "let e2 = sample_event\<lparr>ev_State := ''hall''\<rparr>; e3 = sample_event\<lparr>ev_State := ''den''\<rparr>;
       p = sample_publisher\<lparr>queue := [QueueEvent sample_event, QueueEvent e2]\<rparr>;
       (p', ok) = enqueue (\<lambda>q. q) (\<lambda>q. q @ [QueueRemove sample_key]) (QueueEvent e3) p
   in \<not> ok \<and> dropped p' = dropped p + 2 \<and> length (hooks p') = 1"
  unfolding Let_def
  using drop_hook_misses_evicted [of "sample_publisher\<lparr>queue := [QueueEvent sample_event,
      QueueEvent (sample_event\<lparr>ev_State := ''hall''\<rparr>)]\<rparr>" "QueueEvent sample_event"
      "[QueueEvent (sample_event\<lparr>ev_State := ''hall''\<rparr>)]" "\<lambda>q. q @ [QueueRemove sample_key]"
      "QueueEvent (sample_event\<lparr>ev_State := ''den''\<rparr>)"]
  by (auto simp: sample_publisher_def)

subsection \<open>Reconciling orphans\<close>

lemma remove_all_room:
  assumes "length (queue p) + length ks \<le> queue_cap p"
  shows "remove_all envs ks p n err = (p\<lparr>queue := queue p @ map QueueRemove ks\<rparr>, n + length ks, err)"
  using assms by (induction ks arbitrary: p n) (simp_all add: enqueue_room)

lemma publishOne_queue: "publishOne broker t pl r (p\<lparr>queue := q\<rparr>) = publishOne broker t pl r p\<lparr>queue := q\<rparr>"
  by (simp add: publishOne_def Let_def split: pub_result.split)

lemma clear_topics_queue: "clear_topics broker ts (p\<lparr>queue := q\<rparr>) = clear_topics broker ts p\<lparr>queue := q\<rparr>"
  by (induction ts arbitrary: p) (simp_all add: clear_topics_def publishOne_queue)

lemma handleRemove_queue: "handleRemove broker k (p\<lparr>queue := q\<rparr>) = handleRemove broker k p\<lparr>queue := q\<rparr>"
  by (cases p) (simp add: handleRemove_def Let_def publishOne_queue [symmetric] clear_topics_queue [symmetric])

lemma Publisher_Run_removes:
  assumes "queue p = map QueueRemove ks"
  shows "Publisher_Run marshal broker (length ks) p = fold (handleRemove broker) ks (p\<lparr>queue := []\<rparr>)"
  using assms
proof (induction ks arbitrary: p)
  case Nil
  then show ?case by (simp add: Publisher_Run_def)
next
  case (Cons k ks)
  define p1 where "p1 = p\<lparr>queue := map QueueRemove ks\<rparr>"
  have "handleRemove broker k p1\<lparr>queue := []\<rparr> = handleRemove broker k (p1\<lparr>queue := []\<rparr>)"
    by (simp add: handleRemove_queue)
  moreover have "drain_step marshal broker p = handleRemove broker k p1"
    using Cons.prems by (simp add: drain_step_def p1_def)
  ultimately show ?case
    using Cons.IH [of "handleRemove broker k p1"]
    by (simp add: Publisher_Run_def funpow_Suc_right p1_def del: funpow.simps)
qed

lemma fold_handleRemove_seenIDs:
  "mget (seenIDs (fold (handleRemove broker) ks p)) e
     = (if e \<in> EntityID ` set ks then None else mget (seenIDs p) e)"
  by (induction ks arbitrary: p) (auto simp: mget_mdel)

lemma orphan_keys_entities:
  assumes "mwf (seenIDs p)" "\<And>e k. mget (seenIDs p) e = Some k \<Longrightarrow> EntityID k = e"
  shows "EntityID ` set (orphan_keys known p) = {e. mget (seenIDs p) e \<noteq> None} - EntityID ` set known"
proof -
  have "mget (seenIDs p) e = Some k" if "(e, k) \<in> set (seenIDs p)" for e k
    using assms(1) that by (rule in_mget_Some)
  then show ?thesis
    using assms(2) by (force simp: orphan_keys_def dest: mget_Some_in)
qed

text \<open>
  C19: if the send queue is empty and has room for every orphan, a reconciliation enqueues exactly
  one removal per announced entity that is not in the given allowlist, reports that number and no
  error; and once the drain loop has handled them, exactly the announced entities of the
  allowlist are left.
\<close>

theorem republish_orphans_reconciles:
  assumes "pub_reachable marshal broker opts p s" "marshals marshal" "\<And>h m. broker h m = PubOK"
    and "queue p = []" "length (orphan_keys known p) \<le> queue_cap p"
  shows "let (p1, n, err) = RepublishOrphans False envs known p; p2 = Publisher_Run marshal broker n p1 in
    err = None \<and> n = length (orphan_keys known p) \<and> queue p1 = map QueueRemove (orphan_keys known p) \<and>
    (\<forall>e. mget (seenIDs p2) e = (if e \<in> EntityID ` set known then mget (seenIDs p) e else None))"
proof -
  let ?ks = "orphan_keys known p"
  let ?p1 = "p\<lparr>queue := map QueueRemove ?ks\<rparr>"
  have inv: "pub_inv marshal p s" by (rule pub_reachable_inv [OF assms(1-3)])
  have r: "RepublishOrphans False envs known p = (?p1, length ?ks, None)"
    using assms(4,5) by (simp add: RepublishOrphans_def remove_all_room)
  have run: "Publisher_Run marshal broker (length ?ks) ?p1 = fold (handleRemove broker) ?ks (?p1\<lparr>queue := []\<rparr>)"
    by (rule Publisher_Run_removes) simp
  have "mget (seenIDs (Publisher_Run marshal broker (length ?ks) ?p1)) e
      = (if e \<in> EntityID ` set known then mget (seenIDs p) e else None)" for e
    unfolding run fold_handleRemove_seenIDs
    using orphan_keys_entities [OF pub_inv_simps(3,5) [OF inv], of known] by auto
  then show ?thesis unfolding r by simp
qed

lemma sample_seenIDs:
  "seenIDs (handle sample_marshal sample_broker sample_event sample_publisher) = [(EntityID sample_key, sample_key)]"
  "queue (handle sample_marshal sample_broker sample_event sample_publisher) = []"
  "queue_cap (handle sample_marshal sample_broker sample_event sample_publisher) = 2"
  by (simp_all add: handle_def announce_def mget_zero_def sample_marshal_def sample_publisher_def Let_def)

theorem republish_orphans_reconciles_witness:
  "let p = handle sample_marshal sample_broker sample_event sample_publisher;
       (p1, n, err) = RepublishOrphans False (\<lambda>_. (\<lambda>q. q, \<lambda>q. q)) [] p
   in n = 1 \<and> err = None \<and> queue p1 = [QueueRemove sample_key]"
proof -
  let ?p = "handle sample_marshal sample_broker sample_event sample_publisher"
  have o: "orphan_keys [] ?p = [sample_key]" by (simp add: orphan_keys_def sample_seenIDs)
  from republish_orphans_reconciles [OF sample_reachable sample_marshals sample_broker_ok, of "[]" "\<lambda>_. (\<lambda>q. q, \<lambda>q. q)"]
  show ?thesis unfolding Let_def by (simp add: o sample_seenIDs split: prod.splits)
qed

end
