(* ===== verification/Mqtt_Race.thy ===== *)
theory Mqtt_Race
  imports Mqtt_Guarantees
begin

section \<open>A reconnection in the middle of an announcement (internal/mqtt/publisher.go)\<close>

text \<open>
  \<open>handle\<close> holds the mutex when it looks up what was announced and again when it notes the announcement, but not in between, while it
  publishes. The handlers of the client (\<open>onConnect\<close>, \<open>onBirthMessage\<close>) run on other goroutines and clear what was noted. Here
  \<open>handle\<close> is split at that point; with nothing in between it is \<open>handle\<close> again. The theorem shows a consequence: when the
  connection is lost and made anew while the configuration of a new device is being published, the device counts as announced on the new
  connection although its configuration was sent on the old one, and later events do not send it again.
\<close>

subsection \<open>The split handler\<close>

text \<open>\<open>between\<close> is what other goroutines do to the publisher after the configuration was published and before it is noted.\<close>

definition announce_interrupted :: "(Publisher \<Rightarrow> Publisher) \<Rightarrow> marshal_fn \<Rightarrow> broker_fn \<Rightarrow> PresenceEvent \<Rightarrow> bool \<Rightarrow> bool \<Rightarrow> bool
    \<Rightarrow> Publisher \<Rightarrow> Publisher option" where
  "announce_interrupted between marshal broker ev alreadySeen withVoltage withTemp p =
     (let k = ev_Beacon ev; entity = EntityID k; pre = DiscoveryPrefix (p_opts p) in
      case marshal (DocDiscovery (BuildDeviceDiscovery pre ev withVoltage withTemp)) of
        None \<Rightarrow> None
      | Some body \<Rightarrow>
          (let p1 = publishOne broker (deviceConfigTopic pre k) body True p;
               p2 = (if \<not> alreadySeen then clear_topics broker (legacyTopics pre k) p1 else p1);
               p3 = between p2
           in Some (p3\<lparr>seen := mput entity () (seen p3), seenIDs := mput entity k (seenIDs p3),
                       hasVoltage := mput entity withVoltage (hasVoltage p3),
                       hasTemp := mput entity withTemp (hasTemp p3)\<rparr>)))"

definition handle_interrupted :: "(Publisher \<Rightarrow> Publisher) \<Rightarrow> marshal_fn \<Rightarrow> broker_fn \<Rightarrow> PresenceEvent \<Rightarrow> Publisher \<Rightarrow> Publisher" where
  "handle_interrupted between marshal broker ev p =
     (let entity = EntityID (ev_Beacon ev);
          alreadySeen = (mget (seen p) entity \<noteq> None);
          hadVoltage = mget_zero False (hasVoltage p) entity;
          hadTemp = mget_zero False (hasTemp p) entity;
          withVoltage = (hadVoltage \<or> ev_BatteryMV ev \<noteq> None);
          withTemp = (hadTemp \<or> ev_TemperatureC ev \<noteq> None);
          needConfig = (\<not> alreadySeen \<or> withVoltage \<noteq> hadVoltage \<or> withTemp \<noteq> hadTemp)
      in if needConfig then
           (case announce_interrupted between marshal broker ev alreadySeen withVoltage withTemp p of
              None \<Rightarrow> call_hook (MarshalFailed ''discovery'') p
            | Some p1 \<Rightarrow> publish_state marshal broker ev p1)
         else publish_state marshal broker ev p)"

lemma announce_uninterrupted: "announce_interrupted (\<lambda>p. p) = announce"
  by (intro ext) (simp only: announce_interrupted_def announce_def Let_def)

lemma handle_uninterrupted: "handle_interrupted (\<lambda>p. p) = handle"
  by (intro ext) (simp only: handle_interrupted_def handle_def announce_uninterrupted)

subsection \<open>The lost configuration\<close>

definition online_msg :: message where
  "online_msg = \<lparr>msg_topic = bridgeAvailabilityTopic, msg_qos = 1, msg_retained = True, msg_payload = payloadOnline\<rparr>"

lemma state_msgs_topics: "set (map msg_topic (state_msgs marshal ev)) \<subseteq> {stateTopic (ev_Beacon ev), telemetryTopic (ev_Beacon ev)}"
  by (cases "marshal (DocState (BuildState ev))") (simp_all add: state_msgs_def)

lemma state_msgs_no_config: "deviceConfigTopic pre k \<notin> set (map msg_topic (state_msgs marshal ev))"
  using state_msgs_topics [of marshal ev] topic_kinds by fastforce

text \<open>An event for a device that counts as announced, with no new kind of telemetry, sends its state and nothing else.\<close>

lemma handle_announced:
  assumes "mget (seen p) (EntityID (ev_Beacon ev)) \<noteq> None"
    and "ev_BatteryMV ev \<noteq> None \<Longrightarrow> mget_zero False (hasVoltage p) (EntityID (ev_Beacon ev))"
    and "ev_TemperatureC ev \<noteq> None \<Longrightarrow> mget_zero False (hasTemp p) (EntityID (ev_Beacon ev))"
  shows "handle marshal broker ev p = publish_state marshal broker ev p"
  using assms by (auto simp: handle_def Let_def)

lemma handle_interrupted_new:
  assumes "mget (seen p) (EntityID (ev_Beacon ev)) = None" "marshals marshal"
  shows "\<exists>old. wire (handle_interrupted onConnect marshal broker ev p) = old @ [online_msg] @ state_msgs marshal ev
    \<and> mget (seen (handle_interrupted onConnect marshal broker ev p)) (EntityID (ev_Beacon ev)) \<noteq> None
    \<and> mget_zero False (hasVoltage (handle_interrupted onConnect marshal broker ev p)) (EntityID (ev_Beacon ev)) = wantVoltage p ev
    \<and> mget_zero False (hasTemp (handle_interrupted onConnect marshal broker ev p)) (EntityID (ev_Beacon ev)) = wantTemp p ev"
proof -
  obtain body where "marshal (config_doc p ev) = Some body" using assms(2) unfolding marshals_def by blast
  then show ?thesis using assms(1)
    by (simp add: handle_interrupted_def announce_interrupted_def config_doc_def wantVoltage_def wantTemp_def onConnect_def
        online_msg_def Let_def mget_mput mget_zero_def)
qed

text \<open>
  After such a reconnection the new broker gets the states of the device, from this event and the following ones, but not its
  configuration: the messages since the client announced itself hold none, and the publisher believes that it was sent.
\<close>

theorem reconnect_during_announce_loses_config:
  assumes "mget (seen p) (EntityID (ev_Beacon ev)) = None" "marshals marshal"
    and "\<And>e. e \<in> set evs \<Longrightarrow> ev_Beacon e = ev_Beacon ev \<and> (ev_BatteryMV e \<noteq> None \<longrightarrow> ev_BatteryMV ev \<noteq> None)
           \<and> (ev_TemperatureC e \<noteq> None \<longrightarrow> ev_TemperatureC ev \<noteq> None)"
    and "p1 = fold (handle marshal broker) evs (handle_interrupted onConnect marshal broker ev p)"
  shows "mget (seen p1) (EntityID (ev_Beacon ev)) \<noteq> None
    \<and> (\<exists>old since. wire p1 = old @ [online_msg] @ since \<and> since = concat (map (state_msgs marshal) (ev # evs))
         \<and> deviceConfigTopic pre (ev_Beacon ev) \<notin> set (map msg_topic since))"
proof -
  let ?e = "EntityID (ev_Beacon ev)" and ?p0 = "handle_interrupted onConnect marshal broker ev p"
  obtain old where new: "wire ?p0 = old @ [online_msg] @ state_msgs marshal ev" "mget (seen ?p0) ?e \<noteq> None"
      "mget_zero False (hasVoltage ?p0) ?e = wantVoltage p ev" "mget_zero False (hasTemp ?p0) ?e = wantTemp p ev"
    using handle_interrupted_new [OF assms(1,2), of broker] by blast
  have "mget (seen (fold (handle marshal broker) es q)) ?e = mget (seen q) ?e
      \<and> wire (fold (handle marshal broker) es q) = wire q @ concat (map (state_msgs marshal) es)"
    if "set es \<subseteq> set evs" "mget (seen q) ?e \<noteq> None" "mget_zero False (hasVoltage q) ?e = wantVoltage p ev"
      "mget_zero False (hasTemp q) ?e = wantTemp p ev" for es q
    using that
  proof (induction es arbitrary: q)
    case (Cons x es)
    have x: "ev_Beacon x = ev_Beacon ev" "ev_BatteryMV x \<noteq> None \<Longrightarrow> wantVoltage p ev" "ev_TemperatureC x \<noteq> None \<Longrightarrow> wantTemp p ev"
      using assms(3) [of x] Cons.prems(1) by (auto simp: wantVoltage_def wantTemp_def)
    have "handle marshal broker x q = publish_state marshal broker x q"
      by (rule handle_announced) (use x Cons.prems in simp_all)
    then show ?case using Cons by simp
  qed simp
  from this [OF order_refl new(2-4)] show ?thesis using new assms(4) state_msgs_no_config by fastforce
qed

theorem reconnect_during_announce_loses_config_witness:
  "let p1 = fold (handle sample_marshal sample_broker) [sample_event, sample_event]
         (handle_interrupted onConnect sample_marshal sample_broker sample_event sample_publisher)
   in mget (seen p1) (EntityID sample_key) \<noteq> None
    \<and> (\<exists>old since. wire p1 = old @ [online_msg] @ since \<and> deviceConfigTopic ''homeassistant'' sample_key \<notin> set (map msg_topic since))"
proof -
  have "mget (seen sample_publisher) (EntityID (ev_Beacon sample_event)) = None" by (simp add: sample_publisher_def)
  from reconnect_during_announce_loses_config [OF this sample_marshals, of "[sample_event, sample_event]" _ sample_broker "''homeassistant''"]
  show ?thesis unfolding Let_def by (simp only: sample_event_simps) fastforce
qed

end
