(* ===== verification/Batch_Writer.thy ===== *)
theory Batch_Writer
  imports Bounded_Queue
begin

section \<open>Buffered batch writers\<close>

text \<open>
  \<open>ObservationsWriter\<close> and \<open>RawPostsWriter\<close> are two copies of one design: a bounded channel filled
  with the drop-oldest policy, a goroutine that collects rows into a batch and flushes it when it
  is full or when a ticker fires, one retry per flush, and a drain at shutdown. This theory states the
  contract once: the locale \<open>batch_writer\<close> extends \<open>drop_oldest_queue\<close> with the batch, the counters,
  and the laws of the operations, and proves what a run of a writer does with its rows.
  The theory \<open>Store_Writers\<close> interprets it for both.
\<close>

text \<open>
  An insert of a batch into a database: the error if there was one, and the database after it.
  A retry after a failure, as both writers do it.
\<close>

type_synonym ('r, 'e, 'db) insert_fn = "'r list \<Rightarrow> 'db \<Rightarrow> 'e option \<times> 'db"

definition retry_insert :: "('r, 'e, 'db) insert_fn \<Rightarrow> 'r list \<Rightarrow> 'db \<Rightarrow> 'e option \<times> 'db" where
  "retry_insert ins b db =
     (let (err, db1) = ins b db in case err of None \<Rightarrow> (None, db1) | Some _ \<Rightarrow> ins b db1)"

text \<open>What a producer and the two cases of the writer's \<open>select\<close> do, in the order in which they happen.\<close>

datatype 'r writer_event = Submitted 'r | Received | Ticked

fun submits :: "'r writer_event list \<Rightarrow> 'r list" where
  "submits [] = []"
| "submits (Submitted r # evs) = r # submits evs"
| "submits (Received # evs) = submits evs"
| "submits (Ticked # evs) = submits evs"

text \<open>
  The loop of \<open>Run\<close> over the events up to the cancellation of the context, and the drain that
  follows it; \<open>sub\<close>, \<open>take_row\<close>, \<open>flush\<close> and \<open>drain\<close> are the operations of the writer.
\<close>

fun on_event :: "('r \<Rightarrow> 's \<Rightarrow> 's) \<Rightarrow> ('s \<times> 'db \<Rightarrow> 's \<times> 'db) \<Rightarrow> ('s \<times> 'db \<Rightarrow> 's \<times> 'db)
    \<Rightarrow> 'r writer_event \<Rightarrow> 's \<times> 'db \<Rightarrow> 's \<times> 'db" where
  "on_event sub take_row flush (Submitted r) (s, db) = (sub r s, db)"
| "on_event sub take_row flush Received sd = take_row sd"
| "on_event sub take_row flush Ticked sd = flush sd"

definition writer_run :: "('r \<Rightarrow> 's \<Rightarrow> 's) \<Rightarrow> ('s \<times> 'db \<Rightarrow> 's \<times> 'db) \<Rightarrow> ('s \<times> 'db \<Rightarrow> 's \<times> 'db)
    \<Rightarrow> ('s \<times> 'db \<Rightarrow> 's \<times> 'db) \<Rightarrow> 'r writer_event list \<Rightarrow> 's \<times> 'db \<Rightarrow> 's \<times> 'db" where
  "writer_run sub take_row flush drain evs sd = drain (fold (on_event sub take_row flush) evs sd)"

text \<open>
  What the writers rely on from the database: a failed copy leaves the table as it was, a successful
  one appends the rows of the batch.
\<close>

definition atomic_insert :: "('r \<Rightarrow> 'row) \<Rightarrow> ('db \<Rightarrow> 'row list) \<Rightarrow> ('r, 'e, 'db) insert_fn \<Rightarrow> bool" where
  "atomic_insert row_of stored ins \<longleftrightarrow>
     (\<forall>b db. stored (snd (ins b db)) = (if fst (ins b db) = None then stored db @ map row_of b else stored db))"

lemma atomic_retry:
  assumes "atomic_insert row_of stored ins"
  shows "stored (snd (retry_insert ins b db)) =
    (if fst (retry_insert ins b db) = None then stored db @ map row_of b else stored db)"
proof -
  have a: "stored (snd (ins b db)) = (if fst (ins b db) = None then stored db @ map row_of b else stored db)" for db
    using assms by (simp add: atomic_insert_def)
  show ?thesis using a [of db] a [of "snd (ins b db)"]
    by (auto simp: retry_insert_def split: prod.splits option.splits)
qed

lemma retry_ok: "fst (ins b db) = None \<Longrightarrow> retry_insert ins b db = ins b db"
  by (auto simp: retry_insert_def split: prod.splits option.splits)

locale batch_writer = drop_oldest_queue enq items cap lost
  for enq :: "('r list \<Rightarrow> 'r list) \<Rightarrow> ('r list \<Rightarrow> 'r list) \<Rightarrow> 'r \<Rightarrow> 's \<Rightarrow> 's"
    and items :: "'s \<Rightarrow> 'r list" and cap :: "'s \<Rightarrow> nat" and lost :: "'s \<Rightarrow> 64 word" +
  fixes batch :: "'s \<Rightarrow> 'r list" and max_batch :: "'s \<Rightarrow> int"
    and written :: "'s \<Rightarrow> 64 word" and errors :: "'s \<Rightarrow> 64 word"
    and flush :: "('r, 'e, 'db) insert_fn \<Rightarrow> 's \<times> 'db \<Rightarrow> 's \<times> 'db"
    and take_row :: "('r, 'e, 'db) insert_fn \<Rightarrow> 's \<times> 'db \<Rightarrow> 's \<times> 'db"
    and drain :: "('r, 'e, 'db) insert_fn \<Rightarrow> 's \<times> 'db \<Rightarrow> 's \<times> 'db"
  assumes enq_keeps: "batch (enq env1 env2 x s) = batch s" "max_batch (enq env1 env2 x s) = max_batch s"
      "written (enq env1 env2 x s) = written s" "errors (enq env1 env2 x s) = errors s"
    and flush_nil: "batch s = [] \<Longrightarrow> flush ins (s, db) = (s, db)"
    and flush_batch: "batch s \<noteq> [] \<Longrightarrow> \<exists>s'. flush ins (s, db) = (s', snd (retry_insert ins (batch s) db)) \<and>
      batch s' = [] \<and> items s' = items s \<and> cap s' = cap s \<and> max_batch s' = max_batch s \<and> lost s' = lost s \<and>
      (if fst (retry_insert ins (batch s) db) = None
       then written s' = written s + word_of_nat (length (batch s)) \<and> errors s' = errors s
       else written s' = written s \<and> errors s' = errors s + word_of_nat (length (batch s)))"
    and take_nil: "items s = [] \<Longrightarrow> take_row ins (s, db) = (s, db)"
    and take_row: "items s = x # q \<Longrightarrow> \<exists>s1. items s1 = q \<and> batch s1 = batch s @ [x] \<and> cap s1 = cap s \<and>
      max_batch s1 = max_batch s \<and> lost s1 = lost s \<and> written s1 = written s \<and> errors s1 = errors s \<and>
      take_row ins (s, db) = (if max_batch s \<le> int (length (batch s1)) then flush ins (s1, db) else (s1, db))"
    and drain_rec: "drain ins (s, db) = (if items s = [] then flush ins (s, db) else drain ins (take_row ins (s, db)))"
begin

text \<open>Every row that entered is in the table, lost, in the channel or in the batch.\<close>

definition accounted :: "64 word \<Rightarrow> 's \<Rightarrow> bool" where
  "accounted n s \<longleftrightarrow>
     n = written s + lost s + errors s + word_of_nat (length (items s)) + word_of_nat (length (batch s))"

lemma flush_result:
  obtains s' db' where "flush ins (s, db) = (s', db')" "batch s' = []" "items s' = items s" "cap s' = cap s"
    "max_batch s' = max_batch s" "lost s' = lost s"
    "written s' + errors s' = written s + errors s + word_of_nat (length (batch s))"
proof (cases "batch s = []")
  case True
  show thesis by (rule that [OF flush_nil [OF True]]) (simp_all add: True)
next
  case False
  from flush_batch [OF False, of ins db] obtain s' where f: "flush ins (s, db) = (s', snd (retry_insert ins (batch s) db))"
    and r: "batch s' = []" "items s' = items s" "cap s' = cap s" "max_batch s' = max_batch s" "lost s' = lost s"
    and c: "if fst (retry_insert ins (batch s) db) = None
       then written s' = written s + word_of_nat (length (batch s)) \<and> errors s' = errors s
       else written s' = written s \<and> errors s' = errors s + word_of_nat (length (batch s))" by blast
  have "written s' + errors s' = written s + errors s + word_of_nat (length (batch s))"
    using c by (auto split: if_splits)
  with that [OF f r] show thesis by blast
qed

lemma flush_accounted:
  assumes "accounted n s" "flush ins (s, db) = (s', db')"
  shows "accounted n s'"
  by (rule flush_result [of ins s db]) (use assms in \<open>simp add: accounted_def algebra_simps\<close>)

lemma take_accounted:
  assumes "accounted n s" "take_row ins (s, db) = (s', db')"
  shows "accounted n s'"
proof (cases "items s")
  case Nil
  with assms show ?thesis by (simp add: take_nil)
next
  case (Cons x q)
  from take_row [OF Cons, of ins db] obtain s1 where s1: "items s1 = q" "batch s1 = batch s @ [x]" "lost s1 = lost s"
      "written s1 = written s" "errors s1 = errors s"
    and t: "take_row ins (s, db) = (if max_batch s \<le> int (length (batch s1)) then flush ins (s1, db) else (s1, db))"
    by blast
  have "accounted n s1" using assms(1) by (simp add: accounted_def s1 Cons algebra_simps)
  with flush_accounted [of n s1 ins db s' db'] t assms(2) show ?thesis by (simp split: if_splits)
qed

lemma submit_accounted:
  assumes "accounted n s" "0 < cap s" "length (items s) \<le> cap s"
  shows "accounted (n + 1) (enq (\<lambda>q. q) (\<lambda>q. q) x s)"
proof (cases "length (items s) < cap s")
  case True
  with assms quiet [of s x] show ?thesis by (simp add: accounted_def enq_keeps algebra_simps)
next
  case False
  then obtain y q where "items s = y # q" using assms(2) by (cases "items s") auto
  moreover have "items (enq (\<lambda>q. q) (\<lambda>q. q) x s) = tl (items s) @ [x]" "lost (enq (\<lambda>q. q) (\<lambda>q. q) x s) = lost s + 1"
    using False quiet [OF assms(2,3), of x] by simp_all
  ultimately show ?thesis using assms(1) by (simp add: accounted_def enq_keeps algebra_simps)
qed

text \<open>The channel stays within its capacity and the batch below the flush size.\<close>

definition sound :: "'s \<Rightarrow> bool" where
  "sound s \<longleftrightarrow> 0 < cap s \<and> length (items s) \<le> cap s \<and> int (length (batch s)) < max_batch s"

lemma flush_sound:
  assumes "0 < cap s" "length (items s) \<le> cap s" "0 < max_batch s" "flush ins (s, db) = (s', db')"
  shows "sound s'"
  by (rule flush_result [of ins s db]) (use assms in \<open>simp add: sound_def\<close>)

lemma take_sound:
  assumes "sound s" "take_row ins (s, db) = (s', db')"
  shows "sound s'"
proof (cases "items s")
  case Nil
  with assms show ?thesis by (simp add: take_nil)
next
  case (Cons x q)
  from take_row [OF Cons, of ins db] obtain s1 where s1: "items s1 = q" "batch s1 = batch s @ [x]" "cap s1 = cap s"
      "max_batch s1 = max_batch s"
    and t: "take_row ins (s, db) = (if max_batch s \<le> int (length (batch s1)) then flush ins (s1, db) else (s1, db))"
    by blast
  show ?thesis
    using assms t s1 Cons flush_sound [of s1 ins db] by (auto simp: sound_def split: if_splits)
qed

lemma submit_sound: "sound s \<Longrightarrow> sound (enq (\<lambda>q. q) (\<lambda>q. q) x s)"
  using bounded [of s "\<lambda>q. q" "\<lambda>q. q" x] by (simp add: sound_def enq_cap enq_keeps)

lemma run_events_accounted:
  assumes "accounted n s" "sound s"
    and "fold (on_event (enq (\<lambda>q. q) (\<lambda>q. q)) (take_row ins) (flush ins)) evs (s, db) = (s', db')"
  shows "accounted (n + word_of_nat (length (submits evs))) s' \<and> sound s'"
  using assms
proof (induction evs arbitrary: n s db rule: submits.induct)
  case (2 r evs)
  have "accounted (n + 1) (enq (\<lambda>q. q) (\<lambda>q. q) r s)"
    using "2.prems" by (intro submit_accounted) (simp_all add: sound_def)
  from "2.IH" [OF this submit_sound [OF "2.prems"(2)]] "2.prems"(3) show ?case by (simp add: algebra_simps)
next
  case (3 evs)
  obtain s1 db1 where t: "take_row ins (s, db) = (s1, db1)" by (cases "take_row ins (s, db)")
  from "3.IH" [OF take_accounted [OF "3.prems"(1) t] take_sound [OF "3.prems"(2) t]] "3.prems"(3) t
  show ?case by simp
next
  case (4 evs)
  obtain s1 db1 where t: "flush ins (s, db) = (s1, db1)" by (cases "flush ins (s, db)")
  have "sound s1" using flush_sound [of s ins db] "4.prems"(2) t by (auto simp: sound_def)
  from "4.IH" [OF flush_accounted [OF "4.prems"(1) t] this] "4.prems"(3) t show ?case by simp
qed simp

lemma take_shrinks:
  assumes "items s = x # q" "take_row ins (s, db) = (s', db')"
  shows "items s' = q"
proof -
  from take_row [OF assms(1), of ins db] obtain s1 where "items s1 = q"
    and "take_row ins (s, db) = (if max_batch s \<le> int (length (batch s1)) then flush ins (s1, db) else (s1, db))"
    by blast
  then show ?thesis using assms(2) by - (rule flush_result [of ins s1 db], auto split: if_splits)
qed

text \<open>The drain ends with an empty channel and an empty batch; nothing is unaccounted for.\<close>

lemma drain_accounted:
  assumes "accounted n s" "drain ins (s, db) = (s', db')"
  shows "items s' = [] \<and> batch s' = [] \<and> n = written s' + lost s' + errors s'"
  using assms
proof (induction "items s" arbitrary: s db)
  case Nil
  then have f: "flush ins (s, db) = (s', db')" by (simp add: drain_rec)
  have "accounted n s'" by (rule flush_accounted [OF Nil.prems(1) f])
  moreover have "items s' = [] \<and> batch s' = []" by (rule flush_result [of ins s db]) (use f Nil.hyps in simp)
  ultimately show ?case by (simp add: accounted_def)
next
  case (Cons x q)
  obtain s1 db1 where t: "take_row ins (s, db) = (s1, db1)" by (cases "take_row ins (s, db)")
  have "drain ins (s1, db1) = (s', db')" using Cons.prems(2) Cons.hyps(2) [symmetric] t by (simp add: drain_rec [of ins s])
  moreover have "q = items s1" using take_shrinks [OF Cons.hyps(2) [symmetric] t] by simp
  ultimately show ?case using Cons.hyps(1) [of s1 db1] take_accounted [OF Cons.prems(1) t] by simp
qed

lemma run_accounted:
  assumes "accounted n s" "sound s"
    and "writer_run (enq (\<lambda>q. q) (\<lambda>q. q)) (take_row ins) (flush ins) (drain ins) evs (s, db) = (s', db')"
  shows "items s' = [] \<and> batch s' = [] \<and> n + word_of_nat (length (submits evs)) = written s' + lost s' + errors s'"
proof -
  let ?f = "fold (on_event (enq (\<lambda>q. q) (\<lambda>q. q)) (take_row ins) (flush ins)) evs (s, db)"
  obtain s1 db1 where f: "?f = (s1, db1)" by (cases ?f)
  then have "drain ins (s1, db1) = (s', db')" using assms(3) by (simp add: writer_run_def)
  with run_events_accounted [OF assms(1,2) f] show ?thesis using drain_accounted by blast
qed

text \<open>
  The rows of the table, of the batch and of the channel, in this order. If the database accepts
  every batch of valid rows, no operation but a submission changes it.
\<close>

definition pipeline :: "('r \<Rightarrow> 'row) \<Rightarrow> ('db \<Rightarrow> 'row list) \<Rightarrow> 's \<times> 'db \<Rightarrow> 'row list" where
  "pipeline row_of stored sd = stored (snd sd) @ map row_of (batch (fst sd) @ items (fst sd))"

lemma flush_pipeline:
  assumes "atomic_insert row_of stored ins" "\<And>b db. list_all valid b \<Longrightarrow> fst (ins b db) = None"
    and "list_all valid (batch s @ items s)" "flush ins (s, db) = (s', db')"
  shows "pipeline row_of stored (s', db') = pipeline row_of stored (s, db) \<and>
    list_all valid (batch s' @ items s') \<and> items s' = items s \<and> cap s' = cap s"
proof (cases "batch s = []")
  case True
  with assms show ?thesis by (simp add: flush_nil)
next
  case False
  have ok: "fst (ins (batch s) db) = None" using assms(2,3) by simp
  from flush_batch [OF False, of ins db] assms(4)
  have "db' = snd (retry_insert ins (batch s) db)" "batch s' = []" "items s' = items s" "cap s' = cap s" by auto
  then show ?thesis
    using assms(3) atomic_retry [OF assms(1), of "batch s" db] ok
    by (simp add: pipeline_def retry_ok [where ins = ins, OF ok])
qed

lemma take_pipeline:
  assumes "atomic_insert row_of stored ins" "\<And>b db. list_all valid b \<Longrightarrow> fst (ins b db) = None"
    and "list_all valid (batch s @ items s)" "take_row ins (s, db) = (s', db')"
  shows "pipeline row_of stored (s', db') = pipeline row_of stored (s, db) \<and>
    list_all valid (batch s' @ items s') \<and> items s' = tl (items s) \<and> cap s' = cap s"
proof (cases "items s")
  case Nil
  with assms show ?thesis by (simp add: take_nil)
next
  case (Cons x q)
  from take_row [OF Cons, of ins db] obtain s1 where s1: "items s1 = q" "batch s1 = batch s @ [x]" "cap s1 = cap s"
    and t: "take_row ins (s, db) = (if max_batch s \<le> int (length (batch s1)) then flush ins (s1, db) else (s1, db))"
    by blast
  have p: "pipeline row_of stored (s1, db) = pipeline row_of stored (s, db)" "list_all valid (batch s1 @ items s1)"
    using assms(3) by (simp_all add: pipeline_def s1 Cons)
  show ?thesis
    using t assms(4) p flush_pipeline [OF assms(1,2) p(2), of db s' db'] by (simp add: s1 Cons split: if_splits)
qed

lemma run_events_pipeline:
  assumes a: "atomic_insert row_of stored ins" "\<And>b db. list_all valid b \<Longrightarrow> fst (ins b db) = None"
    and "list_all valid (batch s @ items s)" "list_all valid (submits evs)"
    and "length (items s) + length (submits evs) \<le> cap s" "0 < cap s"
    and "fold (on_event (enq (\<lambda>q. q) (\<lambda>q. q)) (take_row ins) (flush ins)) evs (s, db) = (s', db')"
  shows "pipeline row_of stored (s', db') = pipeline row_of stored (s, db) @ map row_of (submits evs) \<and>
    list_all valid (batch s' @ items s')"
  using assms(3-)
proof (induction evs arbitrary: s db rule: submits.induct)
  case (2 r evs)
  let ?s1 = "enq (\<lambda>q. q) (\<lambda>q. q) r s"
  have i: "items ?s1 = items s @ [r]" "batch ?s1 = batch s" "cap ?s1 = cap s"
    using "2.prems" quiet [of s r] by (simp_all add: enq_keeps enq_cap)
  then have "pipeline row_of stored (?s1, db) = pipeline row_of stored (s, db) @ [row_of r]"
    by (simp add: pipeline_def)
  with "2.IH" [of ?s1 db] "2.prems" show ?case by (simp add: i)
next
  case (3 evs)
  obtain s1 db1 where t: "take_row ins (s, db) = (s1, db1)" by (cases "take_row ins (s, db)")
  from take_pipeline [OF a "3.prems"(1) t] "3.IH" [of s1 db1] "3.prems" t show ?case by auto
next
  case (4 evs)
  obtain s1 db1 where t: "flush ins (s, db) = (s1, db1)" by (cases "flush ins (s, db)")
  from flush_pipeline [OF a "4.prems"(1) t] "4.IH" [of s1 db1] "4.prems" t show ?case by auto
qed simp

lemma drain_pipeline:
  assumes a: "atomic_insert row_of stored ins" "\<And>b db. list_all valid b \<Longrightarrow> fst (ins b db) = None"
    and "list_all valid (batch s @ items s)" "drain ins (s, db) = (s', db')"
  shows "pipeline row_of stored (s', db') = pipeline row_of stored (s, db)"
  using assms(3-)
proof (induction "items s" arbitrary: s db)
  case Nil
  then have "flush ins (s, db) = (s', db')" by (simp add: drain_rec)
  with flush_pipeline [OF a Nil.prems(1)] show ?case by blast
next
  case (Cons x q)
  obtain s1 db1 where t: "take_row ins (s, db) = (s1, db1)" by (cases "take_row ins (s, db)")
  have "drain ins (s1, db1) = (s', db')"
    using Cons.prems(2) Cons.hyps(2) [symmetric] t by (simp add: drain_rec [of ins s])
  with take_pipeline [OF a Cons.prems(1) t] Cons.hyps(1) [of s1 db1] Cons.hyps(2) show ?case by (metis list.sel(3))
qed

lemma run_in_order:
  assumes a: "atomic_insert row_of stored ins" "\<And>b db. list_all valid b \<Longrightarrow> fst (ins b db) = None"
    and "batch s = []" "items s = []" "list_all valid (submits evs)" "length (submits evs) \<le> cap s" "0 < cap s"
    and "writer_run (enq (\<lambda>q. q) (\<lambda>q. q)) (take_row ins) (flush ins) (drain ins) evs (s, db) = (s', db')"
  shows "stored db' = stored db @ map row_of (submits evs)"
proof -
  let ?f = "fold (on_event (enq (\<lambda>q. q) (\<lambda>q. q)) (take_row ins) (flush ins)) evs (s, db)"
  obtain s1 db1 where f: "?f = (s1, db1)" by (cases ?f)
  then have d: "drain ins (s1, db1) = (s', db')" using assms(8) by (simp add: writer_run_def)
  have r: "pipeline row_of stored (s1, db1) = pipeline row_of stored (s, db) @ map row_of (submits evs)"
      "list_all valid (batch s1 @ items s1)"
    using run_events_pipeline [OF a _ assms(5) _ assms(7) f] assms(3,4,6) by simp_all
  obtain n where "accounted n s1" by (simp add: accounted_def)
  from drain_accounted [OF this d] drain_pipeline [OF a r(2) d] r(1) show ?thesis
    by (simp add: pipeline_def assms(3,4))
qed

end

end
