(* ===== verification/Store_Writers.thy ===== *)
theory Store_Writers
  imports Config Batch_Writer
begin

section \<open>Rows, inserts and the two writers (internal/store)\<close>

text \<open>
  \<open>observations.go\<close> and \<open>raw_posts.go\<close>: the rows and their inserts; \<open>writer.go\<close> and
  \<open>raw_posts_writer.go\<close>: the buffered writers. \<open>pool.CopyFrom\<close> belongs to the Postgres driver: it is the
  parameter \<open>copy\<close>, on a database of a type the model leaves open. The time-out of an attempt
  and the pause before a retry have no effect on the state. The slice \<open>batch\<close> that \<open>Run\<close> owns is a
  field of the writer's state.
\<close>

subsection \<open>Observations (observations.go)\<close>

record Observation =
  ob_ID :: int
  ob_ObservedAt :: gtime
  ob_Kind :: string
  ob_Key :: string
  ob_APMac :: string
  ob_APName :: string
  ob_RSSI :: int
  ob_TxPower :: "int option"
  ob_BatteryMV :: "int option"
  ob_TemperatureC :: "float64 option"
  ob_LocalName :: string
  ob_RawHex :: string
  ob_RawPostID :: "int option"
  ob_Tracked :: bool

text \<open>A row as it is handed to the copy: \<open>None\<close> is SQL's \<open>NULL\<close>.\<close>

record obs_row =
  row_observed_at :: gtime
  row_kind :: string
  row_key :: string
  row_ap_mac :: string
  row_ap_name :: "string option"
  row_rssi :: int
  row_tx_power :: "int option"
  row_battery_mv :: "int option"
  row_temperature_c :: "float64 option"
  row_local_name :: "string option"
  row_raw_hex :: "string option"
  row_raw_post_id :: "int option"
  row_tracked :: bool

definition null_if_empty :: "string \<Rightarrow> string option" where
  "null_if_empty s = (if s \<noteq> [] then Some s else None)"

definition obs_row_of :: "Observation \<Rightarrow> obs_row" where
  "obs_row_of ob =
     \<lparr>row_observed_at = ob_ObservedAt ob, row_kind = ob_Kind ob, row_key = ob_Key ob, row_ap_mac = ob_APMac ob,
      row_ap_name = null_if_empty (ob_APName ob), row_rssi = ob_RSSI ob, row_tx_power = ob_TxPower ob,
      row_battery_mv = ob_BatteryMV ob, row_temperature_c = ob_TemperatureC ob,
      row_local_name = null_if_empty (ob_LocalName ob), row_raw_hex = null_if_empty (ob_RawHex ob),
      row_raw_post_id = ob_RawPostID ob, row_tracked = ob_Tracked ob\<rparr>"

datatype store_error =
    ObservationInvalid nat
  | RawEndpointRequired nat
  | RawBodyRequired nat
  | RawShaRequired nat
  | RawEncodingRequired nat
  | RawEncodingUnknown nat string
  | CopyFailed
  | CopyShort int nat

text \<open>What \<open>CopyFrom\<close> answers: an error, or the number of rows it wrote.\<close>

type_synonym ('row, 'db) copy_fn = "'row list \<Rightarrow> 'db \<Rightarrow> int option \<times> 'db"

text \<open>The end of both inserts: the copy and the check of its count.\<close>

definition copy_rows :: "('row, 'db) copy_fn \<Rightarrow> 'row list \<Rightarrow> 'db \<Rightarrow> store_error option \<times> 'db" where
  "copy_rows copy rows db =
     (let (r, db1) = copy rows db in
      case r of
        None \<Rightarrow> (Some CopyFailed, db1)
      | Some n \<Rightarrow> (if n \<noteq> int (length rows) then Some (CopyShort n (length rows)) else None, db1))"

definition obs_valid :: "Observation \<Rightarrow> bool" where
  "obs_valid ob \<longleftrightarrow> \<not> (ob_Kind ob = [] \<or> ob_Key ob = [] \<or> ob_APMac ob = [])"

fun first_invalid :: "nat \<Rightarrow> Observation list \<Rightarrow> nat option" where
  "first_invalid i [] = None"
| "first_invalid i (ob # obs) = (if \<not> obs_valid ob then Some i else first_invalid (i + 1) obs)"

definition InsertObservations :: "(obs_row, 'db) copy_fn \<Rightarrow> (Observation, store_error, 'db) insert_fn" where
  "InsertObservations copy obs db =
     (if obs = [] then (None, db)
      else (case first_invalid 0 obs of
          Some i \<Rightarrow> (Some (ObservationInvalid i), db)
        | None \<Rightarrow> copy_rows copy (map obs_row_of obs) db))"

subsection \<open>The observations writer (writer.go)\<close>

record WriterOptions =
  wo_BufferSize :: int
  wo_MaxBatch :: int
  wo_FlushInterval :: duration

datatype 'r writer_hook = BatchDropped nat | SubmitDropped 'r

record ObservationsWriter =
  ow_in :: "Observation list"
  ow_cap :: nat
  ow_maxBatch :: int
  ow_flushTick :: duration
  ow_dropped :: "64 word"
  ow_written :: "64 word"
  ow_errors :: "64 word"
  ow_batchesDropped :: "64 word"
  ow_hooks :: "Observation writer_hook list"
  ow_batch :: "Observation list"

definition NewObservationsWriter :: "WriterOptions \<Rightarrow> ObservationsWriter" where
  "NewObservationsWriter opts =
     \<lparr>ow_in = [], ow_cap = nat (if wo_BufferSize opts \<le> 0 then 1024 else wo_BufferSize opts),
      ow_maxBatch = (if wo_MaxBatch opts \<le> 0 then 256 else wo_MaxBatch opts),
      ow_flushTick = (if wo_FlushInterval opts \<le> 0 then second else wo_FlushInterval opts),
      ow_dropped = 0, ow_written = 0, ow_errors = 0, ow_batchesDropped = 0, ow_hooks = [], ow_batch = []\<rparr>"

type_synonym obs_env = "Observation list \<Rightarrow> Observation list"

definition obs_Submit :: "obs_env \<Rightarrow> obs_env \<Rightarrow> Observation \<Rightarrow> ObservationsWriter \<Rightarrow> ObservationsWriter" where
  "obs_Submit env1 env2 ob w =
     (case try_send (ow_cap w) ob (ow_in w) of
        Some q \<Rightarrow> w\<lparr>ow_in := q\<rparr>
      | None \<Rightarrow>
          (let w1 = w\<lparr>ow_in := env1 (ow_in w)\<rparr>;
               (w2, evicted) = (case try_recv (ow_in w1) of
                  None \<Rightarrow> (w1, None)
                | Some (old, q) \<Rightarrow> (w1\<lparr>ow_in := q, ow_dropped := ow_dropped w1 + 1\<rparr>, Some old));
               w3 = w2\<lparr>ow_in := env2 (ow_in w2)\<rparr>
           in case try_send (ow_cap w3) ob (ow_in w3) of
                Some q \<Rightarrow>
                  (let w4 = w3\<lparr>ow_in := q\<rparr> in
                   case evicted of None \<Rightarrow> w4 | Some old \<Rightarrow> w4\<lparr>ow_hooks := ow_hooks w4 @ [SubmitDropped old]\<rparr>)
              | None \<Rightarrow>
                  w3\<lparr>ow_dropped := ow_dropped w3 + 1, ow_hooks := ow_hooks w3 @ [SubmitDropped ob]\<rparr>))"

record WriterStats =
  ws_Written :: "64 word"
  ws_Dropped :: "64 word"
  ws_Errors :: "64 word"
  ws_BatchesDropped :: "64 word"
  ws_Queued :: nat
  ws_Cap :: nat

definition obs_Stats :: "ObservationsWriter \<Rightarrow> WriterStats" where
  "obs_Stats w =
     \<lparr>ws_Written = ow_written w, ws_Dropped = ow_dropped w, ws_Errors = ow_errors w,
      ws_BatchesDropped = ow_batchesDropped w, ws_Queued = length (ow_in w), ws_Cap = ow_cap w\<rparr>"

definition obs_insertWithRetry :: "(Observation, store_error, 'db) insert_fn \<Rightarrow> (Observation, store_error, 'db) insert_fn" where
  "obs_insertWithRetry attempt batch db =
     (let (err, db1) = attempt batch db in
      case err of Some _ \<Rightarrow> attempt batch db1 | None \<Rightarrow> (None, db1))"

definition obs_flushBatch ::
    "(Observation, store_error, 'db) insert_fn \<Rightarrow> ObservationsWriter \<times> 'db \<Rightarrow> ObservationsWriter \<times> 'db" where
  "obs_flushBatch attempt wd =
     (let (w, db) = wd in
      if ow_batch w = [] then (w, db)
      else
        (let rows = length (ow_batch w);
             (err, db1) = obs_insertWithRetry attempt (ow_batch w) db;
             w1 = (case err of
                Some _ \<Rightarrow> w\<lparr>ow_errors := ow_errors w + word_of_nat rows, ow_batchesDropped := ow_batchesDropped w + 1,
                            ow_hooks := ow_hooks w @ [BatchDropped rows]\<rparr>
              | None \<Rightarrow> w\<lparr>ow_written := ow_written w + word_of_nat rows\<rparr>)
         in (w1\<lparr>ow_batch := []\<rparr>, db1)))"

text \<open>A row goes from the channel into the batch, which is flushed when it is full.\<close>

definition obs_collect :: "(Observation, store_error, 'db) insert_fn \<Rightarrow> Observation
    \<Rightarrow> ObservationsWriter \<times> 'db \<Rightarrow> ObservationsWriter \<times> 'db" where
  "obs_collect attempt ob wd =
     (let (w, db) = wd; w1 = w\<lparr>ow_batch := ow_batch w @ [ob]\<rparr> in
      if ow_maxBatch w1 \<le> int (length (ow_batch w1)) then obs_flushBatch attempt (w1, db) else (w1, db))"

definition obs_receive :: "(Observation, store_error, 'db) insert_fn
    \<Rightarrow> ObservationsWriter \<times> 'db \<Rightarrow> ObservationsWriter \<times> 'db" where
  "obs_receive attempt wd =
     (let (w, db) = wd in
      case try_recv (ow_in w) of
        None \<Rightarrow> (w, db)
      | Some (ob, q) \<Rightarrow> obs_collect attempt ob (w\<lparr>ow_in := q\<rparr>, db))"

text \<open>The drain loop, over the rows that the channel holds.\<close>

fun obs_drain :: "(Observation, store_error, 'db) insert_fn \<Rightarrow> Observation list
    \<Rightarrow> ObservationsWriter \<times> 'db \<Rightarrow> ObservationsWriter \<times> 'db" where
  "obs_drain attempt [] wd = obs_flushBatch attempt wd"
| "obs_drain attempt (ob # q) (w, db) = obs_drain attempt q (obs_collect attempt ob (w\<lparr>ow_in := q\<rparr>, db))"

definition obs_drainAndFlush :: "(Observation, store_error, 'db) insert_fn
    \<Rightarrow> ObservationsWriter \<times> 'db \<Rightarrow> ObservationsWriter \<times> 'db" where
  "obs_drainAndFlush attempt wd = obs_drain attempt (ow_in (fst wd)) wd"

definition obs_Run :: "(Observation, store_error, 'db) insert_fn \<Rightarrow> Observation writer_event list
    \<Rightarrow> ObservationsWriter \<times> 'db \<Rightarrow> ObservationsWriter \<times> 'db" where
  "obs_Run attempt =
     writer_run (obs_Submit (\<lambda>q. q) (\<lambda>q. q)) (obs_receive attempt) (obs_flushBatch attempt) (obs_drainAndFlush attempt)"

text \<open>The identities named in the log line of a dropped batch.\<close>

fun sample_loop :: "nat \<Rightarrow> Observation list \<Rightarrow> string list \<Rightarrow> string list" where
  "sample_loop n [] out = out"
| "sample_loop n (ob # obs) out =
     (let slug = ob_Kind ob @ ''.'' @ ob_Key ob in
      if slug \<in> set out then sample_loop n obs out
      else if length (out @ [slug]) \<ge> n then out @ [slug]
      else sample_loop n obs (out @ [slug]))"

definition sampleBeaconKeys :: "Observation list \<Rightarrow> nat \<Rightarrow> string list" where
  "sampleBeaconKeys batch n = sample_loop n batch []"

subsection \<open>Raw posts (raw\_posts.go)\<close>

definition EncodingGzip :: string where "EncodingGzip = ''gzip''"
definition EncodingIdentity :: string where "EncodingIdentity = ''identity''"

record RawPost =
  rp_ID :: int
  rp_ReceivedAt :: gtime
  rp_Endpoint :: string
  rp_RemoteAddr :: string
  rp_ContentEncoding :: string
  rp_Body :: bytes
  rp_BodySHA256 :: string

record rawPostJob =
  job_ID :: int
  job_Row :: RawPost

record raw_row =
  raw_id :: int
  raw_received_at :: gtime
  raw_endpoint :: string
  raw_remote_addr :: "string option"
  raw_content_encoding :: "string option"
  raw_body_gzip :: bytes
  raw_body_sha256 :: string

definition raw_error :: "nat \<Rightarrow> RawPost \<Rightarrow> store_error option" where
  "raw_error i p =
     (if rp_Endpoint p = [] then Some (RawEndpointRequired i)
      else if length (rp_Body p) = 0 then Some (RawBodyRequired i)
      else if rp_BodySHA256 p = [] then Some (RawShaRequired i)
      else if rp_ContentEncoding p = EncodingGzip \<or> rp_ContentEncoding p = EncodingIdentity then None
      else if rp_ContentEncoding p = [] then Some (RawEncodingRequired i)
      else Some (RawEncodingUnknown i (rp_ContentEncoding p)))"

fun first_raw_error :: "nat \<Rightarrow> rawPostJob list \<Rightarrow> store_error option" where
  "first_raw_error i [] = None"
| "first_raw_error i (j # js) =
     (case raw_error i (job_Row j) of Some e \<Rightarrow> Some e | None \<Rightarrow> first_raw_error (i + 1) js)"

definition raw_row_of :: "gtime \<Rightarrow> rawPostJob \<Rightarrow> raw_row" where
  "raw_row_of now j =
     (let p = job_Row j in
      \<lparr>raw_id = job_ID j,
       raw_received_at = (if \<not> time_is_zero (rp_ReceivedAt p) then rp_ReceivedAt p else now),
       raw_endpoint = rp_Endpoint p, raw_remote_addr = null_if_empty (rp_RemoteAddr p),
       raw_content_encoding = null_if_empty (rp_ContentEncoding p), raw_body_gzip = rp_Body p,
       raw_body_sha256 = rp_BodySHA256 p\<rparr>)"

text \<open>\<open>now\<close> is the clock of the attempt, used for rows without a time of their own.\<close>

definition insertRawPostBatch :: "(raw_row, 'db) copy_fn \<Rightarrow> gtime \<Rightarrow> (rawPostJob, store_error, 'db) insert_fn" where
  "insertRawPostBatch copy now batch db =
     (if batch = [] then (None, db)
      else (case first_raw_error 0 batch of
          Some e \<Rightarrow> (Some e, db)
        | None \<Rightarrow> copy_rows copy (map (raw_row_of now) batch) db))"

text \<open>
  \<open>InsertRawPost\<close> validates in the same way; \<open>run_insert\<close> runs the statement and returns the id.
\<close>

definition InsertRawPost :: "(RawPost \<Rightarrow> 'db \<Rightarrow> int option \<times> 'db) \<Rightarrow> RawPost \<Rightarrow> 'db
    \<Rightarrow> (store_error + int) \<times> 'db" where
  "InsertRawPost run_insert p db =
     (case raw_error 0 p of
        Some e \<Rightarrow> (Inl e, db)
      | None \<Rightarrow> (let (r, db1) = run_insert p db in (case r of None \<Rightarrow> Inl CopyFailed | Some i \<Rightarrow> Inr i, db1)))"

text \<open>
  \<open>GetRawPost\<close> of a row that was found: the two nullable columns become strings, and an
  empty or missing encoding reads as identity.
\<close>

definition raw_post_of_row :: "raw_row \<Rightarrow> RawPost" where
  "raw_post_of_row r =
     \<lparr>rp_ID = raw_id r, rp_ReceivedAt = raw_received_at r, rp_Endpoint = raw_endpoint r,
      rp_RemoteAddr = (case raw_remote_addr r of None \<Rightarrow> [] | Some a \<Rightarrow> a),
      rp_ContentEncoding = (case raw_content_encoding r of
          None \<Rightarrow> EncodingIdentity
        | Some ce \<Rightarrow> (if ce = [] then EncodingIdentity else ce)),
      rp_Body = raw_body_gzip r, rp_BodySHA256 = raw_body_sha256 r\<rparr>"

subsection \<open>The raw-posts writer (raw\_posts\_writer.go)\<close>

record RawPostsWriter =
  rw_in :: "rawPostJob list"
  rw_cap :: nat
  rw_maxBatch :: int
  rw_flushTick :: duration
  rw_dropped :: "64 word"
  rw_written :: "64 word"
  rw_errors :: "64 word"
  rw_batchesDropped :: "64 word"
  rw_hooks :: "RawPost writer_hook list"
  rw_batch :: "rawPostJob list"

definition NewRawPostsWriter :: "WriterOptions \<Rightarrow> RawPostsWriter" where
  "NewRawPostsWriter opts =
     \<lparr>rw_in = [], rw_cap = nat (if wo_BufferSize opts \<le> 0 then 256 else wo_BufferSize opts),
      rw_maxBatch = (if wo_MaxBatch opts \<le> 0 then 32 else wo_MaxBatch opts),
      rw_flushTick = (if wo_FlushInterval opts \<le> 0 then second else wo_FlushInterval opts),
      rw_dropped = 0, rw_written = 0, rw_errors = 0, rw_batchesDropped = 0, rw_hooks = [], rw_batch = []\<rparr>"

text \<open>\<open>nextval\<close> is the query for the next id of the sequence.\<close>

definition AllocateID :: "('db \<Rightarrow> int option \<times> 'db) \<Rightarrow> 'db \<Rightarrow> int option \<times> 'db" where
  "AllocateID nextval db = nextval db"

type_synonym raw_env = "rawPostJob list \<Rightarrow> rawPostJob list"

definition raw_enqueue :: "raw_env \<Rightarrow> raw_env \<Rightarrow> rawPostJob \<Rightarrow> RawPostsWriter \<Rightarrow> RawPostsWriter" where
  "raw_enqueue env1 env2 job w =
     (case try_send (rw_cap w) job (rw_in w) of
        Some q \<Rightarrow> w\<lparr>rw_in := q\<rparr>
      | None \<Rightarrow>
          (let w1 = w\<lparr>rw_in := env1 (rw_in w)\<rparr>;
               (w2, evicted) = (case try_recv (rw_in w1) of
                  None \<Rightarrow> (w1, None)
                | Some (old, q) \<Rightarrow> (w1\<lparr>rw_in := q, rw_dropped := rw_dropped w1 + 1\<rparr>, Some old));
               w3 = w2\<lparr>rw_in := env2 (rw_in w2)\<rparr>
           in case try_send (rw_cap w3) job (rw_in w3) of
                Some q \<Rightarrow>
                  (let w4 = w3\<lparr>rw_in := q\<rparr> in
                   case evicted of None \<Rightarrow> w4
                   | Some old \<Rightarrow> w4\<lparr>rw_hooks := rw_hooks w4 @ [SubmitDropped (job_Row old)]\<rparr>)
              | None \<Rightarrow>
                  w3\<lparr>rw_dropped := rw_dropped w3 + 1, rw_hooks := rw_hooks w3 @ [SubmitDropped (job_Row job)]\<rparr>))"

definition raw_Submit :: "raw_env \<Rightarrow> raw_env \<Rightarrow> int \<Rightarrow> RawPost \<Rightarrow> RawPostsWriter \<Rightarrow> RawPostsWriter" where
  "raw_Submit env1 env2 i row w = raw_enqueue env1 env2 \<lparr>job_ID = i, job_Row = row\<rparr> w"

definition raw_Stats :: "RawPostsWriter \<Rightarrow> WriterStats" where
  "raw_Stats w =
     \<lparr>ws_Written = rw_written w, ws_Dropped = rw_dropped w, ws_Errors = rw_errors w,
      ws_BatchesDropped = rw_batchesDropped w, ws_Queued = length (rw_in w), ws_Cap = rw_cap w\<rparr>"

definition raw_insertWithRetry :: "(rawPostJob, store_error, 'db) insert_fn \<Rightarrow> (rawPostJob, store_error, 'db) insert_fn" where
  "raw_insertWithRetry attempt batch db =
     (let (err, db1) = attempt batch db in
      case err of Some _ \<Rightarrow> attempt batch db1 | None \<Rightarrow> (None, db1))"

definition raw_flushBatch ::
    "(rawPostJob, store_error, 'db) insert_fn \<Rightarrow> RawPostsWriter \<times> 'db \<Rightarrow> RawPostsWriter \<times> 'db" where
  "raw_flushBatch attempt wd =
     (let (w, db) = wd in
      if rw_batch w = [] then (w, db)
      else
        (let rows = length (rw_batch w);
             (err, db1) = raw_insertWithRetry attempt (rw_batch w) db;
             w1 = (case err of
                Some _ \<Rightarrow> w\<lparr>rw_errors := rw_errors w + word_of_nat rows, rw_batchesDropped := rw_batchesDropped w + 1,
                            rw_hooks := rw_hooks w @ [BatchDropped rows]\<rparr>
              | None \<Rightarrow> w\<lparr>rw_written := rw_written w + word_of_nat rows\<rparr>)
         in (w1\<lparr>rw_batch := []\<rparr>, db1)))"

definition raw_collect :: "(rawPostJob, store_error, 'db) insert_fn \<Rightarrow> rawPostJob
    \<Rightarrow> RawPostsWriter \<times> 'db \<Rightarrow> RawPostsWriter \<times> 'db" where
  "raw_collect attempt job wd =
     (let (w, db) = wd; w1 = w\<lparr>rw_batch := rw_batch w @ [job]\<rparr> in
      if rw_maxBatch w1 \<le> int (length (rw_batch w1)) then raw_flushBatch attempt (w1, db) else (w1, db))"

definition raw_receive :: "(rawPostJob, store_error, 'db) insert_fn
    \<Rightarrow> RawPostsWriter \<times> 'db \<Rightarrow> RawPostsWriter \<times> 'db" where
  "raw_receive attempt wd =
     (let (w, db) = wd in
      case try_recv (rw_in w) of
        None \<Rightarrow> (w, db)
      | Some (job, q) \<Rightarrow> raw_collect attempt job (w\<lparr>rw_in := q\<rparr>, db))"

fun raw_drain :: "(rawPostJob, store_error, 'db) insert_fn \<Rightarrow> rawPostJob list
    \<Rightarrow> RawPostsWriter \<times> 'db \<Rightarrow> RawPostsWriter \<times> 'db" where
  "raw_drain attempt [] wd = raw_flushBatch attempt wd"
| "raw_drain attempt (job # q) (w, db) = raw_drain attempt q (raw_collect attempt job (w\<lparr>rw_in := q\<rparr>, db))"

definition raw_drainAndFlush :: "(rawPostJob, store_error, 'db) insert_fn
    \<Rightarrow> RawPostsWriter \<times> 'db \<Rightarrow> RawPostsWriter \<times> 'db" where
  "raw_drainAndFlush attempt wd = raw_drain attempt (rw_in (fst wd)) wd"

definition raw_Run :: "(rawPostJob, store_error, 'db) insert_fn \<Rightarrow> rawPostJob writer_event list
    \<Rightarrow> RawPostsWriter \<times> 'db \<Rightarrow> RawPostsWriter \<times> 'db" where
  "raw_Run attempt =
     writer_run (raw_enqueue (\<lambda>q. q) (\<lambda>q. q)) (raw_receive attempt) (raw_flushBatch attempt) (raw_drainAndFlush attempt)"

subsection \<open>Both writers keep the contract\<close>

lemma insertWithRetry_retry: "obs_insertWithRetry = retry_insert" "raw_insertWithRetry = retry_insert"
  by (intro ext, simp add: obs_insertWithRetry_def raw_insertWithRetry_def retry_insert_def split: prod.splits option.splits)+

lemma obs_drain_receive:
  "obs_drainAndFlush ins (w, db) =
     (if ow_in w = [] then obs_flushBatch ins (w, db) else obs_drainAndFlush ins (obs_receive ins (w, db)))"
proof (cases "ow_in w")
  case (Cons ob q)
  have "ow_in (fst (obs_collect ins ob (w\<lparr>ow_in := q\<rparr>, db))) = q"
    by (auto simp: obs_collect_def obs_flushBatch_def Let_def split: prod.splits option.splits)
  with Cons show ?thesis by (simp add: obs_drainAndFlush_def obs_receive_def)
qed (simp add: obs_drainAndFlush_def)

lemma raw_drain_receive:
  "raw_drainAndFlush ins (w, db) =
     (if rw_in w = [] then raw_flushBatch ins (w, db) else raw_drainAndFlush ins (raw_receive ins (w, db)))"
proof (cases "rw_in w")
  case (Cons ob q)
  have "rw_in (fst (raw_collect ins ob (w\<lparr>rw_in := q\<rparr>, db))) = q"
    by (auto simp: raw_collect_def raw_flushBatch_def Let_def split: prod.splits option.splits)
  with Cons show ?thesis by (simp add: raw_drainAndFlush_def raw_receive_def)
qed (simp add: raw_drainAndFlush_def)

lemma obs_Submit_laws:
  "ow_in (obs_Submit env1 env2 x w) = fst (drop_oldest (ow_cap w) env1 env2 x (ow_in w))"
  "ow_dropped (obs_Submit env1 env2 x w)
     = ow_dropped w + word_of_nat (length (fst (snd (drop_oldest (ow_cap w) env1 env2 x (ow_in w)))))"
  "ow_cap (obs_Submit env1 env2 x w) = ow_cap w" "ow_batch (obs_Submit env1 env2 x w) = ow_batch w"
  "ow_maxBatch (obs_Submit env1 env2 x w) = ow_maxBatch w"
  "ow_written (obs_Submit env1 env2 x w) = ow_written w" "ow_errors (obs_Submit env1 env2 x w) = ow_errors w"
  by (auto simp: obs_Submit_def drop_oldest_def try_send_def Let_def split: option.split)

interpretation obsw: batch_writer obs_Submit ow_in ow_cap ow_dropped ow_batch ow_maxBatch ow_written ow_errors
    obs_flushBatch obs_receive obs_drainAndFlush
proof (unfold_locales, goal_cases)
  case (8 s ins db) then show ?case by (simp add: obs_flushBatch_def)
next
  case (9 s ins db)
  then show ?case
    by (auto simp: obs_flushBatch_def insertWithRetry_retry Let_def split: prod.splits option.splits)
next
  case (10 s ins db) then show ?case by (simp add: obs_receive_def)
next
  case (11 s x q ins db)
  then show ?case
    by (intro exI [of _ "s\<lparr>ow_in := q, ow_batch := ow_batch s @ [x]\<rparr>"]) (simp add: obs_receive_def obs_collect_def Let_def)
next
  case (12 ins s db) show ?case by (rule obs_drain_receive)
qed (simp_all add: obs_Submit_laws)

lemma raw_enqueue_laws:
  "rw_in (raw_enqueue env1 env2 x w) = fst (drop_oldest (rw_cap w) env1 env2 x (rw_in w))"
  "rw_dropped (raw_enqueue env1 env2 x w)
     = rw_dropped w + word_of_nat (length (fst (snd (drop_oldest (rw_cap w) env1 env2 x (rw_in w)))))"
  "rw_cap (raw_enqueue env1 env2 x w) = rw_cap w" "rw_batch (raw_enqueue env1 env2 x w) = rw_batch w"
  "rw_maxBatch (raw_enqueue env1 env2 x w) = rw_maxBatch w"
  "rw_written (raw_enqueue env1 env2 x w) = rw_written w" "rw_errors (raw_enqueue env1 env2 x w) = rw_errors w"
  by (auto simp: raw_enqueue_def drop_oldest_def try_send_def Let_def split: option.split)

interpretation raww: batch_writer raw_enqueue rw_in rw_cap rw_dropped rw_batch rw_maxBatch rw_written rw_errors
    raw_flushBatch raw_receive raw_drainAndFlush
proof (unfold_locales, goal_cases)
  case (8 s ins db) then show ?case by (simp add: raw_flushBatch_def)
next
  case (9 s ins db)
  then show ?case
    by (auto simp: raw_flushBatch_def insertWithRetry_retry Let_def split: prod.splits option.splits)
next
  case (10 s ins db) then show ?case by (simp add: raw_receive_def)
next
  case (11 s x q ins db)
  then show ?case
    by (intro exI [of _ "s\<lparr>rw_in := q, rw_batch := rw_batch s @ [x]\<rparr>"]) (simp add: raw_receive_def raw_collect_def Let_def)
next
  case (12 ins s db) show ?case by (rule raw_drain_receive)
qed (simp_all add: raw_enqueue_laws)

subsection \<open>Guarantees\<close>

lemma New_writers_sound:
  "obsw.sound (NewObservationsWriter opts)" "obsw.accounted 0 (NewObservationsWriter opts)"
  "raww.sound (NewRawPostsWriter opts)" "raww.accounted 0 (NewRawPostsWriter opts)"
  by (simp_all add: obsw.sound_def obsw.accounted_def NewObservationsWriter_def raww.sound_def raww.accounted_def
        NewRawPostsWriter_def)


text \<open>
  The same accounting for the writer of raw posts.
\<close>

theorem raw_writer_accounts_for_rows:
  "let (w, db') = raw_Run ins evs (NewRawPostsWriter opts, db) in
   rw_in w = [] \<and> rw_batch w = [] \<and>
   word_of_nat (length (submits evs)) = rw_written w + rw_dropped w + rw_errors w"
proof -
  obtain w db' where r: "raw_Run ins evs (NewRawPostsWriter opts, db) = (w, db')"
    by (cases "raw_Run ins evs (NewRawPostsWriter opts, db)")
  then show ?thesis
    using raww.run_accounted [OF New_writers_sound(4,3), where ins = ins and evs = evs and db = db and s' = w and db' = db'] by (simp add: raw_Run_def)
qed

text \<open>A copy that works: it writes all its rows, after those of the table.\<close>

definition copy_works :: "('db \<Rightarrow> 'row list) \<Rightarrow> ('row, 'db) copy_fn \<Rightarrow> bool" where
  "copy_works stored copy \<longleftrightarrow>
     (\<forall>rows db. fst (copy rows db) = Some (int (length rows)) \<and> stored (snd (copy rows db)) = stored db @ rows)"

lemma first_invalid_None: "first_invalid i obs = None \<longleftrightarrow> list_all obs_valid obs"
  by (induction obs arbitrary: i) auto

lemma copy_works_rows:
  "copy_works stored copy \<Longrightarrow> fst (copy_rows copy rows db) = None \<and> stored (snd (copy_rows copy rows db)) = stored db @ rows"
proof -
  assume "copy_works stored copy"
  then have "fst (copy rows db) = Some (int (length rows))" "stored (snd (copy rows db)) = stored db @ rows"
    by (simp_all add: copy_works_def)
  then show ?thesis by (cases "copy rows db") (simp add: copy_rows_def)
qed

lemma InsertObservations_works:
  assumes "copy_works stored copy"
  shows "atomic_insert obs_row_of stored (InsertObservations copy)"
    and "list_all obs_valid b \<Longrightarrow> fst (InsertObservations copy b db) = None"
proof -
  note c = copy_works_rows [OF assms]
  show "atomic_insert obs_row_of stored (InsertObservations copy)"
    using c by (simp add: atomic_insert_def InsertObservations_def split: option.split)
  show "fst (InsertObservations copy b db) = None" if "list_all obs_valid b"
    using c that first_invalid_None [of 0 b] by (simp add: InsertObservations_def)
qed

text \<open>
  If the database accepts copies, every submitted row has an identity and an access point, and
  the channel is large enough for the burst, then after shutdown the table holds exactly the
  submitted rows, once each and in the order of submission, whatever the batching was.
\<close>

theorem writer_stores_in_order:
  assumes "copy_works stored copy" "list_all obs_valid (submits evs)"
    and "length (submits evs) \<le> ow_cap (NewObservationsWriter opts)"
  shows "stored (snd (obs_Run (InsertObservations copy) evs (NewObservationsWriter opts, db)))
    = stored db @ map obs_row_of (submits evs)"
proof -
  let ?w = "NewObservationsWriter opts"
  obtain w db' where r: "obs_Run (InsertObservations copy) evs (?w, db) = (w, db')"
    by (cases "obs_Run (InsertObservations copy) evs (?w, db)")
  have "ow_batch ?w = []" "ow_in ?w = []" "0 < ow_cap ?w" by (simp_all add: NewObservationsWriter_def)
  from obsw.run_in_order [OF InsertObservations_works [OF assms(1)] this(1,2) assms(2,3) this(3), of db w db'] r
  show ?thesis by (simp add: obs_Run_def)
qed

definition sample_obs :: "string \<Rightarrow> Observation" where
  "sample_obs ap =
     \<lparr>ob_ID = 0, ob_ObservedAt = 1, ob_Kind = ''name'', ob_Key = ''fob'', ob_APMac = ap, ob_APName = [], ob_RSSI = - 60,
      ob_TxPower = None, ob_BatteryMV = None, ob_TemperatureC = None, ob_LocalName = [], ob_RawHex = [],
      ob_RawPostID = None, ob_Tracked = True\<rparr>"

definition small_writer :: WriterOptions where
  "small_writer = \<lparr>wo_BufferSize = 3, wo_MaxBatch = 2, wo_FlushInterval = 0\<rparr>"

text \<open>A database that is the list of its rows, and a copy that always succeeds.\<close>

definition list_copy :: "('row, 'row list) copy_fn" where
  "list_copy rows db = (Some (int (length rows)), db @ rows)"

lemma list_copy_works: "copy_works (\<lambda>db. db) list_copy"
  by (simp add: copy_works_def list_copy_def)

theorem writer_stores_in_order_witness:
  "let evs = [Submitted (sample_obs ''a''), Submitted (sample_obs ''b''), Received, Submitted (sample_obs ''c''), Ticked]
   in snd (obs_Run (InsertObservations list_copy) evs (NewObservationsWriter small_writer, []))
      = map obs_row_of [sample_obs ''a'', sample_obs ''b'', sample_obs ''c'']"
  using writer_stores_in_order [OF list_copy_works,
      of "[Submitted (sample_obs ''a''), Submitted (sample_obs ''b''), Received, Submitted (sample_obs ''c''), Ticked]"
        small_writer "[]"]
  by (simp add: obs_valid_def sample_obs_def NewObservationsWriter_def small_writer_def)

text \<open>
  One row without an access point in a batch loses the whole batch: the insert rejects it
  before the database sees any row, the retry rejects it again, and every row of the
  batch, valid or not, is counted as an error and discarded.
\<close>

theorem poison_row_drops_batch:
  assumes "ob \<in> set (ow_batch w)" "ob_APMac ob = []"
  shows "let n = length (ow_batch w) in
    obs_flushBatch (InsertObservations copy) (w, db) =
      (w\<lparr>ow_errors := ow_errors w + word_of_nat n, ow_batchesDropped := ow_batchesDropped w + 1,
         ow_hooks := ow_hooks w @ [BatchDropped n], ow_batch := []\<rparr>, db)"
proof -
  have "\<not> list_all obs_valid (ow_batch w)" using assms by (auto simp: list_all_iff obs_valid_def)
  then obtain i where "first_invalid 0 (ow_batch w) = Some i"
    using first_invalid_None [of 0 "ow_batch w"] by (cases "first_invalid 0 (ow_batch w)") auto
  with assms(1) show ?thesis
    by (cases "ow_batch w = []") (simp_all add: obs_flushBatch_def obs_insertWithRetry_def InsertObservations_def)
qed

theorem poison_row_drops_batch_witness:
  "let w = (NewObservationsWriter small_writer)\<lparr>ow_batch := [sample_obs ''a'', sample_obs []]\<rparr>;
       (w', db) = obs_flushBatch (InsertObservations list_copy) (w, [])
   in db = [] \<and> ow_batch w' = [] \<and> ow_errors w' = 2"
  using poison_row_drops_batch [of "sample_obs []"
      "(NewObservationsWriter small_writer)\<lparr>ow_batch := [sample_obs ''a'', sample_obs []]\<rparr>" list_copy "[]"]
  by (simp add: sample_obs_def NewObservationsWriter_def)

text \<open>
  An envelope that the insert accepts reads back as it was written: the same endpoint, address, encoding,
  body and digest, under the id allocated for it, with the time of the attempt if it had none.
\<close>

theorem raw_post_roundtrip:
  assumes "raw_error i (job_Row j) = None"
  shows "raw_post_of_row (raw_row_of now j) =
    (job_Row j)\<lparr>rp_ID := job_ID j,
      rp_ReceivedAt := (if rp_ReceivedAt (job_Row j) = 0 then now else rp_ReceivedAt (job_Row j))\<rparr>"
  using assms
  by (auto simp: raw_post_of_row_def raw_row_of_def raw_error_def null_if_empty_def time_is_zero_def EncodingGzip_def
        EncodingIdentity_def Let_def split: if_splits)

definition sample_job :: rawPostJob where
  "sample_job =
     \<lparr>job_ID = 7, job_Row = \<lparr>rp_ID = 0, rp_ReceivedAt = 0, rp_Endpoint = ''/ingest'', rp_RemoteAddr = [],
        rp_ContentEncoding = ''gzip'', rp_Body = [1], rp_BodySHA256 = ''ab''\<rparr>\<rparr>"

theorem raw_post_roundtrip_witness:
  "let p = raw_post_of_row (raw_row_of 5 sample_job) in
   raw_error 0 (job_Row sample_job) = None \<and> rp_ID p = 7 \<and> rp_ReceivedAt p = 5 \<and> rp_ContentEncoding p = ''gzip''"
proof -
  have "raw_error 0 (job_Row sample_job) = None"
    by (simp add: raw_error_def sample_job_def EncodingGzip_def)
  with raw_post_roundtrip [OF this, of 5] show ?thesis by (simp add: Let_def) (simp add: sample_job_def)
qed

end
