(* ===== verification/Store.thy ===== *)
theory Store
  imports Store_Writers
begin

section \<open>Tables and queries (internal/store)\<close>

text \<open>
  \<open>postgres.go\<close>, \<open>topology.go\<close>, \<open>presence_state.go\<close>, \<open>settings.go\<close>, \<open>seed.go\<close>, \<open>retention.go\<close> and the queries of
  \<open>observations.go\<close> and \<open>raw_posts.go\<close>. A table is the list of its rows with the columns that the code reads or
  writes (not \<open>updated_at\<close>), and a statement is what its SQL text says of that list, with the keys
  and unique columns of \<open>schema.sql\<close>. Whether the server carries a statement out is not known to the code:
  the \<open>fault\<close> arguments say which statements fail, for a broken connection, a time-out or a
  \<open>CHECK\<close> constraint. The order of \<open>ORDER BY\<close> on text depends on the collation of the database
  and is the argument \<open>ordered\<close>. A failed or uncommitted transaction leaves the tables as they were.
\<close>

subsection \<open>The database\<close>

record beacon_row =
  br_kind :: string
  br_key :: string
  br_name :: string
  br_notes :: "string option"

record zone_row =
  zr_ap_mac :: string
  zr_zone_label :: string
  zr_ap_name :: "string option"

record presence_row =
  pr_kind :: string
  pr_key :: string
  pr_current_zone :: string
  pr_current_ap :: string
  pr_last_arrival :: "gtime option"

record settings_row =
  sr_retention_days :: int
  sr_capture_per_event_hex :: bool
  sr_capture_full_posts :: bool

record Database =
  db_defaults :: "DefaultsBlock option"
  db_overrides :: "(string, Overrides) gmap"
  db_beacons :: "beacon_row list"
  db_zones :: "zone_row list"
  db_observations :: "(int \<times> obs_row) list"
  db_raw_posts :: "raw_row list"
  db_settings :: "settings_row option"
  db_presence :: "presence_row list"

text \<open>An error of the driver: typed with an SQL state, or only a text.\<close>

datatype pg_error = PgTyped string string | PgPlain string

datatype db_error =
    ErrEmpty
  | ErrNotFound
  | ErrConflict
  | QueryFailed
  | StatementFailed nat
  | CorruptRow string string
  | ZeroKey
  | NameRequired
  | MacRequired
  | LabelRequired
  | RetentionOutOfRange int
  | PresenceRowInvalid nat
  | SaveNil
  | SaveInvalid config_error
  | LoadExisting db_error
  | ParseSeed config_error
  | SaveSeed db_error

text \<open>
  A transaction: \<open>fault 0\<close> is its begin, \<open>fault i\<close> its \<open>i\<close>-th statement, and the last one the commit.
  A statement is \<open>None\<close> when a constraint rejects it.
\<close>

fun exec_steps :: "(nat \<Rightarrow> bool) \<Rightarrow> nat \<Rightarrow> (Database \<Rightarrow> Database option) list \<Rightarrow> Database \<Rightarrow> nat + Database" where
  "exec_steps fault i [] db = (if fault i then Inl i else Inr db)"
| "exec_steps fault i (st # sts) db =
     (if fault i then Inl i else (case st db of None \<Rightarrow> Inl i | Some db1 \<Rightarrow> exec_steps fault (i + 1) sts db1))"

definition run_tx :: "(nat \<Rightarrow> bool) \<Rightarrow> (Database \<Rightarrow> Database option) list \<Rightarrow> Database \<Rightarrow> db_error option \<times> Database" where
  "run_tx fault steps db =
     (if fault 0 then (Some (StatementFailed 0), db)
      else (case exec_steps fault 1 steps db of
          Inl i \<Rightarrow> (Some (StatementFailed i), db)
        | Inr db1 \<Rightarrow> (None, db1)))"

subsection \<open>Tunables (postgres.go, seed.go)\<close>

definition loadDefaults :: "bool \<Rightarrow> Database \<Rightarrow> db_error + DefaultsBlock" where
  "loadDefaults fault db =
     (if fault then Inl QueryFailed
      else (case db_defaults db of None \<Rightarrow> Inl ErrEmpty | Some d \<Rightarrow> Inr d))"

definition loadOverrides :: "bool \<Rightarrow> Database \<Rightarrow> db_error + (string, Overrides) gmap" where
  "loadOverrides fault db = (if fault then Inl QueryFailed else Inr (db_overrides db))"

definition LoadAll :: "bool \<Rightarrow> bool \<Rightarrow> Database \<Rightarrow> db_error + Tunables" where
  "LoadAll fault1 fault2 db =
     (case loadDefaults fault1 db of
        Inl e \<Rightarrow> Inl e
      | Inr d \<Rightarrow>
          (case loadOverrides fault2 db of
             Inl e \<Rightarrow> Inl e
           | Inr ovs \<Rightarrow> Inr \<lparr>Defaults = d, Tun_Beacons = ovs\<rparr>))"

definition upsert_defaults :: "DefaultsBlock \<Rightarrow> Database \<Rightarrow> Database option" where
  "upsert_defaults d db = Some (db\<lparr>db_defaults := Some d\<rparr>)"

definition insert_override :: "string \<times> Overrides \<Rightarrow> Database \<Rightarrow> Database option" where
  "insert_override r db =
     (if mget (db_overrides db) (fst r) \<noteq> None then None else Some (db\<lparr>db_overrides := db_overrides db @ [r]\<rparr>))"

definition SaveAll :: "(nat \<Rightarrow> bool) \<Rightarrow> Tunables option \<Rightarrow> Database \<Rightarrow> db_error option \<times> Database" where
  "SaveAll fault tn db =
     (case tn of
        None \<Rightarrow> (Some SaveNil, db)
      | Some t \<Rightarrow>
          (case Validate (Some t) of
             Some e \<Rightarrow> (Some (SaveInvalid e), db)
           | None \<Rightarrow>
               run_tx fault
                 ([upsert_defaults (Defaults t), \<lambda>db. Some (db\<lparr>db_overrides := []\<rparr>)]
                    @ map insert_override (Tun_Beacons t)) db))"

definition SeedFromYAMLIfEmpty ::
    "bool \<Rightarrow> bool \<Rightarrow> (nat \<Rightarrow> bool) \<Rightarrow> (bytes \<Rightarrow> Tunables option) \<Rightarrow> bytes \<Rightarrow> Database \<Rightarrow> (db_error + Tunables) \<times> Database" where
  "SeedFromYAMLIfEmpty fault1 fault2 fault yaml_decode yamlSeed db =
     (case LoadAll fault1 fault2 db of
        Inr t \<Rightarrow> (Inr t, db)
      | Inl err \<Rightarrow>
          if err \<noteq> ErrEmpty then (Inl (LoadExisting err), db)
          else (case ParseTunables yaml_decode yamlSeed of
              Inl perr \<Rightarrow> (Inl (ParseSeed perr), db)
            | Inr seed \<Rightarrow>
                (let (serr, db1) = SaveAll fault (Some seed) db in
                 case serr of Some e \<Rightarrow> (Inl (SaveSeed e), db1) | None \<Rightarrow> (Inr seed, db1))))"

text \<open>The connection loop of \<open>NewPostgres\<close>: \<open>up n\<close> tells whether attempt \<open>n\<close> connects and answers the ping,
  \<open>cancelled n\<close> whether the context ends during the pause after it.\<close>

datatype connect_result = Connected_at nat | Connect_cancelled | Connect_failed nat

function connect_loop :: "(nat \<Rightarrow> bool) \<Rightarrow> (nat \<Rightarrow> bool) \<Rightarrow> nat \<Rightarrow> nat \<Rightarrow> connect_result" where
  "connect_loop up cancelled maxAttempts attempt =
     (if attempt > maxAttempts then Connect_failed maxAttempts
      else if up attempt then Connected_at attempt
      else if attempt = maxAttempts then Connect_failed maxAttempts
      else if cancelled attempt then Connect_cancelled
      else connect_loop up cancelled maxAttempts (attempt + 1))"
  by pat_completeness auto
termination by (relation "measure (\<lambda>(up, c, m, a). Suc m - a)") auto

definition NewPostgres :: "(nat \<Rightarrow> bool) \<Rightarrow> (nat \<Rightarrow> bool) \<Rightarrow> int \<Rightarrow> connect_result" where
  "NewPostgres up cancelled maxAttempts =
     connect_loop up cancelled (nat (if maxAttempts < 1 then 1 else maxAttempts)) 1"

text \<open>\<open>applySchema\<close> on a database whose tables have the present columns: the settings get their default row if they have none.\<close>

definition default_settings_row :: settings_row where
  "default_settings_row = \<lparr>sr_retention_days = 7, sr_capture_per_event_hex = True, sr_capture_full_posts = False\<rparr>"

definition applySchema :: "bool \<Rightarrow> Database \<Rightarrow> db_error option \<times> Database" where
  "applySchema fault db =
     (if fault then (Some QueryFailed, db)
      else (None, db\<lparr>db_settings := Some (case db_settings db of None \<Rightarrow> default_settings_row | Some s \<Rightarrow> s)\<rparr>))"

subsection \<open>The allowlist and the zones (topology.go)\<close>

record Beacon =
  b_Key :: BeaconKey
  b_Name :: string
  b_Notes :: string

definition NewBeacon :: "BeaconKey \<Rightarrow> string \<Rightarrow> string \<Rightarrow> db_error + Beacon" where
  "NewBeacon k nm notes =
     (if key_IsZero k then Inl ZeroKey
      else if blank nm then Inl NameRequired
      else Inr \<lparr>b_Key = k, b_Name = nm, b_Notes = notes\<rparr>)"

record StoreZone =
  z_APMac :: APMAC
  z_ZoneLabel :: ZoneLabel
  z_APName :: string

definition NewZone :: "APMAC \<Rightarrow> ZoneLabel \<Rightarrow> string \<Rightarrow> StoreZone" where
  "NewZone apMac lbl apName = \<lparr>z_APMac = apMac, z_ZoneLabel = lbl, z_APName = apName\<rparr>"

definition validateBeacon :: "Beacon \<Rightarrow> db_error option" where
  "validateBeacon b =
     (if key_IsZero (b_Key b) then Some ZeroKey
      else if blank (b_Name b) then Some NameRequired
      else None)"

definition isUniqueViolation :: "pg_error \<Rightarrow> bool" where
  "isUniqueViolation err =
     (case err of
        PgTyped st msg \<Rightarrow> st = ''23505''
      | PgPlain msg \<Rightarrow> sublist ''23505'' msg)"

definition beacon_row_of :: "Beacon \<Rightarrow> beacon_row" where
  "beacon_row_of b =
     \<lparr>br_kind = kind (b_Key b), br_key = key (b_Key b), br_name = b_Name b, br_notes = null_if_empty (b_Notes b)\<rparr>"

text \<open>The primary key \<open>(kind, key)\<close> and the unique column \<open>name\<close>.\<close>

definition beacon_conflict :: "beacon_row \<Rightarrow> beacon_row list \<Rightarrow> bool" where
  "beacon_conflict r rs \<longleftrightarrow>
     (\<exists>r' \<in> set rs. (br_kind r' = br_kind r \<and> br_key r' = br_key r) \<or> br_name r' = br_name r)"

definition insert_beacon :: "pg_error option \<Rightarrow> beacon_row \<Rightarrow> Database \<Rightarrow> pg_error option \<times> Database" where
  "insert_beacon fault r db =
     (case fault of
        Some e \<Rightarrow> (Some e, db)
      | None \<Rightarrow>
          if beacon_conflict r (db_beacons db) then (Some (PgTyped ''23505'' ''duplicate key value''), db)
          else (None, db\<lparr>db_beacons := db_beacons db @ [r]\<rparr>))"

definition PromoteBeacon :: "pg_error option \<Rightarrow> Beacon \<Rightarrow> Database \<Rightarrow> db_error option \<times> Database" where
  "PromoteBeacon fault b db =
     (case validateBeacon b of
        Some e \<Rightarrow> (Some e, db)
      | None \<Rightarrow>
          (let (err, db1) = insert_beacon fault (beacon_row_of b) db in
           case err of
             None \<Rightarrow> (None, db1)
           | Some e \<Rightarrow> (Some (if isUniqueViolation e then ErrConflict else QueryFailed), db1)))"

definition DemoteBeacon :: "bool \<Rightarrow> BeaconKey \<Rightarrow> Database \<Rightarrow> db_error option \<times> Database" where
  "DemoteBeacon fault k db =
     (if fault then (Some QueryFailed, db)
      else
        (let hit = (\<lambda>r. br_kind r = kind k \<and> br_key r = key k);
             rest = filter (\<lambda>r. \<not> hit r) (db_beacons db)
         in (if length rest = length (db_beacons db) then Some ErrNotFound else None, db\<lparr>db_beacons := rest\<rparr>)))"

fun scan_beacons :: "beacon_row list \<Rightarrow> Beacon list \<Rightarrow> db_error + Beacon list" where
  "scan_beacons [] out = Inr out"
| "scan_beacons (r # rs) out =
     (case FromStoreKey (br_kind r) (br_key r) of
        None \<Rightarrow> Inl (CorruptRow (br_kind r) (br_key r))
      | Some bk \<Rightarrow>
          scan_beacons rs (out @ [\<lparr>b_Key = bk, b_Name = br_name r,
            b_Notes = (case br_notes r of None \<Rightarrow> [] | Some n \<Rightarrow> n)\<rparr>]))"

definition ListBeacons :: "bool \<Rightarrow> (beacon_row list \<Rightarrow> beacon_row list) \<Rightarrow> Database \<Rightarrow> db_error + Beacon list" where
  "ListBeacons fault ordered db =
     (if fault then Inl QueryFailed else scan_beacons (ordered (db_beacons db)) [])"

definition zone_row_of :: "StoreZone \<Rightarrow> zone_row" where
  "zone_row_of z =
     \<lparr>zr_ap_mac = mac (z_APMac z), zr_zone_label = label (z_ZoneLabel z), zr_ap_name = null_if_empty (z_APName z)\<rparr>"

fun upsert_zone :: "zone_row \<Rightarrow> zone_row list \<Rightarrow> zone_row list" where
  "upsert_zone z [] = [z]"
| "upsert_zone z (r # rs) = (if zr_ap_mac r = zr_ap_mac z then z # rs else r # upsert_zone z rs)"

definition UpsertZone :: "bool \<Rightarrow> StoreZone \<Rightarrow> Database \<Rightarrow> db_error option \<times> Database" where
  "UpsertZone fault z db =
     (if APMAC_IsZero (z_APMac z) then (Some MacRequired, db)
      else if ZoneLabel_IsZero (z_ZoneLabel z) then (Some LabelRequired, db)
      else if fault then (Some QueryFailed, db)
      else (None, db\<lparr>db_zones := upsert_zone (zone_row_of z) (db_zones db)\<rparr>))"

definition DeleteZone :: "bool \<Rightarrow> APMAC \<Rightarrow> Database \<Rightarrow> db_error option \<times> Database" where
  "DeleteZone fault apMac db =
     (if fault then (Some QueryFailed, db)
      else
        (let rest = filter (\<lambda>r. zr_ap_mac r \<noteq> mac apMac) (db_zones db)
         in (if length rest = length (db_zones db) then Some ErrNotFound else None, db\<lparr>db_zones := rest\<rparr>)))"

definition zone_of_row :: "zone_row \<Rightarrow> StoreZone" where
  "zone_of_row r =
     \<lparr>z_APMac = APMACFromStoreRow (zr_ap_mac r), z_ZoneLabel = ZoneLabelFromStoreRow (zr_zone_label r),
      z_APName = (case zr_ap_name r of None \<Rightarrow> [] | Some n \<Rightarrow> n)\<rparr>"

definition ListZones :: "bool \<Rightarrow> (zone_row list \<Rightarrow> zone_row list) \<Rightarrow> Database \<Rightarrow> db_error + StoreZone list" where
  "ListZones fault ordered db =
     (if fault then Inl QueryFailed else Inr (map zone_of_row (ordered (db_zones db))))"

subsection \<open>Presence state (presence\_state.go)\<close>

record PresenceStateRow =
  ps_Kind :: string
  ps_Key :: string
  ps_CurrentZone :: string
  ps_CurrentAP :: string
  ps_LastArrival :: gtime

fun first_bad_presence :: "nat \<Rightarrow> PresenceStateRow list \<Rightarrow> nat option" where
  "first_bad_presence i [] = None"
| "first_bad_presence i (r # rs) =
     (if ps_Kind r = [] \<or> ps_Key r = [] then Some i else first_bad_presence (i + 1) rs)"

text \<open>A column of type \<open>TIMESTAMPTZ\<close> holds microseconds.\<close>

definition pg_timestamp :: "gtime \<Rightarrow> gtime" where
  "pg_timestamp t = t - t mod 1000"

definition presence_row_of :: "PresenceStateRow \<Rightarrow> presence_row" where
  "presence_row_of r =
     \<lparr>pr_kind = ps_Kind r, pr_key = ps_Key r, pr_current_zone = ps_CurrentZone r, pr_current_ap = ps_CurrentAP r,
      pr_last_arrival = (if \<not> time_is_zero (ps_LastArrival r) then Some (pg_timestamp (ps_LastArrival r)) else None)\<rparr>"

text \<open>The insert of one row; \<open>(kind, key)\<close> is the primary key.\<close>

definition insert_presence :: "PresenceStateRow \<Rightarrow> Database \<Rightarrow> Database option" where
  "insert_presence r db =
     (if \<exists>r' \<in> set (db_presence db). pr_kind r' = ps_Kind r \<and> pr_key r' = ps_Key r then None
      else Some (db\<lparr>db_presence := db_presence db @ [presence_row_of r]\<rparr>))"

definition SavePresenceState :: "(nat \<Rightarrow> bool) \<Rightarrow> PresenceStateRow list \<Rightarrow> Database \<Rightarrow> db_error option \<times> Database" where
  "SavePresenceState fault rows db =
     (case first_bad_presence 0 rows of
        Some i \<Rightarrow> (Some (PresenceRowInvalid i), db)
      | None \<Rightarrow> run_tx fault ((\<lambda>db. Some (db\<lparr>db_presence := []\<rparr>)) # map insert_presence rows) db)"

definition presence_of_row :: "presence_row \<Rightarrow> PresenceStateRow" where
  "presence_of_row r =
     \<lparr>ps_Kind = pr_kind r, ps_Key = pr_key r, ps_CurrentZone = pr_current_zone r, ps_CurrentAP = pr_current_ap r,
      ps_LastArrival = (case pr_last_arrival r of None \<Rightarrow> 0 | Some t \<Rightarrow> t)\<rparr>"

definition LoadPresenceState :: "bool \<Rightarrow> Database \<Rightarrow> db_error + PresenceStateRow list" where
  "LoadPresenceState fault db =
     (if fault then Inl QueryFailed else Inr (map presence_of_row (db_presence db)))"

subsection \<open>Settings (settings.go)\<close>

record Settings =
  retentionDays :: int
  capturePerEventHex :: bool
  captureFullPosts :: bool

definition retentionMin :: int where "retentionMin = 1"
definition retentionMax :: int where "retentionMax = 30"

definition NewSettings :: "int \<Rightarrow> bool \<Rightarrow> bool \<Rightarrow> db_error + Settings" where
  "NewSettings days perEventHex fullPosts =
     (if days < retentionMin \<or> days > retentionMax then Inl (RetentionOutOfRange days)
      else Inr \<lparr>retentionDays = days, capturePerEventHex = perEventHex, captureFullPosts = fullPosts\<rparr>)"

definition LoadSettings :: "bool \<Rightarrow> Database \<Rightarrow> db_error + Settings" where
  "LoadSettings fault db =
     (if fault then Inl QueryFailed
      else (case db_settings db of
          None \<Rightarrow> Inl QueryFailed
        | Some r \<Rightarrow> NewSettings (sr_retention_days r) (sr_capture_per_event_hex r) (sr_capture_full_posts r)))"

definition SaveSettings :: "bool \<Rightarrow> Settings \<Rightarrow> Database \<Rightarrow> db_error option \<times> Database" where
  "SaveSettings fault st db =
     (case NewSettings (retentionDays st) (capturePerEventHex st) (captureFullPosts st) of
        Inl e \<Rightarrow> (Some e, db)
      | Inr v \<Rightarrow>
          if fault then (Some QueryFailed, db)
          else (None, db\<lparr>db_settings := Some \<lparr>sr_retention_days = retentionDays v,
                  sr_capture_per_event_hex = capturePerEventHex v, sr_capture_full_posts = captureFullPosts v\<rparr>\<rparr>))"

record SettingsSnapshot =
  snap_v :: Settings

definition NewSettingsSnapshot :: "Settings \<Rightarrow> SettingsSnapshot" where
  "NewSettingsSnapshot initial = \<lparr>snap_v = initial\<rparr>"

definition snap_Get :: "SettingsSnapshot \<Rightarrow> Settings" where
  "snap_Get s = snap_v s"

definition snap_Replace :: "Settings \<Rightarrow> SettingsSnapshot \<Rightarrow> db_error option \<times> SettingsSnapshot" where
  "snap_Replace st s =
     (case NewSettings (retentionDays st) (capturePerEventHex st) (captureFullPosts st) of
        Inl e \<Rightarrow> (Some e, s)
      | Inr v \<Rightarrow> (None, s\<lparr>snap_v := v\<rparr>))"

subsection \<open>Queries (observations.go, raw\_posts.go)\<close>

text \<open>\<open>DISTINCT ON\<close>: the first row of each group.\<close>

fun distinct_on :: "('a \<Rightarrow> 'k) \<Rightarrow> 'a list \<Rightarrow> 'a list" where
  "distinct_on f [] = []"
| "distinct_on f (x # xs) = x # distinct_on f (filter (\<lambda>y. f y \<noteq> f x) xs)"

definition obs_of_row :: "int \<times> obs_row \<Rightarrow> Observation" where
  "obs_of_row ir =
     (let r = snd ir; str = (\<lambda>v. case v of None \<Rightarrow> [] | Some s \<Rightarrow> s) in
      \<lparr>ob_ID = fst ir, ob_ObservedAt = row_observed_at r, ob_Kind = row_kind r, ob_Key = row_key r,
       ob_APMac = row_ap_mac r, ob_APName = str (row_ap_name r), ob_RSSI = row_rssi r, ob_TxPower = row_tx_power r,
       ob_BatteryMV = row_battery_mv r, ob_TemperatureC = row_temperature_c r, ob_LocalName = str (row_local_name r),
       ob_RawHex = str (row_raw_hex r), ob_RawPostID = row_raw_post_id r, ob_Tracked = row_tracked r\<rparr>)"

definition ListObservationsForDevice :: "bool \<Rightarrow> ((int \<times> obs_row) list \<Rightarrow> (int \<times> obs_row) list)
    \<Rightarrow> string \<Rightarrow> string \<Rightarrow> int \<Rightarrow> Database \<Rightarrow> db_error + Observation list" where
  "ListObservationsForDevice fault ordered knd ky limit0 db =
     (let limit = (if limit0 \<le> 0 then 200 else limit0) in
      if fault then Inl QueryFailed
      else Inr (map obs_of_row (take (nat limit)
             (ordered (filter (\<lambda>(i, r). row_kind r = knd \<and> row_key r = ky) (db_observations db))))))"

definition ListAPsSince :: "bool \<Rightarrow> ((int \<times> obs_row) list \<Rightarrow> (int \<times> obs_row) list) \<Rightarrow> gtime
    \<Rightarrow> Database \<Rightarrow> db_error + (string, string) gmap" where
  "ListAPsSince fault ordered since db =
     (if fault then Inl QueryFailed
      else Inr (fold (\<lambda>(i, r) m. mput (row_ap_mac r) (case row_ap_name r of None \<Rightarrow> [] | Some n \<Rightarrow> n) m)
             (distinct_on (\<lambda>(i, r). row_ap_mac r)
               (ordered (filter (\<lambda>(i, r). row_observed_at r \<ge> since) (db_observations db)))) []))"

record DeviceSummary =
  ds_Kind :: string
  ds_Key :: string
  ds_LastAPMac :: string
  ds_LastAPName :: string
  ds_LastRSSI :: int
  ds_LastSeen :: gtime
  ds_SightingCnt :: nat
  ds_Tracked :: bool
  ds_BeaconName :: string

definition ds_Domain :: "DeviceSummary \<Rightarrow> BeaconKey option" where
  "ds_Domain d = FromStoreKey (ds_Kind d) (ds_Key d)"

definition row_identity :: "int \<times> obs_row \<Rightarrow> string \<times> string" where
  "row_identity ir = (row_kind (snd ir), row_key (snd ir))"

text \<open>One line of the listing: the latest row of a group joined with the aggregates of the group and
  the allowlist.\<close>

definition device_summary :: "beacon_row list \<Rightarrow> (int \<times> obs_row) list \<Rightarrow> int \<times> obs_row \<Rightarrow> DeviceSummary" where
  "device_summary bs rows l =
     (let r = snd l; grp = filter (\<lambda>x. row_identity x = row_identity l) rows;
          b = List.find (\<lambda>b. br_kind b = row_kind r \<and> br_key b = row_key r) bs
      in \<lparr>ds_Kind = row_kind r, ds_Key = row_key r, ds_LastAPMac = row_ap_mac r,
          ds_LastAPName = (case row_ap_name r of None \<Rightarrow> [] | Some n \<Rightarrow> n), ds_LastRSSI = row_rssi r,
          ds_LastSeen = fold (\<lambda>x m. max m (row_observed_at (snd x))) grp (row_observed_at r),
          ds_SightingCnt = length grp, ds_Tracked = (b \<noteq> None),
          ds_BeaconName = (case b of None \<Rightarrow> [] | Some br \<Rightarrow> br_name br)\<rparr>)"

definition ListDevicesSince :: "bool \<Rightarrow> ((int \<times> obs_row) list \<Rightarrow> (int \<times> obs_row) list)
    \<Rightarrow> (DeviceSummary list \<Rightarrow> DeviceSummary list) \<Rightarrow> gtime \<Rightarrow> Database \<Rightarrow> db_error + DeviceSummary list" where
  "ListDevicesSince fault ordered by_last_seen since db =
     (if fault then Inl QueryFailed
      else
        (let rows = filter (\<lambda>(i, r). row_observed_at r \<ge> since) (db_observations db);
             latest = distinct_on row_identity (ordered rows)
         in Inr (by_last_seen (map (device_summary (db_beacons db) rows) latest))))"

definition GetRawPost :: "bool \<Rightarrow> int \<Rightarrow> Database \<Rightarrow> db_error + RawPost" where
  "GetRawPost fault i db =
     (if fault then Inl QueryFailed
      else (case List.find (\<lambda>r. raw_id r = i) (db_raw_posts db) of
          None \<Rightarrow> Inl ErrNotFound
        | Some r \<Rightarrow> Inr (raw_post_of_row r)))"

text \<open>The two deletes of \<open>PruneOlderThan\<close>; the counts are of the rows deleted.\<close>

definition PruneOlderThan :: "bool \<Rightarrow> bool \<Rightarrow> gtime \<Rightarrow> Database \<Rightarrow> (int \<times> int \<times> db_error option) \<times> Database" where
  "PruneOlderThan fault1 fault2 before db =
     (if fault1 then ((0, 0, Some QueryFailed), db)
      else
        (let keep1 = filter (\<lambda>(i, r). \<not> row_observed_at r < before) (db_observations db);
             n1 = int (length (db_observations db)) - int (length keep1);
             db1 = db\<lparr>db_observations := keep1\<rparr>
         in if fault2 then ((n1, 0, Some QueryFailed), db1)
            else
              (let keep2 = filter (\<lambda>r. \<not> raw_received_at r < before) (db_raw_posts db1);
                   n2 = int (length (db_raw_posts db1)) - int (length keep2)
               in ((n1, n2, None), db1\<lparr>db_raw_posts := keep2\<rparr>))))"

subsection \<open>Retention (retention.go)\<close>

datatype retention_hook = RetentionSkipped | RetentionFailed db_error

record RetentionRunner =
  rr_interval :: duration
  rr_pruneObservations :: int
  rr_pruneRawPosts :: int
  rr_hooks :: "retention_hook list"

definition NewRetentionRunner :: "duration \<Rightarrow> RetentionRunner" where
  "NewRetentionRunner interval =
     \<lparr>rr_interval = (if interval \<le> 0 then hour else interval), rr_pruneObservations = 0, rr_pruneRawPosts = 0,
      rr_hooks = []\<rparr>"

definition RunOnce :: "bool \<Rightarrow> bool \<Rightarrow> SettingsSnapshot \<Rightarrow> gtime \<Rightarrow> RetentionRunner \<times> Database
    \<Rightarrow> RetentionRunner \<times> Database" where
  "RunOnce fault1 fault2 snap now rd =
     (let (r, db) = rd; st = snap_Get snap; days = retentionDays st in
      if days \<le> 0 then (r\<lparr>rr_hooks := rr_hooks r @ [RetentionSkipped]\<rparr>, db)
      else
        (let before = now + s64 (s64 (- days * 24) * hour);
             ((obs, rp, err), db1) = PruneOlderThan fault1 fault2 before db
         in case err of
              Some e \<Rightarrow> (r\<lparr>rr_hooks := rr_hooks r @ [RetentionFailed e]\<rparr>, db1)
            | None \<Rightarrow> (r\<lparr>rr_pruneObservations := s64 (rr_pruneObservations r + obs),
                         rr_pruneRawPosts := s64 (rr_pruneRawPosts r + rp)\<rparr>, db1)))"

text \<open>\<open>Run\<close>: one cycle at the start and one per tick; each cycle with the snapshot, clock and faults it meets.\<close>

record prune_cycle =
  pc_snap :: SettingsSnapshot
  pc_now :: gtime
  pc_fault1 :: bool
  pc_fault2 :: bool

definition run_cycle :: "prune_cycle \<Rightarrow> RetentionRunner \<times> Database \<Rightarrow> RetentionRunner \<times> Database" where
  "run_cycle c rd = RunOnce (pc_fault1 c) (pc_fault2 c) (pc_snap c) (pc_now c) rd"

definition Retention_Run :: "prune_cycle \<Rightarrow> prune_cycle list \<Rightarrow> RetentionRunner \<times> Database \<Rightarrow> RetentionRunner \<times> Database" where
  "Retention_Run first ticks rd = fold run_cycle ticks (run_cycle first rd)"

definition Totals :: "RetentionRunner \<Rightarrow> int \<times> int" where
  "Totals r = (rr_pruneObservations r, rr_pruneRawPosts r)"

end
