(* ===== verification/Store_Guarantees.thy ===== *)
theory Store_Guarantees
  imports Store
begin

section \<open>Guarantees of the store\<close>

text \<open>
  Round trips through the tables, atomicity of the transactions, the bounds of the settings, and what
  a prune cycle deletes.
\<close>

subsection \<open>Transactions\<close>

lemma run_tx_atomic: "fst (run_tx fault steps db) \<noteq> None \<Longrightarrow> snd (run_tx fault steps db) = db"
  by (auto simp: run_tx_def split: sum.splits)

lemma exec_steps_append:
  assumes "exec_steps (\<lambda>_. False) i sts db = Inr db1"
  shows "exec_steps (\<lambda>_. False) i (sts @ sts') db = exec_steps (\<lambda>_. False) (i + length sts) sts' db1"
  using assms by (induction sts arbitrary: i db) (auto split: option.splits)

lemma exec_overrides:
  assumes "mwf (db_overrides db @ ovs)"
  shows "exec_steps (\<lambda>_. False) i (map insert_override ovs) db = Inr (db\<lparr>db_overrides := db_overrides db @ ovs\<rparr>)"
  using assms
proof (induction ovs arbitrary: i db)
  case (Cons ov ovs)
  have "mget (db_overrides db) (fst ov) = None" using Cons.prems by (auto simp: map_of_eq_None_iff)
  with Cons.IH [of "db\<lparr>db_overrides := db_overrides db @ [ov]\<rparr>"] Cons.prems show ?case
    by (simp add: insert_override_def)
qed simp

lemma SaveAll_ok:
  assumes "Validate (Some t) = None" "mwf (Tun_Beacons t)"
  shows "SaveAll (\<lambda>_. False) (Some t) db = (None, db\<lparr>db_defaults := Some (Defaults t), db_overrides := Tun_Beacons t\<rparr>)"
  using assms exec_overrides [of "db\<lparr>db_defaults := Some (Defaults t), db_overrides := []\<rparr>" "Tun_Beacons t"]
  by (simp add: SaveAll_def run_tx_def upsert_defaults_def)

lemma SaveAll_atomic: "fst (SaveAll fault tn db) \<noteq> None \<Longrightarrow> snd (SaveAll fault tn db) = db"
  using run_tx_atomic by (auto simp: SaveAll_def split: option.splits)

text \<open>
  A tunables document that validates is read back exactly as it was saved, and a save that reports
  an error, at whatever statement it failed, has changed nothing.
\<close>

theorem tunables_roundtrip:
  assumes "Validate (Some t) = None" "mwf (Tun_Beacons t)"
  shows "fst (SaveAll (\<lambda>_. False) (Some t) db) = None \<and>
    LoadAll False False (snd (SaveAll (\<lambda>_. False) (Some t) db)) = Inr t \<and>
    (fst (SaveAll fault tn db) \<noteq> None \<longrightarrow> snd (SaveAll fault tn db) = db)"
  using SaveAll_atomic [of fault tn db]
  by (simp add: SaveAll_ok [OF assms] LoadAll_def loadDefaults_def loadOverrides_def)

definition empty_db :: Database where
  "empty_db = \<lparr>db_defaults = None, db_overrides = [], db_beacons = [], db_zones = [], db_observations = [],
     db_raw_posts = [], db_settings = None, db_presence = []\<rparr>"

definition sample_tunables :: Tunables where
  "sample_tunables = \<lparr>Defaults = sample_defaults, Tun_Beacons = [(''fob'', no_overrides)]\<rparr>"

lemma sample_tunables_valid: "Validate (Some sample_tunables) = None" "mwf (Tun_Beacons sample_tunables)"
  by (simp_all add: sample_tunables_def validate_eval)

theorem tunables_roundtrip_witness:
  "LoadAll False False (snd (SaveAll (\<lambda>_. False) (Some sample_tunables) empty_db)) = Inr sample_tunables \<and>
   snd (SaveAll (\<lambda>i. i = 3) (Some sample_tunables) empty_db) = empty_db"
proof -
  have "fst (SaveAll (\<lambda>i. i = 3) (Some sample_tunables) empty_db) \<noteq> None"
    by (simp add: SaveAll_def sample_tunables_valid run_tx_def upsert_defaults_def) (simp add: sample_tunables_def)
  with tunables_roundtrip [OF sample_tunables_valid, of empty_db "\<lambda>i. i = 3" "Some sample_tunables"]
  show ?thesis by blast
qed

text \<open>
  A store that holds tunables is never overwritten by the seed. An empty one receives the seed if and
  only if it parses and validates, and the next start then finds exactly the seed, whatever
  file it is given.
\<close>

theorem seed_only_once:
  assumes "ParseTunables yaml_decode raw = Inr t" "mwf (Tun_Beacons t)" "db_defaults db = None"
  shows "let (r, db') = SeedFromYAMLIfEmpty False False (\<lambda>_. False) yaml_decode raw db in
    r = Inr t \<and> SeedFromYAMLIfEmpty False False fault yaml' raw' db' = (Inr t, db')"
proof -
  have "Validate (Some t) = None" using assms(1) by (auto simp: ParseTunables_def split: option.splits)
  from SaveAll_ok [OF this assms(2), of db] show ?thesis
    using assms(1,3) by (simp add: SeedFromYAMLIfEmpty_def LoadAll_def loadDefaults_def loadOverrides_def)
qed

theorem seed_only_once_witness:
  "let (r, db') = SeedFromYAMLIfEmpty False False (\<lambda>_. False) (\<lambda>_. Some sample_tunables) [] empty_db in
   r = Inr sample_tunables \<and>
   SeedFromYAMLIfEmpty False False (\<lambda>_. True) (\<lambda>_. None) [1] db' = (Inr sample_tunables, db')"
proof -
  have "ParseTunables (\<lambda>_. Some sample_tunables) [] = Inr sample_tunables"
    by (simp add: ParseTunables_def sample_tunables_valid)
  from seed_only_once [OF this sample_tunables_valid(2), of empty_db "\<lambda>_. True" "\<lambda>_. None" "[1]"] show ?thesis
    by (simp add: empty_db_def)
qed

subsection \<open>Presence state\<close>

lemma exec_presence:
  assumes "distinct (map (\<lambda>r. (pr_kind r, pr_key r)) (db_presence db) @ map (\<lambda>r. (ps_Kind r, ps_Key r)) rows)"
  shows "exec_steps (\<lambda>_. False) i (map insert_presence rows) db
    = Inr (db\<lparr>db_presence := db_presence db @ map presence_row_of rows\<rparr>)"
  using assms
proof (induction rows arbitrary: i db)
  case (Cons r rows)
  have "\<not> (\<exists>r' \<in> set (db_presence db). pr_kind r' = ps_Kind r \<and> pr_key r' = ps_Key r)"
    using Cons.prems by force
  moreover have "pr_kind (presence_row_of r) = ps_Kind r" "pr_key (presence_row_of r) = ps_Key r"
    by (simp_all add: presence_row_of_def)
  ultimately show ?case
    using Cons.IH [of "db\<lparr>db_presence := db_presence db @ [presence_row_of r]\<rparr>" "i + 1"] Cons.prems
    by (simp add: insert_presence_def)
qed simp

lemma first_bad_presence_None:
  "first_bad_presence i rows = None \<longleftrightarrow> (\<forall>r \<in> set rows. ps_Kind r \<noteq> [] \<and> ps_Key r \<noteq> [])"
  by (induction rows arbitrary: i) auto

definition storable :: "PresenceStateRow list \<Rightarrow> bool" where
  "storable rows \<longleftrightarrow>
     distinct (map (\<lambda>r. (ps_Kind r, ps_Key r)) rows) \<and> (\<forall>r \<in> set rows. ps_Kind r \<noteq> [] \<and> ps_Key r \<noteq> [])"

lemma SavePresenceState_ok:
  assumes "storable rows"
  shows "SavePresenceState (\<lambda>_. False) rows db = (None, db\<lparr>db_presence := map presence_row_of rows\<rparr>)"
proof -
  have "first_bad_presence 0 rows = None" using assms by (simp add: storable_def first_bad_presence_None)
  then show ?thesis
    using assms exec_presence [of "db\<lparr>db_presence := []\<rparr>" rows 2]
    by (simp add: SavePresenceState_def run_tx_def storable_def numeral_2_eq_2)
qed

lemma SavePresenceState_atomic:
  "fst (SavePresenceState fault rows db) \<noteq> None \<Longrightarrow> snd (SavePresenceState fault rows db) = db"
  using run_tx_atomic by (auto simp: SavePresenceState_def split: option.splits)

lemma presence_row_roundtrip:
  "presence_of_row (presence_row_of r) = r\<lparr>ps_LastArrival := pg_timestamp (ps_LastArrival r)\<rparr>"
  by (simp add: presence_of_row_def presence_row_of_def time_is_zero_def pg_timestamp_def)

text \<open>
  A presence snapshot with one row per beacon replaces the stored one completely and loads back row by row
  with the same zone and access point, and the arrival time to the microsecond; a save that reports an
  error leaves the stored snapshot as it was.
\<close>

theorem presence_state_roundtrip:
  assumes "storable rows"
  shows "let (err, db') = SavePresenceState (\<lambda>_. False) rows db in
    err = None \<and> LoadPresenceState False db' = Inr (map (\<lambda>r. r\<lparr>ps_LastArrival := pg_timestamp (ps_LastArrival r)\<rparr>) rows) \<and>
    (fst (SavePresenceState fault rows' db) \<noteq> None \<longrightarrow> snd (SavePresenceState fault rows' db) = db)"
  using SavePresenceState_atomic [of fault rows' db]
  by (simp add: SavePresenceState_ok [OF assms] LoadPresenceState_def presence_row_roundtrip)

theorem presence_state_roundtrip_witness:
  "let r = \<lparr>ps_Kind = ''name'', ps_Key = ''fob'', ps_CurrentZone = ''den'', ps_CurrentAP = ''a'', ps_LastArrival = 5000\<rparr>;
       (err, db') = SavePresenceState (\<lambda>_. False) [r] empty_db
   in err = None \<and> LoadPresenceState False db' = Inr [r]"
  using presence_state_roundtrip [of "[\<lparr>ps_Kind = ''name'', ps_Key = ''fob'', ps_CurrentZone = ''den'',
      ps_CurrentAP = ''a'', ps_LastArrival = 5000\<rparr>]" empty_db "\<lambda>_. True" "[]"]
  unfolding Let_def by (simp add: storable_def pg_timestamp_def split: prod.splits)

subsection \<open>Settings and retention\<close>

definition settings_ok :: "Settings \<Rightarrow> bool" where
  "settings_ok st \<longleftrightarrow> 1 \<le> retentionDays st \<and> retentionDays st \<le> 30"

lemma NewSettings_ok: "NewSettings d a b = Inr st \<Longrightarrow> settings_ok st \<and> retentionDays st = d"
  by (auto simp: NewSettings_def settings_ok_def retentionMin_def retentionMax_def split: if_splits)

lemma snap_Replace_ok: "settings_ok (snap_Get s) \<Longrightarrow> settings_ok (snap_Get (snd (snap_Replace st s)))"
  by (auto simp: snap_Replace_def snap_Get_def dest: NewSettings_ok split: sum.splits)

text \<open>
  The live settings always have a retention between 1 and 30 days: the value loaded at the start has, and no
  sequence of replacements, whatever values are offered, changes that.
\<close>

theorem snapshot_in_bounds:
  assumes "LoadSettings fault db = Inr st"
  shows "let s = fold (\<lambda>new s. snd (snap_Replace new s)) offers (NewSettingsSnapshot st) in
    1 \<le> retentionDays (snap_Get s) \<and> retentionDays (snap_Get s) \<le> 30"
proof -
  have "settings_ok st"
    using assms by (auto simp: LoadSettings_def dest: NewSettings_ok split: if_splits option.splits)
  then have "settings_ok (snap_Get (NewSettingsSnapshot st))" by (simp add: snap_Get_def NewSettingsSnapshot_def)
  then have "settings_ok (snap_Get (fold (\<lambda>new s. snd (snap_Replace new s)) offers (NewSettingsSnapshot st)))"
    by (induction offers arbitrary: st rule: rev_induct) (auto intro: snap_Replace_ok)
  then show ?thesis by (simp add: settings_ok_def Let_def)
qed

definition week :: settings_row where
  "week = \<lparr>sr_retention_days = 7, sr_capture_per_event_hex = True, sr_capture_full_posts = False\<rparr>"

lemma load_week:
  "LoadSettings False (empty_db\<lparr>db_settings := Some week\<rparr>)
     = Inr \<lparr>retentionDays = 7, capturePerEventHex = True, captureFullPosts = False\<rparr>"
  by (simp add: LoadSettings_def week_def NewSettings_def retentionMin_def retentionMax_def)

theorem snapshot_in_bounds_witness:
  "let s0 = \<lparr>retentionDays = 7, capturePerEventHex = True, captureFullPosts = False\<rparr>;
       s = fold (\<lambda>new s. snd (snap_Replace new s)) [s0\<lparr>retentionDays := 0\<rparr>, s0\<lparr>retentionDays := 31\<rparr>] (NewSettingsSnapshot s0)
   in 1 \<le> retentionDays (snap_Get s) \<and> retentionDays (snap_Get s) \<le> 30"
  unfolding Let_def by (rule snapshot_in_bounds [OF load_week, unfolded Let_def])

text \<open>The cut-off of a prune cycle: for a valid retention nothing wraps around.\<close>

lemma cutoff_exact:
  assumes "1 \<le> days" "days \<le> 30"
  shows "s64 (s64 (- days * 24) * hour) = - days * 24 * hour"
  using assms by (simp add: s64_def hour_def minute_def second_def)



text \<open>
  A prune cycle whose second delete fails reports a failure although it has already deleted the old observations,
  and it does not count them.
\<close>

theorem prune_failure_is_partial:
  assumes "settings_ok (snap_Get snap)"
  shows "let cut = now - retentionDays (snap_Get snap) * 24 * hour;
             (r', db') = RunOnce False True snap now (r, db) in
    rr_hooks r' = rr_hooks r @ [RetentionFailed QueryFailed] \<and> Totals r' = Totals r \<and>
    db_observations db' = filter (\<lambda>(i, row). cut \<le> row_observed_at row) (db_observations db) \<and>
    db_raw_posts db' = db_raw_posts db"
proof -
  have "1 \<le> retentionDays (snap_Get snap)" "retentionDays (snap_Get snap) \<le> 30"
    using assms by (simp_all add: settings_ok_def)
  with cutoff_exact [OF this] show ?thesis
    by (simp add: RunOnce_def PruneOlderThan_def Totals_def not_less Let_def split_def)
qed

theorem prune_failure_is_partial_witness:
  "let old = obs_row_of (sample_obs ''a'');
       snap = NewSettingsSnapshot \<lparr>retentionDays = 1, capturePerEventHex = True, captureFullPosts = False\<rparr>;
       (r', db') = RunOnce False True snap (48 * hour) (NewRetentionRunner 0, empty_db\<lparr>db_observations := [(1, old)]\<rparr>)
   in db_observations db' = [] \<and> Totals r' = (0, 0) \<and> rr_hooks r' = [RetentionFailed QueryFailed]"
proof -
  let ?snap = "NewSettingsSnapshot \<lparr>retentionDays = 1, capturePerEventHex = True, captureFullPosts = False\<rparr>"
  have "settings_ok (snap_Get ?snap)" by (simp add: settings_ok_def snap_Get_def NewSettingsSnapshot_def)
  from prune_failure_is_partial [OF this, of "48 * hour" "NewRetentionRunner 0"
      "empty_db\<lparr>db_observations := [(1, obs_row_of (sample_obs ''a''))]\<rparr>"]
  show ?thesis
    by (simp add: Let_def split_def NewRetentionRunner_def snap_Get_def NewSettingsSnapshot_def obs_row_of_def sample_obs_def
          empty_db_def hour_def minute_def second_def Totals_def)
qed

subsection \<open>The device listing\<close>

lemma distinct_on_subset: "set (distinct_on f xs) \<subseteq> set xs"
  by (induction f xs rule: distinct_on.induct) auto

lemma distinct_on_keys: "distinct (map f (distinct_on f xs)) \<and> f ` set (distinct_on f xs) = f ` set xs"
proof (induction f xs rule: distinct_on.induct)
  case (2 f x xs)
  have "f x \<notin> f ` set (distinct_on f (filter (\<lambda>y. f y \<noteq> f x) xs))"
    using distinct_on_subset [of f "filter (\<lambda>y. f y \<noteq> f x) xs"] by auto
  with 2 show ?case by (auto simp: image_iff)
qed simp

lemma distinct_on_counts:
  assumes "f ` set rows \<subseteq> f ` set xs"
  shows "sum_list (map (\<lambda>x. length (filter (\<lambda>y. f y = f x) rows)) (distinct_on f xs)) = length rows"
  using assms
proof (induction f xs arbitrary: rows rule: distinct_on.induct)
  case (2 f x xs)
  let ?xs = "filter (\<lambda>y. f y \<noteq> f x) xs" and ?rows = "filter (\<lambda>y. f y \<noteq> f x) rows"
  have "filter (\<lambda>y. f y = f z) rows = filter (\<lambda>y. f y = f z) ?rows" if "z \<in> set (distinct_on f ?xs)" for z
  proof -
    have "f z \<noteq> f x" using that distinct_on_subset [of f ?xs] by auto
    then show ?thesis unfolding filter_filter by (intro filter_cong) auto
  qed
  then have "sum_list (map (\<lambda>z. length (filter (\<lambda>y. f y = f z) rows)) (distinct_on f ?xs))
      = sum_list (map (\<lambda>z. length (filter (\<lambda>y. f y = f z) ?rows)) (distinct_on f ?xs))"
    by (auto intro!: arg_cong [where f = sum_list])
  also have "\<dots> = length ?rows" using "2.prems" by (intro "2.IH") force
  finally show ?case using sum_length_filter_compl [of "\<lambda>y. f y = f x" rows] by simp
qed auto

lemma fold_max_ge: "(m :: int) \<le> fold (\<lambda>x m. max m (g x)) xs m"
  by (induction xs arbitrary: m) (auto intro: order_trans [OF max.cobounded1])

lemma fold_max_upper: "x \<in> set xs \<Longrightarrow> g x \<le> fold (\<lambda>x m. max m (g x)) xs (m :: int)"
  by (induction xs arbitrary: m) (auto intro: order_trans [OF max.cobounded2 fold_max_ge])

text \<open>
  The device listing has one line for every identity seen since the given time and no other; the counts of the lines
  add up to the number of rows since then, no row of an identity is newer than the time its line shows, and a line is
  marked as tracked exactly if the identity is on the allowlist. This holds for every order in
  which the database returns rows.
\<close>

theorem devices_listed_once:
  assumes "\<And>xs. mset (ordered xs) = mset xs" "\<And>ds. mset (by_last_seen ds) = mset ds"
  shows "let rows = filter (\<lambda>(i, r). row_observed_at r \<ge> since) (db_observations db) in
    \<exists>ds. ListDevicesSince False ordered by_last_seen since db = Inr ds \<and>
      distinct (map (\<lambda>d. (ds_Kind d, ds_Key d)) ds) \<and>
      (\<lambda>d. (ds_Kind d, ds_Key d)) ` set ds = row_identity ` set rows \<and>
      sum_list (map ds_SightingCnt ds) = length rows \<and>
      (\<forall>d \<in> set ds. (\<forall>x \<in> set rows. row_identity x = (ds_Kind d, ds_Key d) \<longrightarrow> row_observed_at (snd x) \<le> ds_LastSeen d) \<and>
        (ds_Tracked d \<longleftrightarrow> (\<exists>b \<in> set (db_beacons db). (br_kind b, br_key b) = (ds_Kind d, ds_Key d))))"
proof -
  define rows where "rows = filter (\<lambda>(i, r). row_observed_at r \<ge> since) (db_observations db)"
  define latest where "latest = distinct_on row_identity (ordered rows)"
  define ds0 where "ds0 = map (device_summary (db_beacons db) rows) latest"
  have set_ordered: "set (ordered rows) = set rows" using assms(1) by (metis set_mset_mset)
  have ident: "(ds_Kind (device_summary bs rows l), ds_Key (device_summary bs rows l)) = row_identity l" for bs l
    by (simp add: device_summary_def row_identity_def Let_def)
  have cnt: "ds_SightingCnt (device_summary bs rows l) = length (filter (\<lambda>x. row_identity x = row_identity l) rows)" for bs l
    by (simp add: device_summary_def Let_def)
  have keys: "map (\<lambda>d. (ds_Kind d, ds_Key d)) ds0 = map row_identity latest"
    by (simp add: ds0_def ident)
  have k: "distinct (map row_identity latest)" "row_identity ` set latest = row_identity ` set rows"
    using distinct_on_keys [of row_identity "ordered rows"] by (simp_all add: latest_def set_ordered)
  have sum: "sum_list (map ds_SightingCnt ds0) = length rows"
    using distinct_on_counts [of row_identity rows "ordered rows"] by (simp add: ds0_def latest_def cnt set_ordered o_def)
  have seen: "row_observed_at (snd x) \<le> ds_LastSeen d"
    if "d \<in> set ds0" "x \<in> set rows" "row_identity x = (ds_Kind d, ds_Key d)" for d x
    using that ident unfolding ds0_def
    by (auto simp: device_summary_def row_identity_def Let_def intro!: fold_max_upper [where g = "\<lambda>x. row_observed_at (snd x)"])
  have tracked: "ds_Tracked d \<longleftrightarrow> (\<exists>b \<in> set (db_beacons db). (br_kind b, br_key b) = (ds_Kind d, ds_Key d))"
    if "d \<in> set ds0" for d
  proof -
    obtain l where l: "d = device_summary (db_beacons db) rows l" using \<open>d \<in> set ds0\<close> by (auto simp: ds0_def)
    have "ds_Tracked d \<longleftrightarrow>
        List.find (\<lambda>b. br_kind b = row_kind (snd l) \<and> br_key b = row_key (snd l)) (db_beacons db) \<noteq> None"
      unfolding l device_summary_def Let_def DeviceSummary.simps ..
    then show ?thesis
      unfolding find_None_iff using ident [of "db_beacons db" l] by (auto simp: l row_identity_def)
  qed
  have m: "mset (by_last_seen ds0) = mset ds0" by (rule assms(2))
  then have set_eq: "set (by_last_seen ds0) = set ds0" by (metis set_mset_mset)
  have "distinct (map (\<lambda>d. (ds_Kind d, ds_Key d)) (by_last_seen ds0))"
    using k(1) keys m by (metis mset_eq_imp_distinct_iff mset_map)
  moreover have "(\<lambda>d. (ds_Kind d, ds_Key d)) ` set ds0 = row_identity ` set rows"
    using keys k(2) by (metis list.set_map)
  moreover have "sum_list (map ds_SightingCnt (by_last_seen ds0)) = length rows"
    using sum m by (metis mset_map sum_mset_sum_list)
  moreover have "ListDevicesSince False ordered by_last_seen since db = Inr (by_last_seen ds0)"
    by (simp add: ListDevicesSince_def ds0_def latest_def rows_def Let_def)
  ultimately show ?thesis
    unfolding Let_def rows_def [symmetric] using seen tracked set_eq by auto
qed

theorem devices_listed_once_witness:
  "\<exists>ds. ListDevicesSince False (\<lambda>xs. xs) (\<lambda>ds. ds) 0
      (empty_db\<lparr>db_observations := [(1, obs_row_of (sample_obs ''a'')), (2, obs_row_of (sample_obs ''b''))]\<rparr>) = Inr ds \<and>
    sum_list (map ds_SightingCnt ds) = 2"
  using devices_listed_once [of "\<lambda>xs. xs" "\<lambda>ds. ds" 0
      "empty_db\<lparr>db_observations := [(1, obs_row_of (sample_obs ''a'')), (2, obs_row_of (sample_obs ''b''))]\<rparr>"]
  unfolding Let_def by (auto simp: obs_row_of_def sample_obs_def)

subsection \<open>The connection loop\<close>

lemma connect_loop_result:
  assumes "attempt \<le> m" "\<forall>j. 1 \<le> j \<and> j < attempt \<longrightarrow> \<not> up j \<and> \<not> cancelled j"
  shows "case connect_loop up cancelled m attempt of
      Connected_at k \<Rightarrow> attempt \<le> k \<and> k \<le> m \<and> up k \<and> (\<forall>j. 1 \<le> j \<and> j < k \<longrightarrow> \<not> up j \<and> \<not> cancelled j)
    | Connect_cancelled \<Rightarrow> \<exists>k. attempt \<le> k \<and> k < m \<and> cancelled k \<and> (\<forall>j. 1 \<le> j \<and> j \<le> k \<longrightarrow> \<not> up j)
    | Connect_failed k \<Rightarrow> k = m \<and> (\<forall>j. 1 \<le> j \<and> j \<le> m \<longrightarrow> \<not> up j)"
  using assms
proof (induction up cancelled m attempt rule: connect_loop.induct)
  case (1 up cancelled m a)
  let ?P = "\<lambda>a r. case r of
      Connected_at k \<Rightarrow> a \<le> k \<and> k \<le> m \<and> up k \<and> (\<forall>j. 1 \<le> j \<and> j < k \<longrightarrow> \<not> up j \<and> \<not> cancelled j)
    | Connect_cancelled \<Rightarrow> \<exists>k. a \<le> k \<and> k < m \<and> cancelled k \<and> (\<forall>j. 1 \<le> j \<and> j \<le> k \<longrightarrow> \<not> up j)
    | Connect_failed k \<Rightarrow> k = m \<and> (\<forall>j. 1 \<le> j \<and> j \<le> m \<longrightarrow> \<not> up j)"
  note step = connect_loop.simps [of up cancelled m a]
  consider "up a" | "\<not> up a" "a = m" | "\<not> up a" "a \<noteq> m" "cancelled a" | "\<not> up a" "a \<noteq> m" "\<not> cancelled a" by blast
  then show "?P a (connect_loop up cancelled m a)"
  proof cases
    case 1
    with "1.prems" have "connect_loop up cancelled m a = Connected_at a" by (simp add: step del: connect_loop.simps)
    with 1 "1.prems" show ?thesis by simp
  next
    case 2
    then have "connect_loop up cancelled m a = Connect_failed m" by (subst connect_loop.simps) (simp del: connect_loop.simps)
    with 2 "1.prems" show ?thesis by (simp add: le_less) blast
  next
    case 3
    with "1.prems" have "connect_loop up cancelled m a = Connect_cancelled" by (simp add: step del: connect_loop.simps)
    with 3 "1.prems" show ?thesis by (auto intro!: exI [of _ a] simp: le_less)
  next
    case 4
    have "\<forall>j. 1 \<le> j \<and> j < a + 1 \<longrightarrow> \<not> up j \<and> \<not> cancelled j" using 4 "1.prems"(2) by (metis Suc_eq_plus1 less_Suc_eq)
    with "1.prems"(1) 4 have ih: "?P (a + 1) (connect_loop up cancelled m (a + 1))" by (intro "1.IH") simp_all
    have "connect_loop up cancelled m a = connect_loop up cancelled m (a + 1)"
      using 4 "1.prems"(1) by (simp add: step del: connect_loop.simps)
    with ih show ?thesis
      by (cases "connect_loop up cancelled m (a + 1)") (simp_all del: connect_loop.simps, meson Suc_leD)
  qed
qed

text \<open>
  C39: the connection loop ends after at most \<open>maxAttempts\<close> attempts (one, if that is less), and its result says how: connected at the
  first attempt that the database answers, cancelled in a pause with no answer before it, or failed with every attempt unanswered.
\<close>

theorem connect_ends:
  "case NewPostgres up cancelled maxAttempts of
      Connected_at k \<Rightarrow> 1 \<le> k \<and> int k \<le> max 1 maxAttempts \<and> up k \<and> (\<forall>j \<in> {1..<k}. \<not> up j \<and> \<not> cancelled j)
    | Connect_cancelled \<Rightarrow> \<exists>k \<ge> 1. int k < maxAttempts \<and> cancelled k \<and> (\<forall>j \<in> {1..k}. \<not> up j)
    | Connect_failed k \<Rightarrow> int k = max 1 maxAttempts \<and> (\<forall>j \<in> {1..k}. \<not> up j)"
proof -
  let ?m = "nat (max 1 maxAttempts)"
  have n: "NewPostgres up cancelled maxAttempts = connect_loop up cancelled ?m 1"
    by (simp add: NewPostgres_def max_def del: connect_loop.simps)
  have m: "1 \<le> ?m" "int ?m = max 1 maxAttempts" by simp_all
  from connect_loop_result [OF m(1), of up cancelled] show ?thesis
    unfolding n using m by (cases "connect_loop up cancelled ?m 1") (auto simp del: connect_loop.simps)
qed

theorem connect_ends_witness:
  "NewPostgres (\<lambda>n. n = 3) (\<lambda>n. False) (10 :: int) = Connected_at 3"
proof -
  note c = connect_ends [where up = "\<lambda>n. n = 3" and cancelled = "\<lambda>n. False" and maxAttempts = 10]
  show ?thesis
  proof (cases "NewPostgres (\<lambda>n. n = 3) (\<lambda>n. False) (10 :: int)")
    case (Connect_failed k)
    with c have "int k = 10" "\<forall>j \<in> {1..k}. j \<noteq> 3" by simp_all
    moreover then have "3 \<in> {1..k}" by simp
    ultimately show ?thesis by blast
  qed (use c in auto)
qed

end
