(* ===== verification/Go_Net.thy ===== *)
theory Go_Net
  imports Go_Strings
begin

section \<open>Internet addresses\<close>

text \<open>
  The functions of the standard package \<open>net\<close> that the source-address check uses: \<open>ParseIP\<close>, \<open>ParseCIDR\<close>,
  \<open>IPNet.Contains\<close> and \<open>SplitHostPort\<close>. An address is its 4 or 16 bytes; an IPv4 address mapped into IPv6 counts as IPv4
  (\<open>To4\<close>). Addresses with a zone are rejected, as \<open>ParseIP\<close> and \<open>ParseCIDR\<close> do.
\<close>

fun split_on :: "char \<Rightarrow> string \<Rightarrow> string list" where
  "split_on c [] = [[]]"
| "split_on c (x # xs) =
     (if x = c then [] # split_on c xs
      else (case split_on c xs of [] \<Rightarrow> [[x]] | p # ps \<Rightarrow> (x # p) # ps))"

text \<open>A decimal field of an IPv4 address: no leading zero, at most 255.\<close>

definition v4_field :: "string \<Rightarrow> byte option" where
  "v4_field s =
     (if s = [] \<or> \<not> list_all is_digit s \<or> (length s > 1 \<and> hd s = CHR ''0'') \<or> read_nat s > 255 then None
      else Some (word_of_nat (read_nat s)))"

fun all_some :: "'a option list \<Rightarrow> 'a list option" where
  "all_some [] = Some []"
| "all_some (None # xs) = None"
| "all_some (Some x # xs) = map_option (Cons x) (all_some xs)"

definition parse_v4 :: "string \<Rightarrow> bytes option" where
  "parse_v4 s =
     (let ps = split_on (CHR ''.'') s in
      if length ps \<noteq> 4 then None else all_some (map v4_field ps))"

definition is_hex :: "char \<Rightarrow> bool" where
  "is_hex c \<longleftrightarrow> unhex c \<noteq> None"

definition hex_value :: "string \<Rightarrow> nat" where
  "hex_value s = foldl (\<lambda>n c. 16 * n + (case unhex c of None \<Rightarrow> 0 | Some d \<Rightarrow> d)) 0 s"

text \<open>
  The loop over the groups of an IPv6 address: \<open>ip\<close> are the bytes so far, \<open>ell\<close> the place of the ellipsis.
\<close>

function v6_loop :: "string \<Rightarrow> bytes \<Rightarrow> nat option \<Rightarrow> (bytes \<times> nat option) option" where
  "v6_loop s ip ell =
     (if length ip \<ge> 16 then (if s = [] then Some (ip, ell) else None)
      else
        (let grp = takeWhile is_hex s; rest = dropWhile is_hex s in
         if grp = [] \<or> length grp > 4 then None
         else if rest \<noteq> [] \<and> hd rest = CHR ''.'' then
           (if (ell = None \<and> length ip \<noteq> 12) \<or> length ip + 4 > 16 then None
            else (case parse_v4 s of None \<Rightarrow> None | Some q \<Rightarrow> Some (ip @ q, ell)))
         else
           (let v = hex_value grp; ip1 = ip @ [word_of_nat (v div 256), word_of_nat (v mod 256)] in
            if rest = [] then Some (ip1, ell)
            else if hd rest \<noteq> CHR '':'' \<or> length rest = 1 then None
            else
              (let s1 = tl rest in
               if hd s1 = CHR '':'' then
                 (if ell \<noteq> None then None
                  else if tl s1 = [] then Some (ip1, Some (length ip1))
                  else v6_loop (tl s1) ip1 (Some (length ip1)))
               else v6_loop s1 ip1 ell))))"
  by pat_completeness auto
termination
proof (relation "measure (\<lambda>(s, ip, ell). length s)", goal_cases)
  case 1 then show ?case by simp
next
  case (2 s ip ell)
  have "length (dropWhile is_hex s) \<le> length s" by (rule length_dropWhile_le)
  with 2 show ?case by (cases "dropWhile is_hex s") auto
next
  case (3 s ip ell)
  have "length (dropWhile is_hex s) \<le> length s" by (rule length_dropWhile_le)
  with 3 show ?case by (cases "dropWhile is_hex s") auto
qed

declare v6_loop.simps [simp del]

definition v6_finish :: "bytes \<times> nat option \<Rightarrow> bytes option" where
  "v6_finish r =
     (let (ip, ell) = r in
      case ell of
        None \<Rightarrow> if length ip < 16 then None else Some ip
      | Some e \<Rightarrow> if length ip < 16 then Some (take e ip @ replicate (16 - length ip) 0 @ drop e ip) else None)"

definition parse_v6 :: "string \<Rightarrow> bytes option" where
  "parse_v6 s =
     (if CHR ''%'' \<in> set s then None
      else if take 2 s = ''::'' then
        (if length s = 2 then Some (replicate 16 0) else Option.bind (v6_loop (drop 2 s) [] (Some 0)) v6_finish)
      else Option.bind (v6_loop s [] None) v6_finish)"

text \<open>\<open>netip.ParseAddr\<close> without zones: the first of the three characters decides the family.\<close>

definition ParseAddr :: "string \<Rightarrow> bytes option" where
  "ParseAddr s =
     (case List.find (\<lambda>c. c \<in> {CHR ''.'', CHR '':'', CHR ''%''}) s of
        None \<Rightarrow> None
      | Some c \<Rightarrow> if c = CHR ''.'' then parse_v4 s else if c = CHR '':'' then parse_v6 s else None)"

definition To4 :: "bytes \<Rightarrow> bytes option" where
  "To4 ip =
     (if length ip = 4 then Some ip
      else if take 12 ip = replicate 10 0 @ [0xFF, 0xFF] then Some (drop 12 ip) else None)"

definition canon_ip :: "bytes \<Rightarrow> bytes" where
  "canon_ip ip = (case To4 ip of None \<Rightarrow> ip | Some x \<Rightarrow> x)"

record IPNet =
  net_IP :: bytes
  net_Mask :: bytes

text \<open>\<open>CIDRMask\<close>: \<open>n\<close> leading ones in \<open>k\<close> bytes.\<close>

definition CIDRMask :: "nat \<Rightarrow> nat \<Rightarrow> bytes" where
  "CIDRMask n k = map (\<lambda>i. let ones = min 8 (n - 8 * i) in word_of_nat (256 - 2 ^ (8 - ones))) [0..<k]"

definition mask_bytes :: "bytes \<Rightarrow> bytes \<Rightarrow> bytes" where
  "mask_bytes ip m = map2 and ip m"

definition ParseCIDR :: "string \<Rightarrow> IPNet option" where
  "ParseCIDR s =
     (let (addr, msk, found) = Cut_char (CHR ''/'') s in
      if \<not> found then None
      else (case ParseAddr addr of
          None \<Rightarrow> None
        | Some ip \<Rightarrow>
            if msk = [] \<or> \<not> list_all is_digit msk \<or> read_nat msk > 8 * length ip then None
            else (let m = CIDRMask (read_nat msk) (length ip)
                  in Some \<lparr>net_IP = mask_bytes ip m, net_Mask = m\<rparr>)))"

definition Contains :: "IPNet \<Rightarrow> bytes \<Rightarrow> bool" where
  "Contains n ip0 =
     (let nn = canon_ip (net_IP n);
          m = (if length (net_Mask n) = 16 \<and> length nn = 4 then drop 12 (net_Mask n) else net_Mask n);
          ip = canon_ip ip0
      in length m = length nn \<and> length ip = length nn \<and> mask_bytes nn m = mask_bytes ip m)"

text \<open>\<open>SplitHostPort\<close>: the host, if the text has the form of a host and a port.\<close>

definition last_index :: "char \<Rightarrow> string \<Rightarrow> nat option" where
  "last_index c s = (case filter (\<lambda>i. s ! i = c) (rev [0..<length s]) of [] \<Rightarrow> None | i # _ \<Rightarrow> Some i)"

definition first_index :: "char \<Rightarrow> string \<Rightarrow> nat option" where
  "first_index c s = (case filter (\<lambda>i. s ! i = c) [0..<length s] of [] \<Rightarrow> None | i # _ \<Rightarrow> Some i)"

definition SplitHostPort :: "string \<Rightarrow> string option" where
  "SplitHostPort hp =
     (case last_index (CHR '':'') hp of
        None \<Rightarrow> None
      | Some i \<Rightarrow>
          if hd hp = CHR ''['' then
            (case first_index (CHR '']'') hp of
               None \<Rightarrow> None
             | Some e \<Rightarrow>
                 if e + 1 \<noteq> i then None
                 else if CHR ''['' \<in> set (drop 1 hp) \<or> CHR '']'' \<in> set (drop (e + 1) hp) then None
                 else Some (take (e - 1) (drop 1 hp)))
          else if CHR '':'' \<in> set (take i hp) then None
          else if CHR ''['' \<in> set hp \<or> CHR '']'' \<in> set hp then None
          else Some (take i hp))"

end
