(* ===== verification/Ingest.thy ===== *)
theory Ingest
  imports Advert_Parser Presence Go_Net
begin

section \<open>The ingest server (internal/ingest)\<close>

text \<open>
  \<open>handler.go\<close>: authentication, decoding of the body, the two passes over the events of a post, and the
  heartbeat. The callbacks of \<open>Options\<close> act on a state that the model leaves open (the type variable \<open>'w\<close>), so
  that the engine, the writers and the settings can be put in. gzip and JSON decoding are the
  parameters of a record \<open>Codecs\<close>. Counters are the list of increments in the order in which they
  happen, log lines that are limited to one a second are in the same list. A request sees one clock reading.
\<close>

subsection \<open>Records and options\<close>

record CaptureSettings =
  cs_CapturePerEventHex :: bool
  cs_CaptureFullPosts :: bool

record RawPostRecord =
  rec_Endpoint :: string
  rec_RemoteAddr :: string
  rec_ContentEncoding :: string
  rec_Body :: bytes
  rec_BodySHA256 :: string

record ObservationRecord =
  or_ObservedAt :: gtime
  or_Kind :: string
  or_Key :: string
  or_APMac :: string
  or_APName :: string
  or_RSSI :: int
  or_TxPower :: "int option"
  or_BatteryMV :: "int option"
  or_TemperatureC :: "float64 option"
  or_LocalName :: string
  or_RawHex :: string
  or_RawPostID :: "int option"
  or_Tracked :: bool

record 'w IngestOptions =
  APIKey :: string
  AllowedSourceCIDRs :: "string list"
  PresenceSubmit :: "(Sighting \<Rightarrow> 'w \<Rightarrow> 'w) option"
  OnHeartbeat :: "(string list \<Rightarrow> string list \<Rightarrow> 'w \<Rightarrow> 'w) option"
  BeaconLookup :: "(BeaconKey \<Rightarrow> 'w \<Rightarrow> string \<times> bool) option"
  MaxBodyBytes :: int
  CaptureSettingsFn :: "('w \<Rightarrow> CaptureSettings) option"
  RecordRawPost :: "(RawPostRecord \<Rightarrow> 'w \<Rightarrow> int option \<times> 'w) option"
  RecordObservation :: "(ObservationRecord \<Rightarrow> 'w \<Rightarrow> 'w) option"
  ing_has_Logger :: bool
  ing_has_Metrics :: bool

definition ing_applyDefaults :: "'w IngestOptions \<Rightarrow> 'w IngestOptions" where
  "ing_applyDefaults op = (if MaxBodyBytes op \<le> 0 then op\<lparr>MaxBodyBytes := 2 ^ 20\<rparr> else op)"

datatype metric =
    IngestRequests string nat
  | AuthFailures string string
  | GunzipFailures
  | ParserErrors string
  | ParserErrorLog string
  | AnonymousAdverts string
  | AdvertsByKind string string
  | UnknownBeacons string string string
  | IngestBadTimestamp string
  | BadTimestampLog string int
  | RawPostInsertErrors
  | HeartbeatGateways nat

record 'w Server =
  srv_opts :: "'w IngestOptions"
  allowedNets :: "IPNet list"
  lastParserErrLog :: int
  lastBadTimestampLog :: int
  metrics :: "metric list"

datatype ingest_error =
    APIKeyRequired | SubmitRequired | HeartbeatRequired | LookupRequired | IngLoggerRequired | MetricsRequired
  | BadCIDR string

fun parse_cidrs :: "string list \<Rightarrow> IPNet list \<Rightarrow> ingest_error + IPNet list" where
  "parse_cidrs [] nets = Inr nets"
| "parse_cidrs (c # cs) nets =
     (case ParseCIDR c of None \<Rightarrow> Inl (BadCIDR c) | Some n \<Rightarrow> parse_cidrs cs (nets @ [n]))"

definition ing_New :: "'w IngestOptions \<Rightarrow> ingest_error + 'w Server" where
  "ing_New opts0 =
     (let opts = ing_applyDefaults opts0 in
      if APIKey opts = [] then Inl APIKeyRequired
      else if PresenceSubmit opts = None then Inl SubmitRequired
      else if OnHeartbeat opts = None then Inl HeartbeatRequired
      else if BeaconLookup opts = None then Inl LookupRequired
      else if \<not> ing_has_Logger opts then Inl IngLoggerRequired
      else if \<not> ing_has_Metrics opts then Inl MetricsRequired
      else (case parse_cidrs (AllowedSourceCIDRs opts) [] of
          Inl e \<Rightarrow> Inl e
        | Inr nets \<Rightarrow>
            Inr \<lparr>srv_opts = opts, allowedNets = nets, lastParserErrLog = 0, lastBadTimestampLog = 0, metrics = []\<rparr>))"

definition bump :: "metric \<Rightarrow> 'w Server \<Rightarrow> 'w Server" where
  "bump m s = s\<lparr>metrics := metrics s @ [m]\<rparr>"

subsection \<open>Requests\<close>

record Request =
  req_Method :: string
  req_Path :: string
  req_RemoteAddr :: string
  req_ApiKey :: string
  req_ContentEncoding :: string
  req_Body :: bytes

definition clientIP :: "Request \<Rightarrow> string" where
  "clientIP r = (case SplitHostPort (req_RemoteAddr r) of None \<Rightarrow> req_RemoteAddr r | Some host \<Rightarrow> host)"

definition ipAllowed :: "string \<Rightarrow> 'w Server \<Rightarrow> bool" where
  "ipAllowed ip s =
     (case ParseAddr ip of
        None \<Rightarrow> False
      | Some parsed \<Rightarrow> list_ex (\<lambda>n. Contains n parsed) (allowedNets s))"

text \<open>A handler answers with a status and the changed server and world.\<close>

type_synonym 'w handler = "Request \<Rightarrow> 'w Server \<times> 'w \<Rightarrow> nat \<times> 'w Server \<times> 'w"

definition requireAuth :: "string \<Rightarrow> 'w handler \<Rightarrow> 'w handler" where
  "requireAuth endpoint h r sw =
     (let (s, w) = sw in
      if req_Method r \<noteq> ''POST'' then (405, bump (IngestRequests endpoint 405) s, w)
      else if allowedNets s \<noteq> [] \<and> \<not> ipAllowed (clientIP r) s then
        (403, bump (IngestRequests endpoint 403) (bump (AuthFailures endpoint ''source_ip'') s), w)
      else if req_ApiKey r \<noteq> APIKey (srv_opts s) then
        (401, bump (IngestRequests endpoint 401) (bump (AuthFailures endpoint ''api_key'') s), w)
      else h r (s, w))"

subsection \<open>Bodies\<close>

record ingestEvent =
  ie_Data :: string
  ie_DeviceEUID :: string
  ie_RSSI :: int
  ie_Timestamp :: int

record ingestPayload =
  ip_GatewayEUID :: string
  ip_APName :: string
  ip_APLocation :: string
  ip_APModel :: string
  ip_APIP :: string
  ip_Timestamp :: int
  ip_Events :: "ingestEvent list"

record heartbeatPayload =
  hp_Vendor :: string
  hp_Online :: "string list"
  hp_Offline :: "string list"

text \<open>
  \<open>gunzip\<close>: \<open>None\<close> if the header is bad, otherwise all bytes the stream yields and whether it ends well (with
  the right checksum) after them.
\<close>

record Codecs =
  gunzip :: "bytes \<Rightarrow> (bytes \<times> bool) option"
  unmarshalIngest :: "bytes \<Rightarrow> ingestPayload option"
  unmarshalHeartbeat :: "bytes \<Rightarrow> heartbeatPayload option"

text \<open>
  The limited read stops after \<open>MaxBodyBytes\<close> bytes without looking further, so the end of the stream is only
  checked when fewer bytes come out.
\<close>

definition readBody :: "Codecs \<Rightarrow> Request \<Rightarrow> 'w Server \<Rightarrow> (bytes \<times> bytes) option \<times> 'w Server" where
  "readBody cod r s =
     (let maxb = MaxBodyBytes (srv_opts s); raw = req_Body r in
      if int (length raw) > max 0 (s64 (maxb * 4)) then (None, s)
      else if EqualFold_ascii (req_ContentEncoding r) ''gzip'' then
        (case gunzip cod raw of
           None \<Rightarrow> (None, bump GunzipFailures s)
         | Some (plain, ends_well) \<Rightarrow>
             if int (length plain) < maxb \<and> \<not> ends_well then (None, bump GunzipFailures s)
             else (Some (take (nat maxb) plain, raw), s))
      else (Some (raw, raw), s))"

subsection \<open>Enrichment and clocks\<close>

record advertEnrichment =
  enr_txPower :: "int option"
  enr_batteryMV :: "int option"
  enr_temperatureC :: "float64 option"

definition no_enrichment :: advertEnrichment where
  "no_enrichment = \<lparr>enr_txPower = None, enr_batteryMV = None, enr_temperatureC = None\<rparr>"

definition telemetryFromAdvert :: "Advert \<Rightarrow> advertEnrichment option" where
  "telemetryFromAdvert adv =
     (case Eddystone adv of
        None \<Rightarrow> None
      | Some ed \<Rightarrow>
          if FrameType ed \<noteq> 0x20 then None
          else
            (let enr = no_enrichment\<lparr>enr_batteryMV := map_option uint (BatteryMV ed),
                                     enr_temperatureC := TemperatureC ed\<rparr>
             in if enr_batteryMV enr \<noteq> None \<or> enr_temperatureC enr \<noteq> None then Some enr else None))"

definition enrichmentFor :: "Advert \<Rightarrow> advertEnrichment \<Rightarrow> advertEnrichment" where
  "enrichmentFor adv correlated =
     (case adv_IBeacon adv of
        Some ib \<Rightarrow> correlated\<lparr>enr_txPower := Some (fr_TxPower ib)\<rparr>
      | None \<Rightarrow>
          (case adv_TxPower adv of
             Some tx \<Rightarrow> correlated\<lparr>enr_txPower := Some tx\<rparr>
           | None \<Rightarrow> correlated))"

definition capture :: "'w Server \<Rightarrow> 'w \<Rightarrow> CaptureSettings" where
  "capture s w =
     (case CaptureSettingsFn (srv_opts s) of
        None \<Rightarrow> \<lparr>cs_CapturePerEventHex = False, cs_CaptureFullPosts = False\<rparr>
      | Some f \<Rightarrow> f w)"

definition maybeRecordRawPost :: "string \<Rightarrow> Request \<Rightarrow> bytes \<Rightarrow> CaptureSettings \<Rightarrow> 'w Server \<times> 'w
    \<Rightarrow> int option \<times> 'w Server \<times> 'w" where
  "maybeRecordRawPost endpoint r raw cfg sw =
     (let (s, w) = sw in
      if \<not> cs_CaptureFullPosts cfg \<or> length raw = 0 then (None, s, w)
      else (case RecordRawPost (srv_opts s) of
          None \<Rightarrow> (None, s, w)
        | Some record \<Rightarrow>
            (case record \<lparr>rec_Endpoint = endpoint, rec_RemoteAddr = clientIP r,
                          rec_ContentEncoding = req_ContentEncoding r, rec_Body = raw,
                          rec_BodySHA256 = hex_encode (sha256 raw)\<rparr> w of
               (None, w1) \<Rightarrow> (None, bump RawPostInsertErrors s, w1)
             | (Some i, w1) \<Rightarrow> (Some i, s, w1))))"

definition recordObservation :: "ObservationRecord \<Rightarrow> 'w Server \<Rightarrow> 'w \<Rightarrow> 'w" where
  "recordObservation ob s w =
     (case RecordObservation (srv_opts s) of None \<Rightarrow> w | Some f \<Rightarrow> f ob w)"

definition maybeLogBadTimestamp :: "gtime \<Rightarrow> string \<Rightarrow> int \<Rightarrow> 'w Server \<Rightarrow> 'w Server" where
  "maybeLogBadTimestamp now ap raw s =
     (if s64 (unix_nano now - lastBadTimestampLog s) < second then s
      else bump (BadTimestampLog ap raw) (s\<lparr>lastBadTimestampLog := unix_nano now\<rparr>))"

definition conditionalHex :: "string \<Rightarrow> bool \<Rightarrow> string" where
  "conditionalHex h on = (if \<not> on then [] else h)"

definition unix_epoch :: gtime where
  "unix_epoch = 62135596800 * second"

definition msToTime :: "int \<Rightarrow> gtime" where
  "msToTime ms =
     (if ms \<le> 0 then 0
      else (let sec = gquot ms 1000; nsec = grem ms 1000 * 1000000 in unix_epoch + sec * second + nsec))"

subsection \<open>The ingest handler\<close>

record parsedEvent =
  pe_ev :: ingestEvent
  pe_adv :: Advert
  pe_key :: "BeaconKey option"

text \<open>The first pass: decode every advert, and collect telemetry by the address within the post.\<close>

definition first_pass :: "gtime \<Rightarrow> string \<Rightarrow> ingestEvent
    \<Rightarrow> 'w Server \<times> parsedEvent list \<times> (string, advertEnrichment) gmap
    \<Rightarrow> 'w Server \<times> parsedEvent list \<times> (string, advertEnrichment) gmap" where
  "first_pass now ap ev st =
     (let (s, items, tel) = st in
      case Parse (ie_Data ev) of
        (adv, Some perr) \<Rightarrow>
          (let s1 = bump (ParserErrors ap) s;
               s2 = (if s64 (unix_nano now - lastParserErrLog s1) \<ge> second
                     then bump (ParserErrorLog ap) (s1\<lparr>lastParserErrLog := unix_nano now\<rparr>) else s1)
           in (s2, items, tel))
      | (adv, None) \<Rightarrow>
          (let items1 = items @ [\<lparr>pe_ev = ev, pe_adv = adv, pe_key = Identify adv\<rparr>] in
           case telemetryFromAdvert adv of
             Some enr \<Rightarrow>
               (s, items1, if ie_DeviceEUID ev \<noteq> [] then mput (ie_DeviceEUID ev) enr tel else tel)
           | None \<Rightarrow> (s, items1, tel)))"

text \<open>The second pass: record every identified event, and submit it if its beacon is tracked.\<close>

definition second_pass :: "gtime \<Rightarrow> string \<Rightarrow> string \<Rightarrow> (string, advertEnrichment) gmap \<Rightarrow> CaptureSettings \<Rightarrow> int option
    \<Rightarrow> parsedEvent \<Rightarrow> 'w Server \<times> 'w \<Rightarrow> 'w Server \<times> 'w" where
  "second_pass now ap gwName tel cfg rawPostID it sw =
     (let (s, w) = sw in
      case pe_key it of
        None \<Rightarrow> (bump (AnonymousAdverts ap) s, w)
      | Some k \<Rightarrow>
          (let s1 = bump (AdvertsByKind (kind k) ap) s;
               (nm, tracked) = (case BeaconLookup (srv_opts s) of None \<Rightarrow> ([], False) | Some f \<Rightarrow> f k w);
               s2 = (if \<not> tracked then bump (UnknownBeacons (kind k) (key k) ap) s1 else s1);
               at0 = msToTime (ie_Timestamp (pe_ev it));
               (obsAt, s3) = (if time_is_zero at0
                  then (now, maybeLogBadTimestamp now ap (ie_Timestamp (pe_ev it)) (bump (IngestBadTimestamp ap) s2))
                  else (at0, s2));
               enr = enrichmentFor (pe_adv it) (mget_zero no_enrichment tel (ie_DeviceEUID (pe_ev it)));
               w1 = recordObservation
                  \<lparr>or_ObservedAt = obsAt, or_Kind = kind k, or_Key = key k, or_APMac = ap, or_APName = gwName,
                   or_RSSI = ie_RSSI (pe_ev it), or_TxPower = enr_txPower enr, or_BatteryMV = enr_batteryMV enr,
                   or_TemperatureC = enr_temperatureC enr, or_LocalName = LocalName (pe_adv it),
                   or_RawHex = conditionalHex (ie_Data (pe_ev it)) (cs_CapturePerEventHex cfg),
                   or_RawPostID = rawPostID, or_Tracked = tracked\<rparr> s w
           in if \<not> tracked then (s3, w1)
              else
                (s3, case PresenceSubmit (srv_opts s) of
                   None \<Rightarrow> w1
                 | Some submit \<Rightarrow>
                     submit \<lparr>s_Beacon = k, s_BeaconName = nm, s_APMac = ap, s_APName = gwName,
                             s_RSSI = ie_RSSI (pe_ev it), s_At = obsAt, s_BatteryMV = enr_batteryMV enr,
                             s_TemperatureC = enr_temperatureC enr\<rparr> w1)))"

definition handleIngest :: "Codecs \<Rightarrow> gtime \<Rightarrow> 'w handler" where
  "handleIngest cod now r sw =
     (let (s, w) = sw in
      case readBody cod r s of
        (None, s1) \<Rightarrow> (400, bump (IngestRequests ''/ingest'' 400) s1, w)
      | (Some (plain, raw), s1) \<Rightarrow>
          (case unmarshalIngest cod plain of
             None \<Rightarrow> (400, bump (IngestRequests ''/ingest'' 400) s1, w)
           | Some p \<Rightarrow>
               (let ap = ToLower (ip_GatewayEUID p);
                    cfg = capture s1 w;
                    (rawPostID, s2, w1) = maybeRecordRawPost ''/ingest'' r raw cfg (s1, w);
                    (s3, items, tel) = fold (first_pass now ap) (ip_Events p) (s2, [], []);
                    (s4, w2) = fold (second_pass now ap (ip_APName p) tel cfg rawPostID) items (s3, w1)
                in (200, bump (IngestRequests ''/ingest'' 200) s4, w2))))"

definition handleHeartbeat :: "Codecs \<Rightarrow> 'w handler" where
  "handleHeartbeat cod r sw =
     (let (s, w) = sw in
      case readBody cod r s of
        (None, s1) \<Rightarrow> (400, bump (IngestRequests ''/heartbeat'' 400) s1, w)
      | (Some (plain, raw), s1) \<Rightarrow>
          (case unmarshalHeartbeat cod plain of
             None \<Rightarrow> (400, bump (IngestRequests ''/heartbeat'' 400) s1, w)
           | Some p \<Rightarrow>
               (let (i, s2, w1) = maybeRecordRawPost ''/heartbeat'' r raw (capture s1 w) (s1, w);
                    w2 = (case OnHeartbeat (srv_opts s2) of None \<Rightarrow> w1 | Some f \<Rightarrow> f (hp_Online p) (hp_Offline p) w1)
                in (200, bump (IngestRequests ''/heartbeat'' 200) (bump (HeartbeatGateways (length (hp_Online p))) s2), w2))))"

definition handleHealth :: "'w handler" where
  "handleHealth r sw = (200, sw)"

text \<open>\<open>Routes\<close>: any other path is not found.\<close>

definition Routes :: "Codecs \<Rightarrow> gtime \<Rightarrow> 'w handler" where
  "Routes cod now r sw =
     (if req_Path r = ''/ingest'' then requireAuth ''/ingest'' (handleIngest cod now) r sw
      else if req_Path r = ''/heartbeat'' then requireAuth ''/heartbeat'' (handleHeartbeat cod) r sw
      else if req_Path r = ''/health'' then handleHealth r sw
      else (404, sw))"

end
