(* ===== verification/Ingest_Guarantees.thy ===== *)
theory Ingest_Guarantees
  imports Ingest
begin

section \<open>Guarantees of the ingest server\<close>

text \<open>
  A request changes the world only after authentication; every event of a post is classified exactly once; and the
  two passes of the handler amount to a simple specification: the events with an identity, in order, each recorded
  with its time and the telemetry of its address, the tracked ones also submitted.
\<close>

subsection \<open>Authentication\<close>

definition authorised :: "Request \<Rightarrow> 'w Server \<Rightarrow> bool" where
  "authorised r s \<longleftrightarrow>
     req_Method r = ''POST'' \<and> req_ApiKey r = APIKey (srv_opts s) \<and>
     (allowedNets s = [] \<or> (\<exists>ip n. ParseAddr (clientIP r) = Some ip \<and> n \<in> set (allowedNets s) \<and> Contains n ip))"

lemma ipAllowed_iff:
  "ipAllowed ip s \<longleftrightarrow> (\<exists>a n. ParseAddr ip = Some a \<and> n \<in> set (allowedNets s) \<and> Contains n a)"
  by (auto simp: ipAllowed_def list_ex_iff split: option.split)

lemma requireAuth_authorised:
  "requireAuth endpoint h r (s, w) =
     (if authorised r s then h r (s, w)
      else if req_Method r \<noteq> ''POST'' then (405, bump (IngestRequests endpoint 405) s, w)
      else if allowedNets s \<noteq> [] \<and> \<not> ipAllowed (clientIP r) s then
        (403, bump (IngestRequests endpoint 403) (bump (AuthFailures endpoint ''source_ip'') s), w)
      else (401, bump (IngestRequests endpoint 401) (bump (AuthFailures endpoint ''api_key'') s), w))"
  by (auto simp: requireAuth_def authorised_def ipAllowed_iff)

text \<open>
  C36: no request reaches the engine, the writers or the heartbeat state unless it is a post to one of the
  two endpoints that carries the key and, if networks are configured, comes from an address in
  one of them. Requests to the two endpoints that fail the check are answered with 405, 403 or 401.
\<close>

theorem ingest_gate:
  "let (status, s', w') = Routes cod now r (s, w); protected = (req_Path r = ''/ingest'' \<or> req_Path r = ''/heartbeat'') in
   (w' = w \<or> protected \<and> authorised r s) \<and> (protected \<and> \<not> authorised r s \<longrightarrow> status \<in> {401, 403, 405})"
  by (simp add: Routes_def requireAuth_authorised handleHealth_def split: prod.split)

text \<open>A server whose world is the list of what its callbacks were told, for the instances below.\<close>

datatype told = Observed ObservationRecord | Submitted Sighting | Beat "string list" "string list"

definition sample_key :: BeaconKey where
  "sample_key = \<lparr>kind = KindName, key = ''t''\<rparr>"

definition sample_options :: "told list IngestOptions" where
  "sample_options =
     \<lparr>APIKey = ''secret'', AllowedSourceCIDRs = [], PresenceSubmit = Some (\<lambda>x w. w @ [Submitted x]),
      OnHeartbeat = Some (\<lambda>on off w. w @ [Beat on off]),
      BeaconLookup = Some (\<lambda>k w. if k = sample_key then (''keys'', True) else ([], False)),
      MaxBodyBytes = 64, CaptureSettingsFn = None, RecordRawPost = None,
      RecordObservation = Some (\<lambda>x w. w @ [Observed x]), ing_has_Logger = True, ing_has_Metrics = True\<rparr>"

definition sample_server :: "told list Server" where
  "sample_server =
     \<lparr>srv_opts = sample_options, allowedNets = [], lastParserErrLog = 0, lastBadTimestampLog = 0, metrics = []\<rparr>"

definition sample_request :: "string \<Rightarrow> string \<Rightarrow> Request" where
  "sample_request path k =
     \<lparr>req_Method = ''POST'', req_Path = path, req_RemoteAddr = ''10.0.0.7:4711'', req_ApiKey = k,
      req_ContentEncoding = [], req_Body = [0x7B, 0x7D]\<rparr>"

definition sample_codecs :: "ingestEvent list \<Rightarrow> Codecs" where
  "sample_codecs evs =
     \<lparr>gunzip = (\<lambda>raw. None),
      unmarshalIngest = (\<lambda>b. Some \<lparr>ip_GatewayEUID = ''AA:BB'', ip_APName = ''attic'', ip_APLocation = [],
        ip_APModel = [], ip_APIP = [], ip_Timestamp = 0, ip_Events = evs\<rparr>),
      unmarshalHeartbeat = (\<lambda>b. Some \<lparr>hp_Vendor = [], hp_Online = [''aa:bb''], hp_Offline = []\<rparr>)\<rparr>"

theorem ingest_gate_witness:
  "let r = sample_request ''/heartbeat'' ''wrong'' in
   \<not> authorised r sample_server \<and>
   (case Routes (sample_codecs []) 0 r (sample_server, []) of (status, s', w') \<Rightarrow> w' = [] \<and> status \<in> {401, 403, 405})"
proof -
  let ?r = "sample_request ''/heartbeat'' ''wrong''"
  have no: "\<not> authorised ?r sample_server"
    by (simp add: authorised_def sample_request_def sample_server_def sample_options_def)
  then show ?thesis
    using ingest_gate [of "sample_codecs []" 0 ?r sample_server "[]"]
    by (simp add: Let_def sample_request_def split: prod.splits)
qed

subsection \<open>What a post amounts to\<close>

definition decodes :: "ingestEvent \<Rightarrow> bool" where
  "decodes ev \<longleftrightarrow> snd (Parse (ie_Data ev)) = None"

definition advert_of :: "ingestEvent \<Rightarrow> Advert" where
  "advert_of ev = fst (Parse (ie_Data ev))"

definition identity_of :: "ingestEvent \<Rightarrow> BeaconKey option" where
  "identity_of ev = Identify (advert_of ev)"

text \<open>The last telemetry frame that the post holds for a radio address.\<close>

definition reported_telemetry :: "ingestEvent list \<Rightarrow> string \<Rightarrow> advertEnrichment option" where
  "reported_telemetry evs euid =
     (let frames = List.map_filter (\<lambda>ev. telemetryFromAdvert (advert_of ev))
                     (filter (\<lambda>ev. decodes ev \<and> ie_DeviceEUID ev = euid) evs)
      in if euid = [] \<or> frames = [] then None else Some (last frames))"

text \<open>An identified event: the key, when it was observed, the event, its advert and the telemetry it carries.\<close>

record report =
  rp_key :: BeaconKey
  rp_at :: gtime
  rp_event :: ingestEvent
  rp_advert :: Advert
  rp_enr :: advertEnrichment

definition report_of :: "gtime \<Rightarrow> ingestEvent list \<Rightarrow> ingestEvent \<Rightarrow> report option" where
  "report_of now evs ev =
     (if \<not> decodes ev then None
      else map_option (\<lambda>k. \<lparr>rp_key = k, rp_at = (if ie_Timestamp ev \<le> 0 then now else msToTime (ie_Timestamp ev)),
             rp_event = ev, rp_advert = advert_of ev,
             rp_enr = enrichmentFor (advert_of ev)
               (case reported_telemetry evs (ie_DeviceEUID ev) of None \<Rightarrow> no_enrichment | Some e \<Rightarrow> e)\<rparr>)
           (identity_of ev))"

definition reports :: "gtime \<Rightarrow> ingestEvent list \<Rightarrow> report list" where
  "reports now evs = List.map_filter (report_of now evs) evs"

definition observation_of :: "string \<Rightarrow> string \<Rightarrow> bool \<Rightarrow> int option \<Rightarrow> bool \<Rightarrow> report \<Rightarrow> ObservationRecord" where
  "observation_of ap gw hexOn rid tracked rp =
     \<lparr>or_ObservedAt = rp_at rp, or_Kind = kind (rp_key rp), or_Key = key (rp_key rp), or_APMac = ap, or_APName = gw,
      or_RSSI = ie_RSSI (rp_event rp), or_TxPower = enr_txPower (rp_enr rp), or_BatteryMV = enr_batteryMV (rp_enr rp),
      or_TemperatureC = enr_temperatureC (rp_enr rp), or_LocalName = LocalName (rp_advert rp),
      or_RawHex = (if hexOn then ie_Data (rp_event rp) else []), or_RawPostID = rid, or_Tracked = tracked\<rparr>"

definition sighting_of :: "string \<Rightarrow> string \<Rightarrow> string \<Rightarrow> report \<Rightarrow> Sighting" where
  "sighting_of ap gw nm rp =
     \<lparr>s_Beacon = rp_key rp, s_BeaconName = nm, s_APMac = ap, s_APName = gw, s_RSSI = ie_RSSI (rp_event rp),
      s_At = rp_at rp, s_BatteryMV = enr_batteryMV (rp_enr rp), s_TemperatureC = enr_temperatureC (rp_enr rp)\<rparr>"

text \<open>What one report does to the world, for the three callbacks that a server has.\<close>

definition take_report :: "(BeaconKey \<Rightarrow> 'w \<Rightarrow> string \<times> bool) \<Rightarrow> (ObservationRecord \<Rightarrow> 'w \<Rightarrow> 'w) \<Rightarrow> (Sighting \<Rightarrow> 'w \<Rightarrow> 'w)
    \<Rightarrow> string \<Rightarrow> string \<Rightarrow> bool \<Rightarrow> int option \<Rightarrow> report \<Rightarrow> 'w \<Rightarrow> 'w" where
  "take_report look obs subm ap gw hexOn rid rp w =
     (let (nm, tracked) = look (rp_key rp) w;
          w1 = obs (observation_of ap gw hexOn rid tracked rp) w
      in if tracked then subm (sighting_of ap gw nm rp) w1 else w1)"

lemma map_filter_snoc: "List.map_filter f (xs @ [x]) = List.map_filter f xs @ (case f x of None \<Rightarrow> [] | Some y \<Rightarrow> [y])"
  by (induction xs) (auto simp: List.map_filter_simps split: option.split)

lemma reported_telemetry_snoc:
  "reported_telemetry (evs @ [ev]) euid =
     (if euid \<noteq> [] \<and> decodes ev \<and> ie_DeviceEUID ev = euid \<and> telemetryFromAdvert (advert_of ev) \<noteq> None
      then telemetryFromAdvert (advert_of ev) else reported_telemetry evs euid)"
  by (auto simp: reported_telemetry_def Let_def map_filter_snoc split: option.split)

definition parsed :: "ingestEvent list \<Rightarrow> parsedEvent list" where
  "parsed evs = map (\<lambda>ev. \<lparr>pe_ev = ev, pe_adv = advert_of ev, pe_key = identity_of ev\<rparr>) (filter decodes evs)"

lemma Parse_cases:
  obtains perr where "\<not> decodes ev" "Parse (ie_Data ev) = (advert_of ev, Some perr)"
  | "decodes ev" "Parse (ie_Data ev) = (advert_of ev, None)"
  by (cases "Parse (ie_Data ev)"; cases "snd (Parse (ie_Data ev))") (auto simp: decodes_def advert_of_def)

text \<open>The three outcomes of an event, as the counters tell them.\<close>

datatype outcome = Undecodable | Anonymous | Identified

fun outcome_of :: "metric \<Rightarrow> outcome option" where
  "outcome_of (ParserErrors ap) = Some Undecodable"
| "outcome_of (AnonymousAdverts ap) = Some Anonymous"
| "outcome_of (AdvertsByKind k ap) = Some Identified"
| "outcome_of m = None"

definition tally :: "outcome \<Rightarrow> 'w Server \<Rightarrow> nat" where
  "tally c s = length (filter (\<lambda>m. outcome_of m = Some c) (metrics s))"

definition classify :: "ingestEvent \<Rightarrow> outcome" where
  "classify ev = (if \<not> decodes ev then Undecodable else if identity_of ev = None then Anonymous else Identified)"

lemma tally_bump [simp]: "tally c (bump m s) = tally c s + (if outcome_of m = Some c then 1 else 0)"
  by (simp add: tally_def bump_def)

lemma tally_log [simp]:
  "tally c (s\<lparr>lastParserErrLog := n\<rparr>) = tally c s" "tally c (s\<lparr>lastBadTimestampLog := n\<rparr>) = tally c s"
  by (simp_all add: tally_def)

lemma srv_opts_bump [simp]: "srv_opts (bump m s) = srv_opts s"
  by (simp add: bump_def)

lemma first_pass_bad:
  assumes "\<not> decodes ev"
  shows "\<exists>s'. first_pass now ap ev (s, items, tel) = (s', items, tel) \<and> srv_opts s' = srv_opts s
      \<and> (\<forall>c. tally c s' = tally c s + (if c = Undecodable then 1 else 0))"
proof (cases rule: Parse_cases [of ev])
  case (1 perr)
  then show ?thesis by (auto simp: first_pass_def Let_def)
qed (use assms in simp)

lemma first_pass_good:
  assumes "decodes ev"
  shows "first_pass now ap ev (s, items, tel) =
     (s, items @ [\<lparr>pe_ev = ev, pe_adv = advert_of ev, pe_key = identity_of ev\<rparr>],
      case telemetryFromAdvert (advert_of ev) of
        None \<Rightarrow> tel
      | Some enr \<Rightarrow> if ie_DeviceEUID ev \<noteq> [] then mput (ie_DeviceEUID ev) enr tel else tel)"
proof (cases rule: Parse_cases [of ev])
  case 2
  then show ?thesis by (simp add: first_pass_def Let_def identity_of_def split: option.split)
qed (use assms in simp)

lemma first_pass_fold:
  "\<exists>s' tel. fold (first_pass now ap) evs (s, [], []) = (s', parsed evs, tel)
     \<and> srv_opts s' = srv_opts s \<and> (\<forall>euid. mget tel euid = reported_telemetry evs euid)
     \<and> (\<forall>c. tally c s' = tally c s + (if c = Undecodable then length (filter (\<lambda>ev. \<not> decodes ev) evs) else 0))"
proof (induction evs rule: rev_induct)
  case Nil
  show ?case by (simp add: parsed_def reported_telemetry_def List.map_filter_simps)
next
  case (snoc ev evs)
  then obtain s' tel where h: "fold (first_pass now ap) evs (s, [], []) = (s', parsed evs, tel)"
    "srv_opts s' = srv_opts s" "\<forall>euid. mget tel euid = reported_telemetry evs euid"
    "\<forall>c. tally c s' = tally c s + (if c = Undecodable then length (filter (\<lambda>ev. \<not> decodes ev) evs) else 0)"
    by blast
  show ?case
  proof (cases "decodes ev")
    case False
    obtain s2 where "first_pass now ap ev (s', parsed evs, tel) = (s2, parsed evs, tel)" "srv_opts s2 = srv_opts s'"
      "\<forall>c. tally c s2 = tally c s' + (if c = Undecodable then 1 else 0)"
      using first_pass_bad [OF False, of now ap s' "parsed evs" tel] by blast
    with h False show ?thesis by (simp add: parsed_def reported_telemetry_snoc)
  next
    case True
    have "\<forall>euid. mget (case telemetryFromAdvert (advert_of ev) of None \<Rightarrow> tel
        | Some enr \<Rightarrow> if ie_DeviceEUID ev \<noteq> [] then mput (ie_DeviceEUID ev) enr tel else tel) euid
        = reported_telemetry (evs @ [ev]) euid"
      using h(3) True by (auto simp: reported_telemetry_snoc mget_mput split: option.split)
    with h True first_pass_good [OF True, of now ap s' "parsed evs" tel] show ?thesis by (simp add: parsed_def)
  qed
qed

lemma msToTime_zero_iff: "time_is_zero (msToTime ms) \<longleftrightarrow> ms \<le> 0"
proof (cases "ms \<le> 0")
  case False
  then have "0 \<le> gquot ms 1000" "0 \<le> grem ms 1000" by (simp_all add: gquot_nonneg grem_nonneg)
  then have "0 \<le> gquot ms 1000 * second" "0 \<le> grem ms 1000 * 1000000" by (simp_all add: second_def)
  then show ?thesis using False by (simp add: msToTime_def time_is_zero_def unix_epoch_def second_def Let_def)
qed (simp add: msToTime_def time_is_zero_def)

lemma second_pass_step:
  assumes "BeaconLookup (srv_opts s) = Some look" "RecordObservation (srv_opts s) = Some obs"
    "PresenceSubmit (srv_opts s) = Some subm" "\<forall>euid. mget tel euid = reported_telemetry evs euid" "decodes ev"
  shows "\<exists>s'. second_pass now ap gw tel cfg rid \<lparr>pe_ev = ev, pe_adv = advert_of ev, pe_key = identity_of ev\<rparr> (s, w) =
      (s', case report_of now evs ev of None \<Rightarrow> w
         | Some rp \<Rightarrow> take_report look obs subm ap gw (cs_CapturePerEventHex cfg) rid rp w)
    \<and> srv_opts s' = srv_opts s \<and> (\<forall>c. tally c s' = tally c s + (if c = classify ev then 1 else 0))"
proof (cases "identity_of ev")
  case None
  with assms(5) show ?thesis by (auto simp: second_pass_def Let_def report_of_def classify_def)
next
  case (Some k)
  have enr: "mget_zero no_enrichment tel (ie_DeviceEUID ev)
      = (case reported_telemetry evs (ie_DeviceEUID ev) of None \<Rightarrow> no_enrichment | Some e \<Rightarrow> e)"
    using assms(4) by (simp add: mget_zero_def)
  obtain nm tr where lk: "look k w = (nm, tr)" by (cases "look k w")
  show ?thesis
    using Some assms(1-3,5) lk
    by (cases tr) (auto simp: second_pass_def Let_def report_of_def classify_def take_report_def observation_of_def
        sighting_of_def recordObservation_def maybeLogBadTimestamp_def conditionalHex_def enr msToTime_zero_iff)
qed

lemma second_pass_fold:
  assumes "BeaconLookup (srv_opts s) = Some look" "RecordObservation (srv_opts s) = Some obs"
    "PresenceSubmit (srv_opts s) = Some subm" "\<forall>euid. mget tel euid = reported_telemetry evs euid"
  shows "\<exists>s'. fold (second_pass now ap gw tel cfg rid) (parsed xs) (s, w) =
      (s', fold (take_report look obs subm ap gw (cs_CapturePerEventHex cfg) rid)
             (List.map_filter (report_of now evs) xs) w)
    \<and> srv_opts s' = srv_opts s
    \<and> (\<forall>c. tally c s' = tally c s + length (filter (\<lambda>ev. decodes ev \<and> classify ev = c) xs))"
  using assms
proof (induction xs arbitrary: s w)
  case Nil
  then show ?case by (simp add: parsed_def List.map_filter_simps)
next
  case (Cons ev xs)
  show ?case
  proof (cases "decodes ev")
    case False
    then have "report_of now evs ev = None" by (simp add: report_of_def)
    with False Cons.IH [of s w] Cons.prems show ?thesis by (simp add: parsed_def List.map_filter_simps)
  next
    case True
    let ?it = "\<lparr>pe_ev = ev, pe_adv = advert_of ev, pe_key = identity_of ev\<rparr>"
    let ?w = "case report_of now evs ev of None \<Rightarrow> w
         | Some rp \<Rightarrow> take_report look obs subm ap gw (cs_CapturePerEventHex cfg) rid rp w"
    obtain s1 where 1: "second_pass now ap gw tel cfg rid ?it (s, w) = (s1, ?w)" "srv_opts s1 = srv_opts s"
      "\<forall>c. tally c s1 = tally c s + (if c = classify ev then 1 else 0)"
      using second_pass_step [OF Cons.prems True] by blast
    obtain s2 where 2: "fold (second_pass now ap gw tel cfg rid) (parsed xs) (s1, ?w) =
        (s2, fold (take_report look obs subm ap gw (cs_CapturePerEventHex cfg) rid)
             (List.map_filter (report_of now evs) xs) ?w)" "srv_opts s2 = srv_opts s1"
      "\<forall>c. tally c s2 = tally c s1 + length (filter (\<lambda>ev. decodes ev \<and> classify ev = c) xs)"
      using Cons.IH [of s1 ?w] Cons.prems 1(2) by auto
    have "parsed (ev # xs) = ?it # parsed xs" using True by (simp add: parsed_def)
    moreover have "fold (take_report look obs subm ap gw (cs_CapturePerEventHex cfg) rid)
        (List.map_filter (report_of now evs) (ev # xs)) w =
        fold (take_report look obs subm ap gw (cs_CapturePerEventHex cfg) rid)
             (List.map_filter (report_of now evs) xs) ?w"
      by (simp add: List.map_filter_simps split: option.split)
    ultimately show ?thesis using 1 2 True by auto
  qed
qed

lemma classify_undecodable: "classify ev = Undecodable \<longleftrightarrow> \<not> decodes ev"
  by (simp add: classify_def)

text \<open>The two passes of the handler together.\<close>

lemma passes_refine:
  assumes "BeaconLookup (srv_opts s) = Some look" "RecordObservation (srv_opts s) = Some obs"
    "PresenceSubmit (srv_opts s) = Some subm"
    and f: "fold (first_pass now ap) evs (s, [], []) = (s3, items, tel)"
  shows "\<exists>s4. fold (second_pass now ap gw tel cfg rid) items (s3, w) =
      (s4, fold (take_report look obs subm ap gw (cs_CapturePerEventHex cfg) rid) (reports now evs) w)
    \<and> (\<forall>c. tally c s4 = tally c s + length (filter (\<lambda>ev. classify ev = c) evs))"
proof -
  obtain s' tel' where 1: "fold (first_pass now ap) evs (s, [], []) = (s', parsed evs, tel')"
    "srv_opts s' = srv_opts s" "\<forall>euid. mget tel' euid = reported_telemetry evs euid"
    "\<forall>c. tally c s' = tally c s + (if c = Undecodable then length (filter (\<lambda>ev. \<not> decodes ev) evs) else 0)"
    using first_pass_fold by blast
  have eq: "s3 = s'" "items = parsed evs" "tel = tel'" using f 1(1) by simp_all
  obtain s4 where 2: "fold (second_pass now ap gw tel cfg rid) items (s3, w) =
      (s4, fold (take_report look obs subm ap gw (cs_CapturePerEventHex cfg) rid) (reports now evs) w)"
    "\<forall>c. tally c s4 = tally c s' + length (filter (\<lambda>ev. decodes ev \<and> classify ev = c) evs)"
    using second_pass_fold [of s3 look obs subm tel evs now ap gw cfg rid evs w] assms(1-3) 1(2,3) eq
    by (auto simp: reports_def)
  have "length (filter (\<lambda>ev. classify ev = c) evs) = (if c = Undecodable then length (filter (\<lambda>ev. \<not> decodes ev) evs) else 0)
      + length (filter (\<lambda>ev. decodes ev \<and> classify ev = c) evs)" for c
    by (induction evs) (auto simp: classify_undecodable)
  with 1(4) 2 show ?thesis by fastforce
qed

lemma readBody_some:
  assumes "readBody cod r s = (Some (plain, raw), s1)"
  shows "s1 = s" "raw = req_Body r"
  using assms by (auto simp: readBody_def Let_def split: if_splits option.splits)

lemma maybeRecordRawPost_server:
  assumes "maybeRecordRawPost endpoint r raw cfg (s, w) = (rid, s2, w1)"
  shows "srv_opts s2 = srv_opts s" "tally c s2 = tally c s"
  using assms by (auto simp: maybeRecordRawPost_def split: if_splits option.splits prod.splits)

text \<open>
  A well-formed post acts on the world exactly as its list of reports says: the raw post is captured
  first, then every decodable event with an identity is, in the order of the post, recorded with its own time (the clock if the
  event has none) and the last telemetry the post holds for its radio address, and submitted as a sighting right
  after being recorded if and only if its beacon is tracked at that moment.
\<close>

theorem ingest_post_refines:
  assumes "readBody cod r s = (Some (plain, raw), s1)" "unmarshalIngest cod plain = Some p"
    and "BeaconLookup (srv_opts s) = Some look" "RecordObservation (srv_opts s) = Some obs"
      "PresenceSubmit (srv_opts s) = Some subm"
    and "maybeRecordRawPost ''/ingest'' r raw (capture s w) (s, w) = (rid, s2, w1)"
  shows "\<exists>s'. handleIngest cod now r (s, w) =
     (200, s', fold (take_report look obs subm (ToLower (ip_GatewayEUID p)) (ip_APName p)
                      (cs_CapturePerEventHex (capture s w)) rid) (reports now (ip_Events p)) w1)"
proof -
  let ?ap = "ToLower (ip_GatewayEUID p)"
  obtain s3 items tel where f: "fold (first_pass now ?ap) (ip_Events p) (s2, [], []) = (s3, items, tel)"
    by (cases "fold (first_pass now ?ap) (ip_Events p) (s2, [], [])")
  have cb: "BeaconLookup (srv_opts s2) = Some look" "RecordObservation (srv_opts s2) = Some obs"
      "PresenceSubmit (srv_opts s2) = Some subm"
    using assms(3-5) maybeRecordRawPost_server(1) [OF assms(6)] by simp_all
  from passes_refine [OF cb f, of "ip_APName p" "capture s w" rid w1] f readBody_some [OF assms(1)] assms(1,2,6)
  show ?thesis by (auto simp: handleIngest_def Let_def)
qed

text \<open>
  Every event of a well-formed post is counted under exactly one of parser errors, anonymous adverts and
  identified adverts, so that the three counters grow together by the number of events in the post.
\<close>

theorem ingest_classifies_events:
  assumes "readBody cod r s = (Some (plain, raw), s1)" "unmarshalIngest cod plain = Some p"
    and "BeaconLookup (srv_opts s) = Some look" "RecordObservation (srv_opts s) = Some obs"
      "PresenceSubmit (srv_opts s) = Some subm"
    and "handleIngest cod now r (s, w) = (status, s', w')"
  shows "(\<forall>c. tally c s' = tally c s + length (filter (\<lambda>ev. classify ev = c) (ip_Events p)))
     \<and> tally Undecodable s' + tally Anonymous s' + tally Identified s'
       = tally Undecodable s + tally Anonymous s + tally Identified s + length (ip_Events p)"
proof -
  let ?ap = "ToLower (ip_GatewayEUID p)"
  obtain rid s2 w1 where m: "maybeRecordRawPost ''/ingest'' r raw (capture s w) (s, w) = (rid, s2, w1)"
    by (cases "maybeRecordRawPost ''/ingest'' r raw (capture s w) (s, w)")
  obtain s3 items tel where f: "fold (first_pass now ?ap) (ip_Events p) (s2, [], []) = (s3, items, tel)"
    by (cases "fold (first_pass now ?ap) (ip_Events p) (s2, [], [])")
  have cb: "BeaconLookup (srv_opts s2) = Some look" "RecordObservation (srv_opts s2) = Some obs"
      "PresenceSubmit (srv_opts s2) = Some subm"
    using assms(3-5) maybeRecordRawPost_server(1) [OF m] by simp_all
  have each: "tally c s' = tally c s + length (filter (\<lambda>ev. classify ev = c) (ip_Events p))" for c
    using passes_refine [OF cb f, of "ip_APName p" "capture s w" rid w1] f readBody_some [OF assms(1)] assms(1,2,6) m
      maybeRecordRawPost_server(2) [OF m]
    by (auto simp: handleIngest_def Let_def)
  have "length (filter (\<lambda>ev. classify ev = Undecodable) evs) + length (filter (\<lambda>ev. classify ev = Anonymous) evs)
      + length (filter (\<lambda>ev. classify ev = Identified) evs) = length evs" for evs
    by (induction evs) (auto simp: classify_def)
  from this [of "ip_Events p"] each show ?thesis by simp
qed

text \<open>A post with a name record, a record that overruns its buffer, and an empty advert.\<close>

definition sample_event :: "string \<Rightarrow> int \<Rightarrow> ingestEvent" where
  "sample_event hex ms = \<lparr>ie_Data = hex, ie_DeviceEUID = ''c1:c2'', ie_RSSI = - 60, ie_Timestamp = ms\<rparr>"

definition sample_events :: "ingestEvent list" where
  "sample_events = [sample_event ''020974'' 0, sample_event ''9'' 5, sample_event [] 5]"

definition sample_parse :: "Advert \<times> parse_error option" where
  "sample_parse = parse_loop [2, 9, 0x74] 0 (empty_advert\<lparr>Raw := [2, 9, 0x74]\<rparr>)"

lemma Parse_sample: "Parse ''020974'' = sample_parse"
proof -
  have "hex_decode ''020974'' = Some [2, 9, 0x74]" by code_simp
  then show ?thesis by (simp add: Parse_def sample_parse_def del: hex_decode.simps)
qed

lemma sample_parse_fields:
  "snd sample_parse = None" "adv_IBeacon (fst sample_parse) = None" "Eddystone (fst sample_parse) = None"
  "Mfg (fst sample_parse) = []" "LocalName (fst sample_parse) = ''t''" "adv_TxPower (fst sample_parse) = None"
  by code_simp+

lemma sample_identity: "Identify (fst sample_parse) = Some sample_key"
proof -
  have "TrimSpace ''t'' = ''t''"
    by (rule TrimSpace_plain) (auto simp: is_plain_def is_space_rune_def in_range_def)
  then show ?thesis
    by (simp add: Identify_def ibeacon_stage_def eddystone_stage_def name_stage_def sample_parse_fields NewNameKey_def
        sample_key_def mk_key_def)
qed

lemma Parse_bad: "snd (Parse ''9'') \<noteq> None"
  by (simp add: Parse_def)

lemma Parse_empty: "snd (Parse []) = None" "Identify (fst (Parse [])) = None"
  by (simp_all add: Parse_def Identify_def empty_advert_def ibeacon_stage_def eddystone_stage_def name_stage_def)

lemmas sample_evals =
  sample_events_def sample_event_def decodes_def identity_of_def advert_of_def Parse_sample sample_parse_fields
  sample_identity Parse_bad Parse_empty

lemma sample_outcomes: "map classify sample_events = [Identified, Undecodable, Anonymous]"
  by (simp add: classify_def sample_evals)

lemma sample_body: "readBody (sample_codecs evs) (sample_request ''/ingest'' k) sample_server
    = (Some ([0x7B, 0x7D], [0x7B, 0x7D]), sample_server)"
  by (simp add: readBody_def sample_request_def sample_server_def sample_options_def s64_def EqualFold_ascii_def Let_def)

lemma sample_callbacks:
  "BeaconLookup (srv_opts sample_server) = Some (\<lambda>k w. if k = sample_key then (''keys'', True) else ([], False))"
  "RecordObservation (srv_opts sample_server) = Some (\<lambda>x w. w @ [Observed x])"
  "PresenceSubmit (srv_opts sample_server) = Some (\<lambda>x w. w @ [Submitted x])"
  by (simp_all add: sample_server_def sample_options_def)

lemma sample_reports:
  "\<exists>rp. reports 7 sample_events = [rp] \<and> rp_key rp = sample_key \<and> rp_at rp = 7 \<and> rp_event rp = sample_event ''020974'' 0"
  by (auto simp: reports_def report_of_def sample_evals List.map_filter_simps)

theorem ingest_post_refines_witness:
  "\<exists>s' ob sg. handleIngest (sample_codecs sample_events) 7 (sample_request ''/ingest'' ''secret'') (sample_server, [])
      = (200, s', [Observed ob, Submitted sg])
    \<and> or_Tracked ob \<and> or_APMac ob = ToLower ''AA:BB'' \<and> s_Beacon sg = sample_key \<and> s_BeaconName sg = ''keys'' \<and> s_At sg = 7"
proof -
  let ?cod = "sample_codecs sample_events" and ?r = "sample_request ''/ingest'' ''secret''"
  obtain p where p: "unmarshalIngest ?cod [0x7B, 0x7D] = Some p" "ip_GatewayEUID p = ''AA:BB''" "ip_Events p = sample_events"
    by (simp add: sample_codecs_def)
  have m: "maybeRecordRawPost ''/ingest'' ?r [0x7B, 0x7D] (capture sample_server []) (sample_server, []) = (None, sample_server, [])"
    by (simp add: maybeRecordRawPost_def capture_def sample_server_def sample_options_def)
  obtain rp where rp: "reports 7 sample_events = [rp]" "rp_key rp = sample_key" "rp_at rp = 7" using sample_reports by blast
  from ingest_post_refines [OF sample_body p(1) sample_callbacks m, of 7] rp p show ?thesis
    by (auto simp: take_report_def observation_of_def sighting_of_def simp del: ToLower_def)
qed

theorem ingest_classifies_events_witness:
  "case handleIngest (sample_codecs sample_events) 7 (sample_request ''/ingest'' ''secret'') (sample_server, []) of
     (status, s', w') \<Rightarrow> tally Undecodable s' = 1 \<and> tally Anonymous s' = 1 \<and> tally Identified s' = 1"
proof -
  let ?cod = "sample_codecs sample_events" and ?r = "sample_request ''/ingest'' ''secret''"
  obtain p where p: "unmarshalIngest ?cod [0x7B, 0x7D] = Some p" "ip_Events p = sample_events"
    by (simp add: sample_codecs_def)
  obtain status s' w' where h: "handleIngest ?cod 7 ?r (sample_server, []) = (status, s', w')"
    by (cases "handleIngest ?cod 7 ?r (sample_server, [])")
  have n: "length (filter (\<lambda>ev. classify ev = c) sample_events) = 1" for c
    using sample_outcomes by (cases c) (auto simp: sample_events_def)
  have z: "tally c sample_server = 0" for c by (simp add: tally_def sample_server_def)
  from ingest_classifies_events [OF sample_body p(1) sample_callbacks h] show ?thesis by (simp add: h n z p(2))
qed

subsection \<open>Times and bodies\<close>

lemma msToTime_exact: "0 < ms \<Longrightarrow> msToTime ms = unix_epoch + ms * 1000000"
proof -
  assume "0 < ms"
  moreover have "ms div 1000 * second + ms mod 1000 * 1000000 = ms * 1000000"
    unfolding second_def using div_mult_mod_eq [of ms 1000] by linarith
  ultimately show ?thesis by (simp add: msToTime_def gquot_nonneg grem_nonneg Let_def)
qed

text \<open>
  An accepted gzip body is cut at the limit without a word: whatever follows the first
  \<open>MaxBodyBytes\<close> bytes of the decoded stream, even a wrong checksum, is not seen. A body
  without gzip may be up to four times as long as the limit and is passed on whole.
\<close>

theorem read_body_limits:
  assumes "0 < maxb" "maxb < 2 ^ 60" "MaxBodyBytes (srv_opts s) = maxb" "readBody cod r s = (Some (plain, raw), s1)"
  shows "raw = req_Body r \<and> int (length raw) \<le> 4 * maxb \<and> s1 = s \<and>
    (if EqualFold_ascii (req_ContentEncoding r) ''gzip''
     then \<exists>full ends_well. gunzip cod raw = Some (full, ends_well) \<and> plain = take (nat maxb) full
        \<and> (ends_well \<or> maxb \<le> int (length full))
     else plain = raw)"
proof -
  have "s64 (maxb * 4) = maxb * 4" using assms(1,2) by (simp add: s64_id in_s64_def)
  with assms show ?thesis
    by (auto simp: readBody_def Let_def max_def split: if_splits option.splits)
qed

theorem read_body_limits_witness:
  "let r = (sample_request ''/ingest'' ''secret'')\<lparr>req_ContentEncoding := ''gzip''\<rparr>;
       cod = (sample_codecs [])\<lparr>gunzip := \<lambda>raw. Some (replicate 100 0, False)\<rparr>
   in \<exists>plain. readBody cod r sample_server = (Some (plain, req_Body r), sample_server) \<and> length plain = 64"
proof -
  let ?r = "(sample_request ''/ingest'' ''secret'')\<lparr>req_ContentEncoding := ''gzip''\<rparr>"
  let ?cod = "(sample_codecs [])\<lparr>gunzip := \<lambda>raw. Some (replicate 100 0, False)\<rparr>"
  have gz: "EqualFold_ascii ''gzip'' ''gzip''" by code_simp
  have m: "MaxBodyBytes (srv_opts sample_server) = 64" by (simp add: sample_server_def sample_options_def)
  have "readBody ?cod ?r sample_server = (Some (take 64 (replicate 100 0), req_Body ?r), sample_server)"
    by (simp add: readBody_def m gz s64_def Let_def) (simp add: sample_request_def)
  with read_body_limits [OF _ _ m this] show ?thesis by (auto simp: Let_def)
qed

end
