(* ===== verification/Go_Strconv.thy ===== *)
theory Go_Strconv
  imports Go_Float Go_Strings
begin

section \<open>Numbers from text\<close>

text \<open>
  \<open>strconv.Atoi\<close>, \<open>strconv.ParseInt\<close> in base ten and \<open>strconv.ParseFloat\<close> for 64 bits, as the admin forms use them. An
  error, of syntax or of range, is \<open>None\<close>. A finite decimal or hexadecimal number is rounded once from its exact value.
\<close>

subsection \<open>Integers\<close>

fun cut_sign :: "string \<Rightarrow> bool \<times> string" where
  "cut_sign (c # cs) = (if c = CHR ''-'' then (True, cs) else if c = CHR ''+'' then (False, cs) else (False, c # cs))"
| "cut_sign [] = (False, [])"

definition Atoi :: "string \<Rightarrow> int option" where
  "Atoi s =
     (let (neg, ds) = cut_sign s; v = (if neg then - int (read_nat ds) else int (read_nat ds)) in
      if ds = [] \<or> \<not> list_all is_digit ds \<or> \<not> in_s64 v then None else Some v)"

subsection \<open>Floating-point numbers\<close>

record mantissa =
  mant :: nat
  frac_digits :: nat
  saw_dot :: bool
  saw_digits :: bool
  saw_under :: bool

text \<open>The digits of the mantissa, with at most one point; underscores are noted and skipped.\<close>

fun scan_mant :: "nat \<Rightarrow> string \<Rightarrow> mantissa \<Rightarrow> mantissa \<times> string" where
  "scan_mant base [] m = (m, [])"
| "scan_mant base (c # cs) m =
     (if c = CHR ''_'' then scan_mant base cs (m\<lparr>saw_under := True\<rparr>)
      else if c = CHR ''.'' then
        (if saw_dot m then (m, c # cs) else scan_mant base cs (m\<lparr>saw_dot := True\<rparr>))
      else (case unhex c of
          None \<Rightarrow> (m, c # cs)
        | Some d \<Rightarrow>
            if d < base then
              scan_mant base cs (m\<lparr>mant := base * mant m + d, saw_digits := True,
                frac_digits := frac_digits m + (if saw_dot m then 1 else 0)\<rparr>)
            else (m, c # cs)))"

text \<open>The digits of the exponent; it stops growing once it has reached 10000.\<close>

fun scan_exp :: "string \<Rightarrow> nat \<Rightarrow> bool \<Rightarrow> nat \<times> bool \<times> string" where
  "scan_exp [] e u = (e, u, [])"
| "scan_exp (c # cs) e u =
     (if c = CHR ''_'' then scan_exp cs e True
      else if is_digit c then scan_exp cs (if e < 10000 then 10 * e + (code c - 48) else e) u
      else (e, u, c # cs))"

text \<open>Underscores may stand only between digits, or between a base prefix and a digit.\<close>

fun under_ok :: "bool \<Rightarrow> char \<Rightarrow> string \<Rightarrow> bool" where
  "under_ok hex prev [] \<longleftrightarrow> prev \<noteq> CHR ''_''"
| "under_ok hex prev (c # cs) \<longleftrightarrow>
     (if is_digit c \<or> (hex \<and> unhex c \<noteq> None) then under_ok hex (CHR ''0'') cs
      else if c = CHR ''_'' then prev = CHR ''0'' \<and> under_ok hex (CHR ''_'') cs
      else prev \<noteq> CHR ''_'' \<and> under_ok hex (CHR ''!'') cs)"

definition underscoreOK :: "string \<Rightarrow> bool" where
  "underscoreOK s =
     (case snd (cut_sign s) of
        a # b # cs \<Rightarrow>
          if a = CHR ''0'' \<and> ascii_lower b \<in> {CHR ''b'', CHR ''o'', CHR ''x''}
          then under_ok (ascii_lower b = CHR ''x'') (CHR ''0'') cs
          else under_ok False (CHR ''^'') (a # b # cs)
      | cs \<Rightarrow> under_ok False (CHR ''^'') cs)"

definition scaled :: "nat \<Rightarrow> nat \<Rightarrow> nat \<Rightarrow> nat \<Rightarrow> int \<Rightarrow> rat" where
  "scaled m base nfrac ebase e = of_nat m / of_nat base ^ nfrac * of_nat ebase powi e"

definition readFloat :: "string \<Rightarrow> rat option" where
  "readFloat s =
     (let (neg, ds) = cut_sign s;
          hex = (length ds > 2 \<and> ds ! 0 = CHR ''0'' \<and> ascii_lower (ds ! 1) = CHR ''x'');
          base = (if hex then 16 else 10);
          (m, rest) = scan_mant base (if hex then drop 2 ds else ds)
             \<lparr>mant = 0, frac_digits = 0, saw_dot = False, saw_digits = False, saw_under = False\<rparr>;
          expo = (case rest of
             [] \<Rightarrow> if hex then None else Some (0, False, [])
           | c # cs \<Rightarrow>
               if ascii_lower c \<noteq> (if hex then CHR ''p'' else CHR ''e'') then None
               else (let (eneg, es) = cut_sign cs in
                     if es = [] \<or> \<not> is_digit (hd es) then None
                     else (let (e, u, left) = scan_exp es 0 False in
                           Some (if eneg then - int e else int e, u, left))))
      in if \<not> saw_digits m then None
         else (case expo of
             None \<Rightarrow> None
           | Some (e, u, left) \<Rightarrow>
               if left \<noteq> [] \<or> ((saw_under m \<or> u) \<and> \<not> underscoreOK s) then None
               else (let v = scaled (mant m) base (frac_digits m) (if hex then 2 else 10) e
                     in Some (if neg then - v else v))))"

definition special_float :: "string \<Rightarrow> float64 option" where
  "special_float s =
     (let (neg, t) = cut_sign s; low = map ascii_lower t in
      if low = ''inf'' \<or> low = ''infinity'' then Some (if neg then NInf else PInf)
      else if map ascii_lower s = ''nan'' then Some NaN
      else None)"

definition ParseFloat :: "string \<Rightarrow> float64 option" where
  "ParseFloat s =
     (case special_float s of
        Some x \<Rightarrow> Some x
      | None \<Rightarrow>
          (case readFloat s of
             None \<Rightarrow> None
           | Some v \<Rightarrow> (case mk64 v of Fin x \<Rightarrow> Some (Fin x) | _ \<Rightarrow> None)))"

subsection \<open>Printing and reading back\<close>

lemma digits_not_sign: "is_digit c \<Longrightarrow> c \<noteq> CHR ''-'' \<and> c \<noteq> CHR ''+''"
  by (auto simp: is_digit_def in_range_def)

lemma cut_sign_digits: "list_all is_digit s \<Longrightarrow> cut_sign s = (False, s)"
  by (cases s) (auto dest: digits_not_sign)

lemma show_nat_all_digits: "list_all is_digit (show_nat n)"
  using show_nat_digits by (simp add: list_all_iff)

text \<open>\<open>Atoi\<close> reads back every 64-bit integer that \<open>%d\<close> prints.\<close>

lemma Atoi_show_int: "in_s64 i \<Longrightarrow> Atoi (show_int i) = Some i"
  by (cases "i < 0")
    (simp_all add: Atoi_def show_int_def cut_sign_digits show_nat_all_digits read_show_nat Let_def)

end
