(* ===== verification/Admin_Pages.thy ===== *)
theory Admin_Pages
  imports Store Advert_Parser Mqtt Go_Strconv
begin

section \<open>The pages of the admin server (internal/admin)\<close>

text \<open>
  What the pages show, without the templates: the status table (\<open>status.go\<close>), the device list with its window, the
  packets of a device and a captured post (\<open>devices.go\<close>), the zones table (\<open>zones.go\<close>). A page is the record that the handler
  hands to the template. The record \<open>AdminEnv\<close> holds what a request meets: the clock, which statements of the
  database fail, the order in which rows arrive, and how the publisher's queue moves meanwhile.
\<close>

subsection \<open>Requests and circumstances\<close>

text \<open>\<open>areq_Form\<close> is \<open>r.Form\<close> after parsing, the first value of each field; \<open>areq_Path\<close> is the escaped path.\<close>

record AdminRequest =
  areq_Method :: string
  areq_Path :: string
  areq_Auth :: "(string \<times> string) option"
  areq_FormOK :: bool
  areq_Form :: "(string, string) gmap"
  areq_Query :: "(string, string) gmap"

definition FormValue :: "AdminRequest \<Rightarrow> string \<Rightarrow> string" where
  "FormValue r field = mget_zero [] (areq_Form r) field"

definition QueryValue :: "AdminRequest \<Rightarrow> string \<Rightarrow> string" where
  "QueryValue r field = mget_zero [] (areq_Query r) field"

record AdminEnv =
  ae_now :: gtime
  ae_writeFault :: bool
  ae_pgError :: "pg_error option"
  ae_txFault :: "nat \<Rightarrow> bool"
  ae_loadFault :: bool
  ae_beaconsFault :: bool
  ae_zonesFault :: bool
  ae_pageFault :: bool
  ae_beaconOrder :: "beacon_row list \<Rightarrow> beacon_row list"
  ae_zoneOrder :: "zone_row list \<Rightarrow> zone_row list"
  ae_obsOrder :: "(int \<times> obs_row) list \<Rightarrow> (int \<times> obs_row) list"
  ae_summaryOrder :: "DeviceSummary list \<Rightarrow> DeviceSummary list"
  ae_ctxDone :: bool
  ae_envs :: "BeaconKey \<Rightarrow> env \<times> env"

text \<open>The messages a page carries; \<open>None\<close> is the empty text.\<close>

datatype admin_error =
    DbErr db_error
  | MqttErr mqtt_error
  | ConfigErr config_error
  | IdErr ids_error
  | FieldErr string
  | MissingFields
  | UnknownDevice string
  | NotWired
  | LoadFailing

datatype notice = NoNotice | Saved_but_stale | Promoted_but_stale string | Demoted_but_stale | Demoted_but_lingers | Resynced

subsection \<open>Sorting\<close>

text \<open>
  \<open>sort.Slice\<close> and \<open>sort.SliceStable\<close>: an element moves left past every element that it precedes. The order of Go strings is
  that of their bytes.
\<close>

fun str_less :: "string \<Rightarrow> string \<Rightarrow> bool" where
  "str_less s [] = False"
| "str_less [] (d # ds) = True"
| "str_less (c # cs) (d # ds) \<longleftrightarrow> code c < code d \<or> (code c = code d \<and> str_less cs ds)"

definition slide_in :: "('a \<Rightarrow> 'a \<Rightarrow> bool) \<Rightarrow> 'a \<Rightarrow> 'a list \<Rightarrow> 'a list" where
  "slide_in before x acc =
     (let r = rev acc in rev (dropWhile (before x) r) @ x # rev (takeWhile (before x) r))"

definition stable_sort :: "('a \<Rightarrow> 'a \<Rightarrow> bool) \<Rightarrow> 'a list \<Rightarrow> 'a list" where
  "stable_sort before xs = foldl (\<lambda>acc x. slide_in before x acc) [] xs"

subsection \<open>Status (status.go)\<close>

record statusAP =
  sap_Mac :: string
  sap_Name :: string
  sap_LastRSSI :: int
  sap_EWMARSSI :: float64
  sap_EffectiveRSSI :: float64
  sap_AgeSeconds :: float64
  sap_InPresence :: bool

record statusBeacon =
  sb_Name :: string
  sb_Kind :: string
  sb_Key :: string
  sb_CurrentZone :: string
  sb_CurrentAP :: string
  sb_LastArrival :: gtime
  sb_StickyActive :: bool
  sb_APs :: "statusAP list"

record statusPage =
  sp_Now :: gtime
  sp_Beacons :: "statusBeacon list"
  sp_Heartbeat :: "(string list \<times> string list) option"
  sp_MQTT :: "Stats option"

definition status_ap :: "gtime \<Rightarrow> APSnapshot \<Rightarrow> statusAP" where
  "status_ap asOf ap =
     \<lparr>sap_Mac = as_Mac ap, sap_Name = as_Name ap, sap_LastRSSI = as_LastRSSI ap, sap_EWMARSSI = as_EWMARSSI ap,
      sap_EffectiveRSSI = as_EffectiveRSSI ap,
      sap_AgeSeconds = (if \<not> time_is_zero (as_LastSightingTs ap)
                        then dur_seconds (time_sub asOf (as_LastSightingTs ap)) else fzero),
      sap_InPresence = as_InPresence ap\<rparr>"

definition status_beacon :: "gtime \<Rightarrow> BeaconSnapshot \<Rightarrow> statusBeacon" where
  "status_beacon asOf b =
     \<lparr>sb_Name = sn_Name b, sb_Kind = kind (sn_Beacon b), sb_Key = key (sn_Beacon b),
      sb_CurrentZone = (if sn_CurrentZone b = [] then ''not_home'' else sn_CurrentZone b),
      sb_CurrentAP = sn_CurrentAP b, sb_LastArrival = sn_LastArrival b, sb_StickyActive = sn_StickyActive b,
      sb_APs = stable_sort (\<lambda>x y. flt (sap_EffectiveRSSI y) (sap_EffectiveRSSI x)) (map (status_ap asOf) (sn_APs b))\<rparr>"

definition handleStatus :: "(string list \<times> string list) option \<Rightarrow> Stats option \<Rightarrow> Engine \<Rightarrow> statusPage" where
  "handleStatus heartbeat mqtt e =
     (let snap = Snapshot e in
      \<lparr>sp_Now = AsOf snap,
       sp_Beacons = stable_sort (\<lambda>x y. str_less (sb_Name x) (sb_Name y)) (map (status_beacon (AsOf snap)) (sn_Beacons snap)),
       sp_Heartbeat = heartbeat, sp_MQTT = mqtt\<rparr>)"

subsection \<open>Windows and links (devices.go)\<close>

definition retentionDays_of :: "SettingsSnapshot option \<Rightarrow> int" where
  "retentionDays_of snap =
     (case snap of
        None \<Rightarrow> 7
      | Some s \<Rightarrow> (let d = retentionDays (snap_Get s) in if d > 0 then d else 7))"

record window =
  win_n :: int
  win_unit :: string
  win_dur :: duration
  win_label :: string

text \<open>\<open>Atoi\<close> yields 0 on a syntax error and the nearest bound on an overflow; the products wrap.\<close>

definition Atoi_value :: "string \<Rightarrow> int" where
  "Atoi_value s =
     (let (neg, ds) = cut_sign s in
      case Atoi s of
        Some n \<Rightarrow> n
      | None \<Rightarrow> if ds = [] \<or> \<not> list_all is_digit ds then 0 else if neg then - (2 ^ 63) else 2 ^ 63 - 1)"

definition parseWindow :: "AdminRequest \<Rightarrow> window" where
  "parseWindow r =
     (let n0 = Atoi_value (QueryValue r ''window_n'');
          u0 = ToLower (TrimSpace (QueryValue r ''window_unit''));
          u = (if u0 = ''m'' \<or> u0 = ''h'' \<or> u0 = ''d'' then u0 else ''m'');
          n = (if n0 \<le> 0 then 15 else n0);
          dur = (if u = ''m'' then s64 (n * minute) else if u = ''h'' then s64 (n * hour) else s64 (s64 (n * 24) * hour))
      in \<lparr>win_n = n, win_unit = u, win_dur = dur, win_label = show_int n @ u\<rparr>)"

text \<open>\<open>url.PathEscape\<close> and \<open>url.PathUnescape\<close> for one segment.\<close>

definition path_safe :: "char \<Rightarrow> bool" where
  "path_safe c \<longleftrightarrow>
     in_range 48 57 (code c) \<or> in_range 65 90 (code c) \<or> in_range 97 122 (code c) \<or> c \<in> set ''-_.~$&+=:@''"

definition PathEscape :: "string \<Rightarrow> string" where
  "PathEscape s =
     concat (map (\<lambda>c. if path_safe c then [c]
                      else [CHR ''%'', hex_digit_upper (code c div 16), hex_digit_upper (code c mod 16)]) s)"

fun PathUnescape :: "string \<Rightarrow> string option" where
  "PathUnescape [] = Some []"
| "PathUnescape (c # cs) =
     (if c = CHR ''%'' then
        (case cs of
           a # b # rest \<Rightarrow>
             (case (unhex a, unhex b) of
                (Some h, Some l) \<Rightarrow> map_option (Cons (char_of (16 * h + l))) (PathUnescape rest)
              | _ \<Rightarrow> None)
         | _ \<Rightarrow> None)
      else map_option (Cons c) (PathUnescape cs))"

definition TrimPrefix :: "string \<Rightarrow> string \<Rightarrow> string" where
  "TrimPrefix s p = (if take (length p) s = p then drop (length p) s else s)"

definition CutSuffix :: "string \<Rightarrow> string \<Rightarrow> string \<times> bool" where
  "CutSuffix s p =
     (if length p \<le> length s \<and> drop (length s - length p) s = p then (take (length s - length p) s, True) else (s, False))"

definition packetURL :: "BeaconKey \<Rightarrow> string" where
  "packetURL k = ''/admin/devices/'' @ PathEscape (Slug k) @ ''/packets''"

subsection \<open>The device list\<close>

record deviceRow =
  dr_Kind :: string
  dr_Key :: string
  dr_Name :: string
  dr_LastAPMac :: string
  dr_LastAPName :: string
  dr_LastRSSI :: int
  dr_LastSeen :: gtime
  dr_AgeSeconds :: float64
  dr_SightingCnt :: nat
  dr_Slug :: string
  dr_PacketURL :: string

record devicesPage =
  dp_WindowN :: int
  dp_WindowUnit :: string
  dp_WindowLabel :: string
  dp_RetentionDays :: int
  dp_Tracked :: "deviceRow list"
  dp_Observed :: "deviceRow list"
  dp_Notice :: notice
  dp_Error :: "admin_error option"
  dp_RebuildError :: "admin_error option"
  dp_RetryURL :: string
  dp_OrphansReconciled :: int
  dp_ReconcileError :: string

definition device_row :: "gtime \<Rightarrow> DeviceSummary \<Rightarrow> BeaconKey \<Rightarrow> deviceRow" where
  "device_row now d k =
     \<lparr>dr_Kind = ds_Kind d, dr_Key = ds_Key d, dr_Name = ds_BeaconName d, dr_LastAPMac = ds_LastAPMac d,
      dr_LastAPName = ds_LastAPName d, dr_LastRSSI = ds_LastRSSI d, dr_LastSeen = ds_LastSeen d,
      dr_AgeSeconds = dur_seconds (time_sub now (ds_LastSeen d)), dr_SightingCnt = ds_SightingCnt d,
      dr_Slug = Slug k, dr_PacketURL = packetURL k\<rparr>"

definition add_device :: "gtime \<Rightarrow> DeviceSummary \<Rightarrow> devicesPage \<Rightarrow> devicesPage" where
  "add_device now d page =
     (case ds_Domain d of
        None \<Rightarrow> page
      | Some k \<Rightarrow>
          if ds_Tracked d then page\<lparr>dp_Tracked := dp_Tracked page @ [device_row now d k]\<rparr>
          else page\<lparr>dp_Observed := dp_Observed page @ [device_row now d k]\<rparr>)"

definition device_window :: "SettingsSnapshot option \<Rightarrow> AdminRequest \<Rightarrow> window" where
  "device_window snap r =
     (let win = parseWindow r; retention = retentionDays_of snap; cap = s64 (s64 (retention * 24) * hour) in
      if win_dur win > cap then win\<lparr>win_dur := cap, win_label := show_int retention @ ''d (capped to retention)''\<rparr>
      else win)"

definition renderDevices :: "AdminEnv \<Rightarrow> SettingsSnapshot option \<Rightarrow> AdminRequest \<Rightarrow> notice \<Rightarrow> admin_error option
    \<Rightarrow> admin_error option \<Rightarrow> Database \<Rightarrow> devicesPage" where
  "renderDevices en snap r note0 errMsg rebuildErr db =
     (let win = device_window snap r;
          since = ae_now en + s64 (- win_dur win);
          blank_page = \<lparr>dp_WindowN = win_n win, dp_WindowUnit = win_unit win, dp_WindowLabel = win_label win,
             dp_RetentionDays = retentionDays_of snap, dp_Tracked = [], dp_Observed = [], dp_Notice = note0, dp_Error = errMsg,
             dp_RebuildError = None, dp_RetryURL = [], dp_OrphansReconciled = 0, dp_ReconcileError = []\<rparr>
      in case ListDevicesSince (ae_pageFault en) (ae_obsOrder en) (ae_summaryOrder en) since db of
           Inl e \<Rightarrow> blank_page\<lparr>dp_Error := Some (DbErr e)\<rparr>
         | Inr devs \<Rightarrow>
             (let p1 = (if rebuildErr \<noteq> None
                        then blank_page\<lparr>dp_RebuildError := rebuildErr, dp_RetryURL := ''/admin/devices/refresh-engine''\<rparr>
                        else blank_page);
                  p2 = (if QueryValue r ''refreshed'' = ''1'' then
                          (let n = (case Atoi (QueryValue r ''orphans'') of Some v \<Rightarrow> if v > 0 then v else 0 | None \<Rightarrow> 0)
                           in p1\<lparr>dp_OrphansReconciled := n, dp_ReconcileError := QueryValue r ''reconcile_err''\<rparr>)
                        else p1);
                  p3 = (if QueryValue r ''resynced'' = ''1'' \<and> dp_Notice p2 = NoNotice then p2\<lparr>dp_Notice := Resynced\<rparr> else p2)
              in fold (add_device (ae_now en)) devs p3))"

subsection \<open>The packets of a device\<close>

text \<open>\<open>strconv.FormatFloat(x, 'f', 1, 64)\<close>.\<close>

fun format_f1 :: "float64 \<Rightarrow> string" where
  "format_f1 (Fin x) =
     (let n = nat (round_even (\<bar>x\<bar> * 10)) in
      (if x < 0 then ''-'' else []) @ show_nat (n div 10) @ ''.'' @ show_nat (n mod 10))"
| "format_f1 PInf = ''+Inf''"
| "format_f1 NInf = ''-Inf''"
| "format_f1 NaN = ''NaN''"

record packetRow =
  pk_ID :: int
  pk_ObservedAt :: gtime
  pk_APMac :: string
  pk_APName :: string
  pk_RSSI :: int
  pk_TxPower :: string
  pk_Battery :: string
  pk_Temp :: string
  pk_LocalName :: string
  pk_Identity :: string
  pk_RawHex :: string
  pk_TLV :: "TLVRecord list"
  pk_TLVNotice :: string
  pk_RawPostID :: "int option"

definition celsius_suffix :: string where
  "celsius_suffix = CHR '' '' # char_of (194 :: nat) # char_of (176 :: nat) # ''C''"

definition not_captured :: string where
  "not_captured = ''raw hex not captured (settings.capture_per_event_hex off when recorded)''"

definition packet_row :: "Observation \<Rightarrow> packetRow" where
  "packet_row ob =
     (let bare = \<lparr>pk_ID = ob_ID ob, pk_ObservedAt = ob_ObservedAt ob, pk_APMac = ob_APMac ob, pk_APName = ob_APName ob,
             pk_RSSI = ob_RSSI ob,
             pk_TxPower = (case ob_TxPower ob of None \<Rightarrow> [] | Some n \<Rightarrow> show_int n),
             pk_Battery = (case ob_BatteryMV ob of None \<Rightarrow> [] | Some n \<Rightarrow> show_int n @ '' mV''),
             pk_Temp = (case ob_TemperatureC ob of None \<Rightarrow> [] | Some x \<Rightarrow> format_f1 x @ celsius_suffix),
             pk_LocalName = ob_LocalName ob, pk_Identity = [], pk_RawHex = ob_RawHex ob, pk_TLV = [], pk_TLVNotice = [],
             pk_RawPostID = ob_RawPostID ob\<rparr>
      in if ob_RawHex ob = [] then bare\<lparr>pk_TLVNotice := not_captured\<rparr>
         else
           (let row = (case Parse (ob_RawHex ob) of
                  (adv, None) \<Rightarrow> (case Identify adv of Some k \<Rightarrow> bare\<lparr>pk_Identity := Slug k\<rparr> | None \<Rightarrow> bare)
                | (adv, Some e) \<Rightarrow> bare)
            in case ParseAdvertDebug (ob_RawHex ob) of
                 (w, Some e) \<Rightarrow> row\<lparr>pk_TLVNotice := error_string e\<rparr>
               | (w, None) \<Rightarrow> row\<lparr>pk_TLV := Records w, pk_TLVNotice := Err w\<rparr>))"

record packetsPage =
  pp_Kind :: string
  pp_Key :: string
  pp_BeaconName :: string
  pp_Tracked :: bool
  pp_Observations :: "packetRow list"
  pp_Error :: "admin_error option"

text \<open>The key that a packet path names: \<open>Inl\<close> the status of the error answer.\<close>

definition packet_key :: "AdminRequest \<Rightarrow> nat + BeaconKey" where
  "packet_key r =
     (let rest = TrimPrefix (areq_Path r) ''/admin/devices/'';
          rest1 = fst (CutSuffix rest ''/'');
          (enc, ok) = CutSuffix rest1 ''/packets''
      in if \<not> ok \<or> enc = [] then Inl 404
         else (case PathUnescape enc of
             None \<Rightarrow> Inl 400
           | Some slug \<Rightarrow> (case ParseSlug slug of None \<Rightarrow> Inl 400 | Some k \<Rightarrow> Inr k)))"

definition handleDevicePackets :: "AdminEnv \<Rightarrow> AdminRequest \<Rightarrow> Database \<Rightarrow> nat + packetsPage" where
  "handleDevicePackets en r db =
     (if areq_Method r \<noteq> ''GET'' then Inl 405
      else (case packet_key r of
          Inl status \<Rightarrow> Inl status
        | Inr k \<Rightarrow>
            (let page = \<lparr>pp_Kind = kind k, pp_Key = key k, pp_BeaconName = [], pp_Tracked = False, pp_Observations = [],
                         pp_Error = None\<rparr>
             in case ListObservationsForDevice (ae_pageFault en) (ae_obsOrder en) (kind k) (key k) 200 db of
                  Inl e \<Rightarrow> Inr (page\<lparr>pp_Error := Some (DbErr e)\<rparr>)
                | Inr obs \<Rightarrow>
                    (let p1 = page\<lparr>pp_Tracked := (case obs of [] \<Rightarrow> False | ob # _ \<Rightarrow> ob_Tracked ob)\<rparr>;
                         p2 = (case ListBeacons (ae_beaconsFault en) (ae_beaconOrder en) db of
                            Inl e \<Rightarrow> p1\<lparr>pp_Error := Some (DbErr e)\<rparr>
                          | Inr bs \<Rightarrow>
                              (case List.find (\<lambda>b. b_Key b = k) bs of
                                 None \<Rightarrow> p1
                               | Some b \<Rightarrow> p1\<lparr>pp_BeaconName := b_Name b\<rparr>))
                     in Inr (p2\<lparr>pp_Observations := map packet_row obs\<rparr>)))))"

subsection \<open>A captured post\<close>

datatype decode_notice = NoDecodeNotice | BadGzipHeader | BadGzipBody | PrettyFailed | NotJSON

record rawPostPage =
  rpp_ID :: int
  rpp_ReceivedAt :: gtime
  rpp_Endpoint :: string
  rpp_RemoteAddr :: string
  rpp_Encoding :: string
  rpp_SHA256 :: string
  rpp_PrettyJSON :: string
  rpp_DecodeNotice :: decode_notice
  rpp_SizeBytes :: nat

text \<open>
  \<open>unzip\<close> as in the ingest server; \<open>indent\<close> decodes JSON (\<open>None\<close> if it does not parse) and prints it with indentation.
\<close>

definition handleRawPost :: "(bytes \<Rightarrow> (bytes \<times> bool) option) \<Rightarrow> (bytes \<Rightarrow> string option option) \<Rightarrow> AdminEnv \<Rightarrow> AdminRequest
    \<Rightarrow> Database \<Rightarrow> nat + rawPostPage" where
  "handleRawPost unzip indent en r db =
     (if areq_Method r \<noteq> ''GET'' then Inl 405
      else (case Atoi (fst (CutSuffix (TrimPrefix (areq_Path r) ''/admin/posts/'') ''/'')) of
          None \<Rightarrow> Inl 400
        | Some i \<Rightarrow>
            (case GetRawPost (ae_pageFault en) i db of
               Inl e \<Rightarrow> Inl (if e = ErrNotFound then 404 else 500)
             | Inr p \<Rightarrow>
                 (let page = \<lparr>rpp_ID = rp_ID p, rpp_ReceivedAt = rp_ReceivedAt p, rpp_Endpoint = rp_Endpoint p,
                        rpp_RemoteAddr = rp_RemoteAddr p, rpp_Encoding = rp_ContentEncoding p, rpp_SHA256 = rp_BodySHA256 p,
                        rpp_PrettyJSON = [], rpp_DecodeNotice = NoDecodeNotice, rpp_SizeBytes = length (rp_Body p)\<rparr>;
                      (plain, page1) =
                        (if rp_ContentEncoding p = EncodingGzip then
                           (case unzip (rp_Body p) of
                              None \<Rightarrow> ([], page\<lparr>rpp_DecodeNotice := BadGzipHeader\<rparr>)
                            | Some (dat, ends_well) \<Rightarrow>
                                if ends_well then (dat, page) else ([], page\<lparr>rpp_DecodeNotice := BadGzipBody\<rparr>))
                         else (rp_Body p, page))
                  in Inr (if plain = [] then page1
                          else (case indent plain of
                              None \<Rightarrow> page1\<lparr>rpp_PrettyJSON := string_of_bytes plain, rpp_DecodeNotice := NotJSON\<rparr>
                            | Some None \<Rightarrow> page1\<lparr>rpp_PrettyJSON := string_of_bytes plain, rpp_DecodeNotice := PrettyFailed\<rparr>
                            | Some (Some pretty) \<Rightarrow> page1\<lparr>rpp_PrettyJSON := pretty\<rparr>))))))"

subsection \<open>The zones table (zones.go)\<close>

record zoneRow =
  zw_APMac :: string
  zw_APName :: string
  zw_ZoneLabel :: string
  zw_Known :: bool

record zonesPage =
  zp_Rows :: "zoneRow list"
  zp_Notice :: notice
  zp_Error :: "admin_error option"
  zp_RebuildError :: "admin_error option"
  zp_RetryURL :: string

definition add_known :: "StoreZone \<Rightarrow> (string, zoneRow) gmap \<Rightarrow> (string, zoneRow) gmap" where
  "add_known z byMac =
     mput (mac (z_APMac z))
       \<lparr>zw_APMac = mac (z_APMac z), zw_APName = z_APName z, zw_ZoneLabel = label (z_ZoneLabel z), zw_Known = True\<rparr> byMac"

definition add_seen :: "string \<times> string \<Rightarrow> (string, zoneRow) gmap \<Rightarrow> (string, zoneRow) gmap" where
  "add_seen mn byMac =
     (let (m, nm) = mn in
      case mget byMac m of
        Some row \<Rightarrow> mput m (if zw_APName row = [] then row\<lparr>zw_APName := nm\<rparr> else row) byMac
      | None \<Rightarrow> mput m \<lparr>zw_APMac = m, zw_APName = nm, zw_ZoneLabel = [], zw_Known = False\<rparr> byMac)"

definition zone_row_less :: "zoneRow \<Rightarrow> zoneRow \<Rightarrow> bool" where
  "zone_row_less a b = (if zw_Known a \<noteq> zw_Known b then zw_Known a else str_less (zw_APMac a) (zw_APMac b))"

definition renderZones :: "AdminEnv \<Rightarrow> SettingsSnapshot option \<Rightarrow> notice \<Rightarrow> admin_error option \<Rightarrow> admin_error option \<Rightarrow> Database
    \<Rightarrow> zonesPage" where
  "renderZones en snap note0 errMsg rebuildErr db =
     (let empty_page = \<lparr>zp_Rows = [], zp_Notice = note0, zp_Error = errMsg, zp_RebuildError = None, zp_RetryURL = []\<rparr> in
      case ListZones (ae_zonesFault en) (ae_zoneOrder en) db of
        Inl e \<Rightarrow> empty_page\<lparr>zp_Error := Some (DbErr e)\<rparr>
      | Inr known \<Rightarrow>
          (let since = ae_now en + s64 (s64 (- retentionDays_of snap * 24) * hour);
               (seenAPs, errMsg1) =
                 (case ListAPsSince (ae_pageFault en) (ae_obsOrder en) since db of
                    Inl e \<Rightarrow> ([], if errMsg = None then Some (DbErr e) else errMsg)
                  | Inr m \<Rightarrow> (m, errMsg));
               byMac = fold add_seen seenAPs (fold add_known known []);
               page = empty_page\<lparr>zp_Rows := stable_sort zone_row_less (map snd byMac), zp_Error := errMsg1\<rparr>
           in if rebuildErr \<noteq> None
              then page\<lparr>zp_RebuildError := rebuildErr, zp_RetryURL := ''/admin/zones/refresh-engine''\<rparr> else page))"

subsection \<open>Settings and tunables pages\<close>

record settingsPage =
  stp_Current :: "Settings option"
  stp_Error :: "admin_error option"
  stp_LoadFailed :: bool

text \<open>\<open>stp_Current\<close> is \<open>None\<close> for the explicit zero value shown after a failed load.\<close>

definition renderSettings :: "AdminEnv \<Rightarrow> admin_error option \<Rightarrow> Database \<Rightarrow> settingsPage" where
  "renderSettings en errMsg db =
     (case LoadSettings (ae_loadFault en) db of
        Inl e \<Rightarrow> \<lparr>stp_Current = None, stp_Error = Some (DbErr e), stp_LoadFailed = True\<rparr>
      | Inr cur \<Rightarrow> \<lparr>stp_Current = Some cur, stp_Error = errMsg, stp_LoadFailed = False\<rparr>)"

record tunablesPage =
  tp_Tunables :: Tunables
  tp_BeaconNames :: "string list"
  tp_Errors :: "admin_error list"
  tp_FormReposted :: bool

definition beaconNames :: "Engine \<Rightarrow> string list" where
  "beaconNames e = map sn_Name (sn_Beacons (Snapshot e))"

subsection \<open>Links lead to the device they name\<close>

lemma hex_digit_upper_unhex: "n < 16 \<Longrightarrow> unhex (hex_digit_upper n) = Some n"
  by (auto simp: hex_digit_upper_def unhex_def in_range_def code_char_of)

lemma PathEscape_simps [simp]:
  "PathEscape [] = []"
  "PathEscape (c # cs) = (if path_safe c then [c]
     else [CHR ''%'', hex_digit_upper (code c div 16), hex_digit_upper (code c mod 16)]) @ PathEscape cs"
  by (simp_all add: PathEscape_def)

lemma path_safe_percent [simp]: "\<not> path_safe CHR ''%''"
  by (simp add: path_safe_def in_range_def)

lemma nibble_less [simp]: "code c div 16 < 16" "code c mod 16 < 16"
  using code_less [of c] by presburger simp

lemma PathUnescape_escape: "PathUnescape (PathEscape s) = Some s"
proof (induction s)
  case (Cons c cs)
  have "unhex (hex_digit_upper (code c div 16)) = Some (code c div 16)" "unhex (hex_digit_upper (code c mod 16)) = Some (code c mod 16)"
    by (simp_all add: hex_digit_upper_unhex)
  moreover have "char_of (16 * (code c div 16) + code c mod 16) = c" by simp
  ultimately show ?case using Cons path_safe_percent by (auto simp del: path_safe_percent)
qed simp

lemma PathEscape_no_slash: "CHR ''/'' \<notin> set (PathEscape s)"
proof -
  have "hex_digit_upper n \<noteq> CHR ''/''" if "n < 16" for n
    using hex_digit_upper_unhex [OF that] by (auto simp: unhex_def in_range_def)
  then have "CHR ''/'' \<notin> {hex_digit_upper (code c div 16), hex_digit_upper (code c mod 16)}" for c
    by (metis empty_iff insert_iff nibble_less)
  moreover have "\<not> path_safe CHR ''/''" by (simp add: path_safe_def in_range_def)
  ultimately show ?thesis by (induction s) auto
qed

end
