(* ===== verification/Admin.thy ===== *)
theory Admin
  imports Admin_Pages Store_Guarantees Presence_Guarantees
begin

section \<open>The admin server: operations (internal/admin)\<close>

text \<open>
  \<open>server.go\<close>, \<open>tunables.go\<close>, \<open>zones.go\<close>, \<open>settings.go\<close> and the handlers of \<open>devices.go\<close> that change something. A handler is a
  function from the request and the state of the bridge to the answer and the new state: the tables, the
  engine, the publisher, the live settings and the current tunables, as \<open>main.go\<close> wires them. The operations are
  modelled as they run one after another; what may happen between the reading and the application of a topology
  is the subject of the last section.
\<close>

subsection \<open>State and answers (server.go)\<close>

record AdminOptions =
  adm_User :: string
  adm_Pass :: string
  adm_hasEngine :: bool
  adm_hasStore :: bool
  adm_Current :: "Tunables option"
  adm_hasLogger :: bool
  adm_hasDevices :: bool
  adm_hasZones :: bool
  adm_hasRawPosts :: bool
  adm_hasSettings :: bool
  adm_hasRemove :: bool
  adm_hasReconcile :: bool
  adm_hasResync :: bool

record AdminWorld =
  aw_db :: Database
  aw_engine :: Engine
  aw_pub :: Publisher
  aw_snap :: "SettingsSnapshot option"
  aw_current :: Tunables

datatype admin_new_error = CredentialsMissing | EngineMissing | StoreMissing | TunablesMissing | AdmLoggerMissing

definition adm_New :: "AdminOptions \<Rightarrow> admin_new_error + Tunables" where
  "adm_New opts =
     (if adm_User opts = [] \<or> adm_Pass opts = [] then Inl CredentialsMissing
      else if \<not> adm_hasEngine opts then Inl EngineMissing
      else if \<not> adm_hasStore opts then Inl StoreMissing
      else (case adm_Current opts of
          None \<Rightarrow> Inl TunablesMissing
        | Some t \<Rightarrow> if \<not> adm_hasLogger opts then Inl AdmLoggerMissing else Inr t))"

datatype query_value = QText string | QNum nat | QError admin_error

datatype response =
    Redirect string "(string \<times> query_value) list"
  | HttpStatus nat
  | StatusResp statusPage
  | TunablesResp tunablesPage
  | DevicesResp devicesPage
  | PacketsResp packetsPage
  | RawPostResp rawPostPage
  | ZonesResp zonesPage
  | SettingsResp settingsPage
  | StaticFile string

type_synonym admin_handler = "AdminRequest \<Rightarrow> AdminWorld \<Rightarrow> response \<times> AdminWorld"

definition adm_requireAuth :: "AdminOptions \<Rightarrow> admin_handler \<Rightarrow> admin_handler" where
  "adm_requireAuth opts h r w =
     (case areq_Auth r of
        None \<Rightarrow> (HttpStatus 401, w)
      | Some (u, p) \<Rightarrow> if u \<noteq> adm_User opts \<or> p \<noteq> adm_Pass opts then (HttpStatus 401, w) else h r w)"

subsection \<open>From the tables to the engine\<close>

fun tracked_of :: "Beacon list \<Rightarrow> TrackedBeacon list \<Rightarrow> config_error + TrackedBeacon list" where
  "tracked_of [] out = Inr out"
| "tracked_of (b # bs) out =
     (case NewTrackedBeacon (b_Key b) (b_Name b) of Inl e \<Rightarrow> Inl e | Inr tb \<Rightarrow> tracked_of bs (out @ [tb]))"

definition zone_map :: "StoreZone list \<Rightarrow> (string, string) gmap" where
  "zone_map zs = fold (\<lambda>z m. mput (mac (z_APMac z)) (label (z_ZoneLabel z)) m) zs []"

definition read_topology :: "AdminEnv \<Rightarrow> Database \<Rightarrow> admin_error + Topology" where
  "read_topology en db =
     (case ListBeacons (ae_beaconsFault en) (ae_beaconOrder en) db of
        Inl e \<Rightarrow> Inl (DbErr e)
      | Inr bs \<Rightarrow>
          (case ListZones (ae_zonesFault en) (ae_zoneOrder en) db of
             Inl e \<Rightarrow> Inl (DbErr e)
           | Inr zs \<Rightarrow>
               (case tracked_of bs [] of
                  Inl e \<Rightarrow> Inl (ConfigErr e)
                | Inr tracked \<Rightarrow>
                    (case NewTopology (zone_map zs) tracked of Inl e \<Rightarrow> Inl (ConfigErr e) | Inr tp \<Rightarrow> Inr tp))))"

definition rebuildEngineTopology :: "AdminOptions \<Rightarrow> AdminEnv \<Rightarrow> AdminWorld \<Rightarrow> admin_error option \<times> AdminWorld" where
  "rebuildEngineTopology opts en w =
     (if \<not> adm_hasDevices opts \<or> \<not> adm_hasZones opts then (Some NotWired, w)
      else (case read_topology en (aw_db w) of
          Inl e \<Rightarrow> (Some e, w)
        | Inr tp \<Rightarrow> (None, w\<lparr>aw_engine := ApplyTopology (Some tp) (aw_engine w)\<rparr>)))"

subsection \<open>Zones (zones.go)\<close>

definition zones_page :: "AdminEnv \<Rightarrow> notice \<Rightarrow> admin_error option \<Rightarrow> admin_error option \<Rightarrow> AdminWorld \<Rightarrow> response" where
  "zones_page en nt err rebuildErr w = ZonesResp (renderZones en (aw_snap w) nt err rebuildErr (aw_db w))"

definition handleZonesPost :: "AdminOptions \<Rightarrow> AdminEnv \<Rightarrow> admin_handler" where
  "handleZonesPost opts en r w =
     (if \<not> areq_FormOK r then (HttpStatus 400, w)
      else
        (let apName = TrimSpace (FormValue r ''ap_name'');
             finish = (\<lambda>w1. case rebuildEngineTopology opts en w1 of
                (Some e, w2) \<Rightarrow> (zones_page en Saved_but_stale None (Some e) w2, w2)
              | (None, w2) \<Rightarrow> (Redirect ''/admin/zones'' [(''saved'', QText ''1'')], w2))
         in case NewAPMAC (FormValue r ''ap_mac'') of
              Inl e \<Rightarrow> (zones_page en NoNotice (Some (IdErr e)) None w, w)
            | Inr apMac \<Rightarrow>
                if FormValue r ''action'' = ''delete'' then
                  (case DeleteZone (ae_writeFault en) apMac (aw_db w) of
                     (Some e, db1) \<Rightarrow> (zones_page en NoNotice (Some (DbErr e)) None (w\<lparr>aw_db := db1\<rparr>), w\<lparr>aw_db := db1\<rparr>)
                   | (None, db1) \<Rightarrow> finish (w\<lparr>aw_db := db1\<rparr>))
                else
                  (case NewZoneLabel (TrimSpace (FormValue r ''zone_label'')) of
                     Inl e \<Rightarrow> (zones_page en NoNotice (Some (IdErr e)) None w, w)
                   | Inr lbl \<Rightarrow>
                       (case UpsertZone (ae_writeFault en) (NewZone apMac lbl apName) (aw_db w) of
                          (Some e, db1) \<Rightarrow> (zones_page en NoNotice (Some (DbErr e)) None (w\<lparr>aw_db := db1\<rparr>), w\<lparr>aw_db := db1\<rparr>)
                        | (None, db1) \<Rightarrow> finish (w\<lparr>aw_db := db1\<rparr>)))))"

definition handleZones :: "AdminOptions \<Rightarrow> AdminEnv \<Rightarrow> admin_handler" where
  "handleZones opts en r w =
     (if areq_Method r = ''GET'' then (zones_page en NoNotice None None w, w)
      else if areq_Method r = ''POST'' then handleZonesPost opts en r w
      else (HttpStatus 405, w))"

subsection \<open>Orphans and resync (devices.go)\<close>

definition reconcileOrphans :: "AdminOptions \<Rightarrow> AdminEnv \<Rightarrow> AdminWorld \<Rightarrow> (nat \<times> admin_error option) \<times> AdminWorld" where
  "reconcileOrphans opts en w =
     (if \<not> adm_hasReconcile opts \<or> \<not> adm_hasDevices opts then ((0, None), w)
      else (case ListBeacons (ae_beaconsFault en) (ae_beaconOrder en) (aw_db w) of
          Inl e \<Rightarrow> ((0, Some (DbErr e)), w)
        | Inr bs \<Rightarrow>
            (case RepublishOrphans (ae_ctxDone en) (ae_envs en) (map b_Key bs) (aw_pub w) of
               (p1, n, err) \<Rightarrow> ((n, map_option MqttErr err), w\<lparr>aw_pub := p1\<rparr>))))"

definition handleZonesRefreshEngine :: "AdminOptions \<Rightarrow> AdminEnv \<Rightarrow> admin_handler" where
  "handleZonesRefreshEngine opts en r w =
     (if areq_Method r \<noteq> ''POST'' then (HttpStatus 405, w)
      else (case rebuildEngineTopology opts en w of
          (Some e, w1) \<Rightarrow> (zones_page en NoNotice None (Some e) w1, w1)
        | (None, w1) \<Rightarrow>
            (case reconcileOrphans opts en w1 of
               ((n, Some e), w2) \<Rightarrow> (Redirect ''/admin/zones'' [(''refreshed'', QText ''1''), (''reconcile_err'', QError e)], w2)
             | ((n, None), w2) \<Rightarrow> (Redirect ''/admin/zones'' [(''refreshed'', QText ''1'')], w2))))"

definition devices_page :: "AdminEnv \<Rightarrow> AdminRequest \<Rightarrow> notice \<Rightarrow> admin_error option \<Rightarrow> admin_error option \<Rightarrow> AdminWorld
    \<Rightarrow> response" where
  "devices_page en r nt err rebuildErr w = DevicesResp (renderDevices en (aw_snap w) r nt err rebuildErr (aw_db w))"

definition handleDevices :: "AdminEnv \<Rightarrow> admin_handler" where
  "handleDevices en r w =
     (if areq_Method r = ''GET'' then (devices_page en r NoNotice None None w, w) else (HttpStatus 405, w))"

definition handleDevicesRefreshEngine :: "AdminOptions \<Rightarrow> AdminEnv \<Rightarrow> admin_handler" where
  "handleDevicesRefreshEngine opts en r w =
     (if areq_Method r \<noteq> ''POST'' then (HttpStatus 405, w)
      else (case rebuildEngineTopology opts en w of
          (Some e, w1) \<Rightarrow> (devices_page en r NoNotice None (Some e) w1, w1)
        | (None, w1) \<Rightarrow>
            (case reconcileOrphans opts en w1 of
               ((n, Some e), w2) \<Rightarrow> (Redirect ''/admin/devices'' [(''refreshed'', QText ''1''), (''reconcile_err'', QError e)], w2)
             | ((n, None), w2) \<Rightarrow>
                 (Redirect ''/admin/devices'' ((''refreshed'', QText ''1'') # (if n > 0 then [(''orphans'', QNum n)] else [])), w2))))"

text \<open>The resync as \<open>main.go\<close> wires it: the publisher forgets what it announced and its hook republishes every beacon.\<close>

definition handleDevicesResyncHA :: "AdminOptions \<Rightarrow> AdminEnv \<Rightarrow> admin_handler" where
  "handleDevicesResyncHA opts en r w =
     (if areq_Method r \<noteq> ''POST'' then (HttpStatus 405, w)
      else if \<not> adm_hasResync opts then (devices_page en r NoNotice (Some NotWired) None w, w)
      else (Redirect ''/admin/devices'' [(''resynced'', QText ''1'')],
            w\<lparr>aw_pub := ResyncDiscovery (aw_pub w), aw_engine := RepublishAll (aw_engine w)\<rparr>))"

subsection \<open>Promotion and demotion (devices.go)\<close>

definition handleDevicePromote :: "AdminOptions \<Rightarrow> AdminEnv \<Rightarrow> admin_handler" where
  "handleDevicePromote opts en r w =
     (if areq_Method r \<noteq> ''POST'' then (HttpStatus 405, w)
      else if \<not> areq_FormOK r then (HttpStatus 400, w)
      else
        (let slug = TrimSpace (FormValue r ''slug''); nm = TrimSpace (FormValue r ''name''); notes = TrimSpace (FormValue r ''notes'')
         in if slug = [] \<or> nm = [] then (devices_page en r NoNotice (Some MissingFields) None w, w)
            else (case ParseSlug slug of
                None \<Rightarrow> (devices_page en r NoNotice (Some (UnknownDevice slug)) None w, w)
              | Some k \<Rightarrow>
                  (case NewBeacon k nm notes of
                     Inl e \<Rightarrow> (devices_page en r NoNotice (Some (DbErr e)) None w, w)
                   | Inr b \<Rightarrow>
                       (case PromoteBeacon (ae_pgError en) b (aw_db w) of
                          (Some e, db1) \<Rightarrow>
                            (devices_page en r NoNotice (Some (DbErr e)) None (w\<lparr>aw_db := db1\<rparr>), w\<lparr>aw_db := db1\<rparr>)
                        | (None, db1) \<Rightarrow>
                            (case rebuildEngineTopology opts en (w\<lparr>aw_db := db1\<rparr>) of
                               (Some e, w1) \<Rightarrow> (devices_page en r (Promoted_but_stale nm) None (Some e) w1, w1)
                             | (None, w1) \<Rightarrow> (Redirect ''/admin/devices'' [(''promoted'', QText nm)], w1)))))))"

definition handleDeviceDemote :: "AdminOptions \<Rightarrow> AdminEnv \<Rightarrow> admin_handler" where
  "handleDeviceDemote opts en r w =
     (if areq_Method r \<noteq> ''POST'' then (HttpStatus 405, w)
      else if \<not> areq_FormOK r then (HttpStatus 400, w)
      else
        (let slug = TrimSpace (FormValue r ''slug'') in
         if slug = [] then (devices_page en r NoNotice (Some MissingFields) None w, w)
         else (case ParseSlug slug of
             None \<Rightarrow> (devices_page en r NoNotice (Some (UnknownDevice slug)) None w, w)
           | Some k \<Rightarrow>
               (case DemoteBeacon (ae_writeFault en) k (aw_db w) of
                  (Some e, db1) \<Rightarrow>
                            (devices_page en r NoNotice (Some (DbErr e)) None (w\<lparr>aw_db := db1\<rparr>), w\<lparr>aw_db := db1\<rparr>)
                | (None, db1) \<Rightarrow>
                    (case rebuildEngineTopology opts en (w\<lparr>aw_db := db1\<rparr>) of
                       (Some e, w1) \<Rightarrow> (devices_page en r Demoted_but_stale None (Some e) w1, w1)
                     | (None, w1) \<Rightarrow>
                         if adm_hasRemove opts then
                           (case RemoveEntity (ae_ctxDone en) (fst (ae_envs en k)) (snd (ae_envs en k)) k (aw_pub w1) of
                              (p1, Some e) \<Rightarrow>
                                (let w2 = w1\<lparr>aw_pub := p1\<rparr> in
                                 (devices_page en r Demoted_but_lingers None (Some (MqttErr e)) w2, w2))
                            | (p1, None) \<Rightarrow>
                                (Redirect ''/admin/devices'' [(''demoted'', QText ''demoted'')], w1\<lparr>aw_pub := p1\<rparr>))
                         else (Redirect ''/admin/devices'' [(''demoted'', QText ''demoted (no MQTT remover wired)'')], w1))))))"

subsection \<open>Settings (settings.go)\<close>

definition handleSettingsPost :: "AdminEnv \<Rightarrow> admin_handler" where
  "handleSettingsPost en r w =
     (case LoadSettings (ae_loadFault en) (aw_db w) of
        Inl e \<Rightarrow> (SettingsResp (renderSettings en (Some LoadFailing) (aw_db w)), w)
      | Inr cur \<Rightarrow>
          if \<not> areq_FormOK r then (HttpStatus 400, w)
          else (case Atoi (FormValue r ''retention_days'') of
              None \<Rightarrow> (SettingsResp (renderSettings en (Some (FieldErr ''retention_days'')) (aw_db w)), w)
            | Some days \<Rightarrow>
                (case NewSettings days (FormValue r ''capture_per_event_hex'' = ''on'') (FormValue r ''capture_full_posts'' = ''on'') of
                   Inl e \<Rightarrow> (SettingsResp (renderSettings en (Some (DbErr e)) (aw_db w)), w)
                 | Inr st \<Rightarrow>
                     (case SaveSettings (ae_writeFault en) st (aw_db w) of
                        (Some e, db1) \<Rightarrow>
                          (SettingsResp (renderSettings en (Some (DbErr e)) db1), w\<lparr>aw_db := db1\<rparr>)
                      | (None, db1) \<Rightarrow>
                          (let w1 = w\<lparr>aw_db := db1\<rparr> in
                           case aw_snap w of
                             None \<Rightarrow> (Redirect ''/admin/settings'' [(''saved'', QText ''1'')], w1)
                           | Some snap \<Rightarrow>
                               (case snap_Replace st snap of
                                  (Some e, snap1) \<Rightarrow>
                                    (SettingsResp (renderSettings en (Some (DbErr e)) db1), w1\<lparr>aw_snap := Some snap1\<rparr>)
                                | (None, snap1) \<Rightarrow>
                                    (Redirect ''/admin/settings'' [(''saved'', QText ''1'')], w1\<lparr>aw_snap := Some snap1\<rparr>)))))))"

definition handleSettings :: "AdminEnv \<Rightarrow> admin_handler" where
  "handleSettings en r w =
     (if areq_Method r = ''GET'' then (SettingsResp (renderSettings en None (aw_db w)), w)
      else if areq_Method r = ''POST'' then handleSettingsPost en r w
      else (HttpStatus 405, w))"

subsection \<open>Tunables (tunables.go)\<close>

text \<open>
  A field of the form: empty means the fallback, text that does not parse is an error and leaves the fallback. The four functions
  of the source are the two below at the two number types: \<open>parseFloatField\<close> and \<open>parseIntField\<close>, \<open>optFloat\<close> and \<open>optInt\<close>.
\<close>

definition parse_field :: "(string \<Rightarrow> 'a option) \<Rightarrow> AdminRequest \<Rightarrow> string \<Rightarrow> 'a \<Rightarrow> admin_error list \<Rightarrow> 'a \<times> admin_error list" where
  "parse_field parse r nm fallback errs =
     (let raw = FormValue r nm in
      if raw = [] then (fallback, errs)
      else (case parse raw of None \<Rightarrow> (fallback, errs @ [FieldErr nm]) | Some v \<Rightarrow> (v, errs)))"

definition opt_field :: "(string \<Rightarrow> 'a option) \<Rightarrow> AdminRequest \<Rightarrow> string \<Rightarrow> admin_error list \<Rightarrow> 'a option \<times> admin_error list" where
  "opt_field parse r nm errs =
     (let raw = FormValue r nm in
      if raw = [] then (None, errs)
      else (case parse raw of None \<Rightarrow> (None, errs @ [FieldErr nm]) | Some v \<Rightarrow> (Some v, errs)))"

definition parseFloatField :: "AdminRequest \<Rightarrow> string \<Rightarrow> float64 \<Rightarrow> admin_error list \<Rightarrow> float64 \<times> admin_error list" where
  "parseFloatField = parse_field ParseFloat"

definition parseIntField :: "AdminRequest \<Rightarrow> string \<Rightarrow> int \<Rightarrow> admin_error list \<Rightarrow> int \<times> admin_error list" where
  "parseIntField = parse_field Atoi"

definition optFloat :: "AdminRequest \<Rightarrow> string \<Rightarrow> admin_error list \<Rightarrow> float64 option \<times> admin_error list" where
  "optFloat = opt_field ParseFloat"

definition optInt :: "AdminRequest \<Rightarrow> string \<Rightarrow> admin_error list \<Rightarrow> int option \<times> admin_error list" where
  "optInt = opt_field Atoi"

definition parse_defaults :: "AdminRequest \<Rightarrow> DefaultsBlock \<Rightarrow> DefaultsBlock \<times> admin_error list" where
  "parse_defaults r cur =
     (let (a, e1) = parseFloatField r ''default_alpha'' (Alpha cur) [];
          (g, e2) = parseIntField r ''default_grace_period_s'' (GracePeriodS cur) e1;
          (d, e3) = parseFloatField r ''default_decay_rate_db_per_s'' (DecayRateDbPerS cur) e2;
          (f, e4) = parseIntField r ''default_presence_floor_dbm'' (PresenceFloorDbm cur) e3;
          (t, e5) = parseIntField r ''default_t_away_max_s'' (TAwayMaxS cur) e4;
          (s, e6) = parseIntField r ''default_sticky_after_arrival_s'' (StickyAfterArrivalS cur) e5;
          (h, e7) = parseFloatField r ''default_hysteresis_db'' (HysteresisDb cur) e6;
          (c, e8) = parseIntField r ''default_confirm_count'' (ConfirmCount cur) e7
      in (\<lparr>Alpha = a, GracePeriodS = g, DecayRateDbPerS = d, PresenceFloorDbm = f, TAwayMaxS = t,
           StickyAfterArrivalS = s, HysteresisDb = h, ConfirmCount = c\<rparr>, e8))"

definition parse_overrides :: "AdminRequest \<Rightarrow> string \<Rightarrow> admin_error list \<Rightarrow> Overrides \<times> admin_error list" where
  "parse_overrides r nm errs =
     (let pre = ''beacon_'' @ nm;
          (a, e1) = optFloat r (pre @ ''_alpha'') errs;
          (g, e2) = optInt r (pre @ ''_grace_period_s'') e1;
          (d, e3) = optFloat r (pre @ ''_decay_rate_db_per_s'') e2;
          (f, e4) = optInt r (pre @ ''_presence_floor_dbm'') e3;
          (t, e5) = optInt r (pre @ ''_t_away_max_s'') e4;
          (s, e6) = optInt r (pre @ ''_sticky_after_arrival_s'') e5;
          (h, e7) = optFloat r (pre @ ''_hysteresis_db'') e6;
          (c, e8) = optInt r (pre @ ''_confirm_count'') e7
      in (\<lparr>o_Alpha = a, o_GracePeriodS = g, o_DecayRateDbPerS = d, o_PresenceFloorDbm = f, o_TAwayMaxS = t,
           o_StickyAfterArrivalS = s, o_HysteresisDb = h, o_ConfirmCount = c\<rparr>, e8))"

text \<open>An override is kept if any of its fields was given.\<close>

definition add_override :: "AdminRequest \<Rightarrow> string \<Rightarrow> Tunables \<times> admin_error list \<Rightarrow> Tunables \<times> admin_error list" where
  "add_override r nm acc =
     (let (t, errs) = acc; (ov, errs1) = parse_overrides r nm errs in
      (if ov \<noteq> no_overrides then t\<lparr>Tun_Beacons := mput nm ov (Tun_Beacons t)\<rparr> else t, errs1))"

definition parseTunablesForm :: "AdminRequest \<Rightarrow> Tunables \<Rightarrow> string list \<Rightarrow> Tunables \<times> admin_error list" where
  "parseTunablesForm r cur names =
     (let (d, errs) = parse_defaults r (Defaults cur) in
      fold (add_override r) names (\<lparr>Defaults = d, Tun_Beacons = []\<rparr>, errs))"

definition handleTunablesPost :: "AdminEnv \<Rightarrow> admin_handler" where
  "handleTunablesPost en r w =
     (if \<not> areq_FormOK r then (HttpStatus 400, w)
      else
        (let names = beaconNames (aw_engine w);
             (candidate, errs0) = parseTunablesForm r (aw_current w) names;
             errs = (if errs0 = [] then (case Validate (Some candidate) of None \<Rightarrow> [] | Some e \<Rightarrow> [ConfigErr e]) else errs0);
             page = (\<lambda>es. TunablesResp \<lparr>tp_Tunables = candidate, tp_BeaconNames = names, tp_Errors = es, tp_FormReposted = True\<rparr>)
         in if errs \<noteq> [] then (page errs, w)
            else (case SaveAll (ae_txFault en) (Some candidate) (aw_db w) of
                (Some e, db1) \<Rightarrow> (page [DbErr e], w\<lparr>aw_db := db1\<rparr>)
              | (None, db1) \<Rightarrow>
                  (Redirect ''/admin/tunables'' [(''saved'', QText ''1'')],
                   w\<lparr>aw_db := db1, aw_engine := ApplyTunables (Some candidate) (aw_engine w), aw_current := candidate\<rparr>))))"

definition handleTunables :: "AdminEnv \<Rightarrow> admin_handler" where
  "handleTunables en r w =
     (if areq_Method r = ''GET'' then
        (TunablesResp \<lparr>tp_Tunables = aw_current w, tp_BeaconNames = beaconNames (aw_engine w), tp_Errors = [],
                       tp_FormReposted = False\<rparr>, w)
      else if areq_Method r = ''POST'' then handleTunablesPost en r w
      else (HttpStatus 405, w))"

subsection \<open>Routes (server.go)\<close>

text \<open>The parts of the environment that only pages need: heartbeat, publisher status, gzip and JSON.\<close>

record PageSources =
  src_heartbeat :: "(string list \<times> string list) option"
  src_mqtt :: "Stats option"
  src_gunzip :: "bytes \<Rightarrow> (bytes \<times> bool) option"
  src_indent :: "bytes \<Rightarrow> string option option"

definition has_prefix :: "string \<Rightarrow> string \<Rightarrow> bool" where
  "has_prefix p s \<longleftrightarrow> take (length p) s = p"

definition of_page :: "('a \<Rightarrow> response) \<Rightarrow> nat + 'a \<Rightarrow> response" where
  "of_page f x = (case x of Inl status \<Rightarrow> HttpStatus status | Inr page \<Rightarrow> f page)"

definition adm_Routes :: "AdminOptions \<Rightarrow> PageSources \<Rightarrow> AdminEnv \<Rightarrow> admin_handler" where
  "adm_Routes opts src en r w =
     (let path = areq_Path r; auth = (\<lambda>h. adm_requireAuth opts h r w) in
      if path = ''/admin'' then auth (\<lambda>r w. (Redirect ''/admin/status'' [], w))
      else if path = ''/admin/status'' then auth (\<lambda>r w. (StatusResp (handleStatus (src_heartbeat src) (src_mqtt src) (aw_engine w)), w))
      else if path = ''/admin/tunables'' then auth (handleTunables en)
      else if adm_hasDevices opts \<and> path = ''/admin/devices'' then auth (handleDevices en)
      else if adm_hasDevices opts \<and> path = ''/admin/devices/promote'' then auth (handleDevicePromote opts en)
      else if adm_hasDevices opts \<and> path = ''/admin/devices/demote'' then auth (handleDeviceDemote opts en)
      else if adm_hasDevices opts \<and> path = ''/admin/devices/refresh-engine'' then auth (handleDevicesRefreshEngine opts en)
      else if adm_hasDevices opts \<and> path = ''/admin/devices/resync-ha'' then auth (handleDevicesResyncHA opts en)
      else if adm_hasDevices opts \<and> has_prefix ''/admin/devices/'' path then
        auth (\<lambda>r w. (of_page PacketsResp (handleDevicePackets en r (aw_db w)), w))
      else if adm_hasZones opts \<and> path = ''/admin/zones'' then auth (handleZones opts en)
      else if adm_hasZones opts \<and> path = ''/admin/zones/refresh-engine'' then auth (handleZonesRefreshEngine opts en)
      else if adm_hasSettings opts \<and> path = ''/admin/settings'' then auth (handleSettings en)
      else if adm_hasRawPosts opts \<and> has_prefix ''/admin/posts/'' path then
        auth (\<lambda>r w. (of_page RawPostResp (handleRawPost (src_gunzip src) (src_indent src) en r (aw_db w)), w))
      else if has_prefix ''/admin-static/'' path then (StaticFile (drop 14 path), w)
      else (HttpStatus 404, w))"

end
