(* ===== verification/Admin_Limits.thy ===== *)
theory Admin_Limits
  imports Admin_Guarantees
begin

section \<open>Access, links and two shortcomings of the admin server\<close>

text \<open>
  Nothing changes without the credentials; the link of a device leads to its own page. The two theorems at the end
  are findings: a window of more days than a 64-bit duration holds turns negative and hides every device, and a promotion can be lost
  to the engine when another request applies a topology that it had read earlier.
\<close>

subsection \<open>Access\<close>

text \<open>
  C37: the admin server changes nothing for a request without the right credentials: the tables, the engine, the
  publisher, the settings and the tunables stay as they are, and on every path of the interface the answer is 401.
\<close>

theorem admin_gate:
  assumes "areq_Auth r \<noteq> Some (adm_User opts, adm_Pass opts)"
  shows "snd (adm_Routes opts src en r w) = w
    \<and> fst (adm_Routes opts src en r w) \<in> {HttpStatus 401, HttpStatus 404, StaticFile (drop 14 (areq_Path r))}"
proof -
  define refused where "refused = (\<lambda>x :: response \<times> AdminWorld. snd x = w
    \<and> fst x \<in> {HttpStatus 401, HttpStatus 404, StaticFile (drop 14 (areq_Path r))})"
  have gate: "refused (adm_requireAuth opts h r w)" for h
    using assms by (auto simp: refused_def adm_requireAuth_def split: option.split)
  have pages: "refused (StaticFile (drop 14 (areq_Path r)), w)" "refused (HttpStatus 404, w)" by (simp_all add: refused_def)
  have branch: "refused x \<Longrightarrow> refused y \<Longrightarrow> refused (if c then x else y)" for c x y by simp
  have "refused (adm_Routes opts src en r w)" unfolding adm_Routes_def Let_def by (intro gate pages branch)
  then show ?thesis by (simp add: refused_def)
qed

theorem admin_gate_witness:
  "\<forall>src. let r = (sample_post ''/admin/devices/demote'' [(''slug'', ''name.t'')])\<lparr>areq_Auth := Some (''ops'', ''guess'')\<rparr> in
   snd (adm_Routes sample_admin src sample_env r (sample_world [tag_row])) = sample_world [tag_row]"
  unfolding Let_def by (rule allI, rule admin_gate [THEN conjunct1]) (simp add: sample_admin_def)

subsection \<open>Links\<close>

lemma CutSuffix_append: "CutSuffix (s @ p) p = (s, True)"
  by (simp add: CutSuffix_def)

text \<open>
  The packet link of a device leads to the page of that device: escaping the slug in the link, and cutting, unescaping and
  parsing the path of the request, are inverse for every key with a known kind, whatever bytes (spaces, slashes, percent
  signs, dots) the key holds.
\<close>

theorem packet_link_roundtrip:
  assumes "kind k \<in> set knownKinds" "key k \<noteq> []" "areq_Path r = packetURL k"
  shows "packet_key r = Inr k"
proof -
  let ?enc = "PathEscape (Slug k)"
  have 1: "TrimPrefix (areq_Path r) ''/admin/devices/'' = ?enc @ ''/packets''"
    unfolding assms(3) packetURL_def by (simp add: TrimPrefix_def)
  have 2: "fst (CutSuffix (?enc @ ''/packets'') ''/'') = ?enc @ ''/packets''"
    by (simp add: CutSuffix_def)
  have "Slug k \<noteq> []" by (simp add: Slug_def)
  then have 3: "?enc \<noteq> []" using PathUnescape_escape [of "Slug k"] by force
  have "ParseSlug (Slug k) = Some k" using assms(1,2) by (simp add: ParseSlug_iff)
  with 3 show ?thesis
    unfolding packet_key_def 1 2 Let_def CutSuffix_append by (simp add: PathUnescape_escape)
qed

theorem packet_link_roundtrip_witness:
  "packet_key ((sample_post (packetURL (mk_key KindName ''a/b %'')) [])\<lparr>areq_Method := ''GET''\<rparr>) = Inr (mk_key KindName ''a/b %'')"
  by (rule packet_link_roundtrip) (simp_all add: mk_key_def knownKinds_def sample_post_def)

subsection \<open>A window that wraps\<close>

definition long_window :: AdminRequest where
  "long_window =
     (sample_post ''/admin/devices'' [])\<lparr>areq_Method := ''GET'', areq_Query := [(''window_n'', ''106752''), (''window_unit'', ''d'')]\<rparr>"

lemma long_window_dur: "win_dur (parseWindow long_window) = - 9223371273709551616"
proof -
  have n: "Atoi_value ''106752'' = 106752"
    by (simp add: Atoi_value_def Atoi_def is_digit_def in_range_def read_nat_def in_s64_def)
  have u: "ToLower (TrimSpace ''d'') = ''d''"
    using TrimSpace_plain [of "''d''"] ToLower_plain [of "''d''"] by (simp add: plain_eval)
  show ?thesis
    by (simp add: parseWindow_def long_window_def QueryValue_def mget_zero_def n u Let_def s64_def hour_def minute_def second_def)
qed

text \<open>
  A window of 106752 days does not fit in a duration; it wraps to a negative one, passes the cap to the
  retention, and moves the start of the listing 292 years into the future: the page shows no device at all, however many
  were seen, instead of everything within the retention.
\<close>

theorem long_window_hides_devices:
  assumes "\<forall>(i, row) \<in> set (db_observations db). row_observed_at row \<le> ae_now en" "ae_obsOrder en [] = []" "ae_summaryOrder en [] = []"
    "\<not> ae_pageFault en" "1 \<le> retentionDays_of snap" "retentionDays_of snap \<le> 30"
  shows "dp_Tracked (renderDevices en snap long_window nt err rb db) = [] \<and> dp_Observed (renderDevices en snap long_window nt err rb db) = []"
proof -
  have "s64 (s64 (retentionDays_of snap * 24) * hour) = retentionDays_of snap * 24 * hour"
    using assms(5,6) by (simp add: s64_id in_s64_def hour_def minute_def second_def)
  moreover have "0 < retentionDays_of snap * 24 * hour" using assms(5) by (simp add: hour_def minute_def second_def)
  ultimately have "win_dur (device_window snap long_window) = - 9223371273709551616"
    by (simp add: device_window_def Let_def long_window_dur)
  then have "s64 (- win_dur (device_window snap long_window)) = 9223371273709551616" by (simp add: s64_id in_s64_def)
  moreover have "filter (\<lambda>(i, row). ae_now en + 9223371273709551616 \<le> row_observed_at row) (db_observations db) = []"
    using assms(1) by (force simp: filter_empty_conv)
  ultimately have "ListDevicesSince (ae_pageFault en) (ae_obsOrder en) (ae_summaryOrder en)
      (ae_now en + s64 (- win_dur (device_window snap long_window))) db = Inr []"
    using assms(2-4) by (simp add: ListDevicesSince_def)
  then show ?thesis by (simp add: renderDevices_def Let_def)
qed

theorem long_window_hides_devices_witness:
  "let ob = obs_row_of ((sample_obs ''aa:bb'')\<lparr>ob_ObservedAt := 5\<rparr>);
       db = empty_db\<lparr>db_observations := [(1, ob)]\<rparr>; en = sample_env\<lparr>ae_now := 10\<rparr>;
       page = renderDevices en None long_window NoNotice None None db
   in db_observations db \<noteq> [] \<and> dp_Tracked page = [] \<and> dp_Observed page = []"
  unfolding Let_def
  by (intro conjI long_window_hides_devices [THEN conjunct1] long_window_hides_devices [THEN conjunct2])
    (simp_all add: sample_env_def retentionDays_of_def obs_row_of_def)

subsection \<open>Overlapping rebuilds\<close>

text \<open>The two halves of a rebuild, which other requests can come between.\<close>

lemma rebuild_halves:
  assumes "adm_hasDevices opts" "adm_hasZones opts" "read_topology en (aw_db w) = Inr tp"
  shows "rebuildEngineTopology opts en w = (None, w\<lparr>aw_engine := ApplyTopology (Some tp) (aw_engine w)\<rparr>)"
  using assms by (simp add: rebuildEngineTopology_def)

text \<open>
  Rebuilds are not serialised. If a request reads the topology, a second request then promotes a beacon and
  finishes, and the first one applies what it had read, the engine stops tracking the second beacon although both
  promotions were answered as successful and the beacon is on the allowlist: it stays unseen until the next rebuild.
\<close>

theorem overlapping_rebuilds_lose_beacon:
  assumes "read_topology en (aw_db w) = Inr tp"
    and "PromoteBeacon None b (aw_db w) = (None, db1)" "rebuildEngineTopology opts en (w\<lparr>aw_db := db1\<rparr>) = (None, w1)"
    and "kind (b_Key b) \<in> set knownKinds" "key (b_Key b) \<noteq> []"
    and "tables_ok (aw_db w)" "fair_reads en (aw_db w)" "fair_reads en db1" "engine_inv (aw_engine w)"
  shows "IsTracked (b_Key b) (aw_engine w1) = (b_Name b, True)
    \<and> IsTracked (b_Key b) (ApplyTopology (Some tp) (aw_engine w1)) = ([], False)
    \<and> allowlisted (b_Key b) (aw_db w1) = (b_Name b, True)"
proof -
  have ok1: "tables_ok db1" using PromoteBeacon_ok [OF assms(6,4,5), of None] assms(2) by simp
  have m: "mirrors (aw_engine w1) (aw_db w1)" and db: "aw_db w1 = db1"
    using rebuild_mirrors(1,2) [OF assms(3)] ok1 assms(8) engine_inv_mwf [OF assms(9)] by simp_all
  have al: "allowlisted (b_Key b) db1 = (b_Name b, True)" "allowlisted (b_Key b) (aw_db w) = ([], False)"
    using PromoteBeacon_allowlist [OF assms(2)] by simp_all
  obtain zs where tp: "beacons tp = map tracked_row (ae_beaconOrder en (db_beacons (aw_db w)))" "NewTopology zs (beacons tp) = Inr tp"
    using read_topology_ok [OF assms(6,7)] assms(1) by auto
  obtain tp1 zs1 where w1: "w1 = w\<lparr>aw_db := db1, aw_engine := ApplyTopology (Some tp1) (aw_engine w)\<rparr>"
    and tp1: "NewTopology zs1 (beacons tp1) = Inr tp1"
    using assms(3) read_topology_ok [OF ok1 assms(8)] by (auto simp: rebuildEngineTopology_def split: if_splits)
  have mwf1: "mwf (e_beacons (aw_engine w1))"
    using engine_inv_mwf [OF ApplyTopology_inv [OF assms(9) tp1]] by (simp add: w1)
  have "find (\<lambda>r. br_kind r = kind (b_Key b) \<and> br_key r = key (b_Key b)) (db_beacons (aw_db w)) = None"
    using al(2) by (auto simp: allowlisted_def split: option.splits)
  then have "find (\<lambda>x. tb_key x = b_Key b) (beacons tp) = None"
    using assms(7) by (auto simp: tp(1) fair_reads_def find_None_iff tracked_row_key dest: mset_eq_setD)
  then have "IsTracked (b_Key b) (ApplyTopology (Some tp) (aw_engine w1)) = ([], False)"
    using ApplyTopology_tracked [OF tp(2) mwf1, of "b_Key b"] by simp
  with m al show ?thesis by (simp add: mirrors_def db)
qed

theorem overlapping_rebuilds_lose_beacon_witness:
  "let w = sample_world []; b = \<lparr>b_Key = sample_tag, b_Name = ''keys'', b_Notes = []\<rparr>; db1 = snd (PromoteBeacon None b (aw_db w));
       w1 = snd (rebuildEngineTopology sample_admin sample_env (w\<lparr>aw_db := db1\<rparr>))
   in \<exists>tp. read_topology sample_env (aw_db w) = Inr tp \<and> IsTracked sample_tag (aw_engine w1) = (''keys'', True)
     \<and> IsTracked sample_tag (ApplyTopology (Some tp) (aw_engine w1)) = ([], False)"
proof -
  let ?w = "sample_world []" and ?b = "\<lparr>b_Key = sample_tag, b_Name = ''keys'', b_Notes = []\<rparr>"
  have nz: "\<not> key_IsZero sample_tag" and k: "kind sample_tag \<in> set knownKinds" "key sample_tag \<noteq> []"
    by (simp_all add: sample_tag_def key_IsZero_def mk_key_def knownKinds_def kind_defs)
  obtain db1 where p: "PromoteBeacon None ?b (aw_db ?w) = (None, db1)"
    by (simp add: PromoteBeacon_def validateBeacon_def nz sample_plain insert_beacon_def beacon_conflict_def sample_world_def empty_db_def)
  have "tables_ok db1" using PromoteBeacon_ok [OF sample_tables(1), of ?b None] p k by simp
  then obtain w1 where rb: "rebuildEngineTopology sample_admin sample_env (?w\<lparr>aw_db := db1\<rparr>) = (None, w1)"
    using sample_rebuild [of "?w\<lparr>aw_db := db1\<rparr>"] by auto
  obtain tp where tp: "read_topology sample_env (aw_db ?w) = Inr tp" using read_topology_ok [OF sample_tables(1) sample_fair] by blast
  have e: "engine_inv (aw_engine ?w)" using sample_inv by (simp add: sample_world_def)
  from overlapping_rebuilds_lose_beacon [OF tp p rb _ _ sample_tables(1) sample_fair sample_fair e] k tp p rb
  show ?thesis by simp
qed

end
