(* ===== verification/Go_Format.thy ===== *)
theory Go_Format
  imports Go_Strconv Go_Time
begin

section \<open>Numbers to text\<close>

text \<open>
  The verbs \<open>%v\<close> (\<open>%g\<close> with the shortest digits) and \<open>%.nf\<close> of package \<open>fmt\<close> for a float64. The shortest digits are the fewest
  that \<open>strconv.ParseFloat\<close> reads back as the same number, and among those the nearest. The theorem \<open>ParseFloat_fmt_v\<close> is that reading
  back; it rests on the fact that 17 digits always suffice. The model has one zero, which prints as \<open>0\<close>; Go prints \<open>-0\<close> for the other.
\<close>

subsection \<open>The decimal exponent of a positive rational\<close>

definition ilog10 :: "rat \<Rightarrow> int" where
  "ilog10 x =
     (if 1 \<le> x then int (length (show_nat (nat \<lfloor>x\<rfloor>))) - 1 else - int (length (show_nat (nat (\<lceil>1 / x\<rceil> - 1)))))"

subsection \<open>The shortest digits\<close>

definition decimal :: "int \<Rightarrow> int \<Rightarrow> rat" where
  "decimal m q = of_int m * 10 powi q"

text \<open>With \<open>n\<close> digits: the nearest decimal if it reads back, or else its neighbour on the other side of \<open>x\<close> if that does.\<close>

definition attempt :: "rat \<Rightarrow> nat \<Rightarrow> (int \<times> int) option" where
  "attempt x n =
     (let q = ilog10 x - int n + 1; y = x / 10 powi q; m = round_even y; m' = (if m = \<lfloor>y\<rfloor> then \<lfloor>y\<rfloor> + 1 else \<lfloor>y\<rfloor>) in
      if rnd (decimal m q) = x then Some (m, q)
      else if rnd (decimal m' q) = x then Some (m', q)
      else None)"

fun first_some :: "('a \<Rightarrow> 'b option) \<Rightarrow> 'a list \<Rightarrow> 'b option" where
  "first_some f [] = None"
| "first_some f (a # as) = (case f a of None \<Rightarrow> first_some f as | Some b \<Rightarrow> Some b)"

text \<open>The digits without trailing zeros, and the position of the decimal point before the first of them.\<close>

definition shortest :: "rat \<Rightarrow> string \<times> int" where
  "shortest x =
     (case first_some (attempt x) [1..<18] of
        None \<Rightarrow> ([], 0)
      | Some (m, q) \<Rightarrow>
          (let ds = show_nat (nat m) in (rev (dropWhile (\<lambda>c. c = CHR ''0'') (rev ds)), int (length ds) + q)))"

subsection \<open>The layouts\<close>

definition e_text :: "string \<Rightarrow> int \<Rightarrow> string" where
  "e_text ds e =
     take 1 ds @ (if drop 1 ds = [] then [] else ''.'' @ drop 1 ds) @ ''e'' @ (if e < 0 then ''-'' else ''+'') @ pad2 \<bar>e\<bar>"

definition f_text :: "string \<Rightarrow> int \<Rightarrow> string" where
  "f_text ds dp =
     (if dp \<le> 0 then ''0.'' @ replicate (nat (- dp)) (CHR ''0'') @ ds
      else if int (length ds) \<le> dp then ds @ replicate (nat dp - length ds) (CHR ''0'')
      else take (nat dp) ds @ ''.'' @ drop (nat dp) ds)"

definition g_text :: "string \<Rightarrow> int \<Rightarrow> string" where
  "g_text ds dp = (if dp - 1 < - 4 \<or> 6 \<le> dp - 1 then e_text ds (dp - 1) else f_text ds dp)"

fun fmt_v :: "float64 \<Rightarrow> string" where
  "fmt_v NaN = ''NaN''"
| "fmt_v PInf = ''+Inf''"
| "fmt_v NInf = ''-Inf''"
| "fmt_v (Fin x) =
     (if x = 0 then ''0'' else (if x < 0 then ''-'' else []) @ (case shortest \<bar>x\<bar> of (ds, dp) \<Rightarrow> g_text ds dp))"

text \<open>\<open>%.nf\<close>: the exact value rounded to \<open>n\<close> decimals, ties to even.\<close>

fun fmt_f :: "nat \<Rightarrow> float64 \<Rightarrow> string" where
  "fmt_f n NaN = ''NaN''"
| "fmt_f n PInf = ''+Inf''"
| "fmt_f n NInf = ''-Inf''"
| "fmt_f n (Fin x) =
     (let ds = zeros (n + 1) (show_nat (nat (round_even (\<bar>x\<bar> * 10 ^ n)))); k = length ds - n in
      (if x < 0 then ''-'' else []) @ take k ds @ (if n = 0 then [] else ''.'' @ drop k ds))"

subsection \<open>Digits and their value\<close>

lemma read_nat_Nil [simp]: "read_nat [] = 0"
  by (simp add: read_nat_def)

lemma read_nat_snoc: "read_nat (ds @ [c]) = 10 * read_nat ds + (code c - 48)"
  by (simp add: read_nat_def)

lemma read_nat_append: "read_nat (a @ b) = read_nat a * 10 ^ length b + read_nat b"
proof (induction b rule: rev_induct)
  case (snoc c b)
  have "read_nat (a @ b @ [c]) = 10 * read_nat (a @ b) + (code c - 48)" using read_nat_snoc [of "a @ b" c] by simp
  then show ?case by (simp only: snoc.IH read_nat_snoc) (simp add: algebra_simps)
qed simp

lemma read_nat_Cons: "read_nat (c # ds) = (code c - 48) * 10 ^ length ds + read_nat ds"
  using read_nat_append [of "[c]" ds] by (simp add: read_nat_snoc [of "[]", simplified])

lemma read_nat_zeros: "read_nat (replicate k (CHR ''0'')) = 0"
  by (induction k) (simp_all add: read_nat_Cons)

lemma read_nat_less: "list_all is_digit ds \<Longrightarrow> read_nat ds < 10 ^ length ds"
proof (induction ds)
  case (Cons c ds)
  then have "code c - 48 \<le> 9" and less: "read_nat ds < 10 ^ length ds" by (auto simp: is_digit_def in_range_def)
  from this(1) have "(code c - 48) * 10 ^ length ds \<le> 9 * 10 ^ length ds" by (rule mult_le_mono1)
  with less have "read_nat (c # ds) < 9 * 10 ^ length ds + 10 ^ length ds" unfolding read_nat_Cons by (rule add_le_less_mono [rotated])
  then show ?case by simp
qed simp

lemma show_nat_bounds:
  assumes "0 < n"
  shows "10 ^ (length (show_nat n) - 1) \<le> n" "n < 10 ^ length (show_nat n)"
proof -
  show "n < 10 ^ length (show_nat n)" using read_nat_less [OF show_nat_all_digits, of n] by (simp add: read_show_nat)
  show "10 ^ (length (show_nat n) - 1) \<le> n" using assms
  proof (induction n rule: show_nat.induct)
    case (1 n)
    show ?case
    proof (cases "n < 10")
      case True
      with 1(2) show ?thesis by (simp add: show_nat.simps [of n])
    next
      case False
      with 1(1) have "10 ^ (length (show_nat (n div 10)) - 1) \<le> n div 10" by simp
      moreover obtain k where "length (show_nat (n div 10)) = Suc k" by (cases "show_nat (n div 10)") auto
      ultimately show ?thesis using False by (simp add: show_nat.simps [of n])
    qed
  qed
qed

lemma ten_le_rat: "10 ^ k \<le> n \<Longrightarrow> (10 :: rat) ^ k \<le> of_nat n"
  by (metis of_nat_le_iff of_nat_numeral of_nat_power)

lemma rat_le_ten: "n \<le> 10 ^ k \<Longrightarrow> of_nat n \<le> (10 :: rat) ^ k"
  by (metis of_nat_le_iff of_nat_numeral of_nat_power)

lemma ilog10_bounds:
  assumes "0 < x"
  shows "10 powi ilog10 x \<le> x" and "x < 10 powi (ilog10 x + 1)"
proof -
  have "10 powi ilog10 x \<le> x \<and> x < 10 powi (ilog10 x + 1)"
  proof (cases "1 \<le> x")
    case True
    define n where "n = nat \<lfloor>x\<rfloor>"
    from True have n: "0 < n" "of_nat n \<le> x" "x < of_nat n + 1" by (simp_all add: n_def) linarith+
    obtain k where k: "length (show_nat n) = Suc k" by (cases "show_nat n") auto
    have "10 ^ k \<le> n" "n + 1 \<le> 10 ^ Suc k" using show_nat_bounds [OF n(1)] by (simp_all add: k)
    from ten_le_rat [OF this(1)] rat_le_ten [OF this(2)] have "(10 :: rat) ^ k \<le> of_nat n" "of_nat n + 1 \<le> (10 :: rat) ^ Suc k"
      by (simp_all add: add.commute)
    then have "10 ^ k \<le> x" "x < 10 ^ Suc k" using n by linarith+
    moreover have "ilog10 x = int k" using True k by (simp add: ilog10_def n_def)
    ultimately show ?thesis by (simp add: power_int_add)
  next
    case False
    define n where "n = nat (\<lceil>1 / x\<rceil> - 1)"
    from False assms have "1 < 1 / x" by simp
    then have n: "0 < n" "of_nat n < 1 / x" "1 / x \<le> of_nat (n + 1)" by (simp_all add: n_def) linarith+
    obtain k where k: "length (show_nat n) = Suc k" by (cases "show_nat n") auto
    have "10 ^ k \<le> n" "n + 1 \<le> 10 ^ Suc k" using show_nat_bounds [OF n(1)] by (simp_all add: k)
    from ten_le_rat [OF this(1)] rat_le_ten [OF this(2)] have "(10 :: rat) ^ k \<le> of_nat n" "of_nat n + 1 \<le> (10 :: rat) ^ Suc k"
      by (simp_all add: add.commute)
    then have "10 ^ k < 1 / x" "1 / x \<le> 10 ^ Suc k" using n by (simp_all only: of_nat_add of_nat_1)
    with assms have "x < 1 / 10 ^ k" "1 / 10 ^ Suc k \<le> x" by (simp_all add: field_simps)
    moreover have "ilog10 x = - int (Suc k)" using False k by (simp add: ilog10_def n_def)
    moreover have "(10 :: rat) powi (- int (Suc k)) = 1 / 10 ^ Suc k" "(10 :: rat) powi (- int k) = 1 / 10 ^ k"
      by (simp_all only: power_int_minus power_int_of_nat inverse_eq_divide)
    moreover have "- int (Suc k) + 1 = - int k" by simp
    ultimately show ?thesis by simp
  qed
  then show "10 powi ilog10 x \<le> x" and "x < 10 powi (ilog10 x + 1)" by auto
qed

subsection \<open>Seventeen digits suffice\<close>

lemma round_even_dist: "\<bar>of_int (round_even y) - y\<bar> \<le> 1 / 2"
  by (auto simp: round_even_def Let_def abs_if) linarith+

lemma powi_less_add: "(2 :: rat) powi a < 2 powi b \<longleftrightarrow> a < b"
  by (metis linorder_not_less one_less_numeral_iff power_int_strict_increasing semiring_norm(76) order_less_asym' verit_comp_simplify1(1) linorder_neqE)

lemma ilog2_unique:
  assumes "2 powi k \<le> x" "x < 2 powi (k + 1)"
  shows "ilog2 x = k"
proof -
  have "0 < x" using assms(1) pow2_pos [of k] by linarith
  note b = ilog2_bounds [OF this]
  have "(2 :: rat) powi ilog2 x < 2 powi (k + 1)" "(2 :: rat) powi k < 2 powi (ilog2 x + 1)" using assms b by linarith+
  then show ?thesis by (simp add: powi_less_add)
qed

lemma pow2_shift: "(2 :: rat) powi (a + int n) = 2 powi a * 2 ^ n"
  by (simp add: power_int_add)

lemma pow2_le: "a \<le> b \<Longrightarrow> (2 :: rat) powi a \<le> 2 powi b"
  by (simp add: power_int_increasing)

lemma rnd_near:
  assumes "0 < d" "\<bar>d - of_int i * 2 powi ulp_exp d\<bar> < 2 powi ulp_exp d / 2"
  shows "rnd d = of_int i * 2 powi ulp_exp d"
proof -
  let ?U = "(2 :: rat) powi ulp_exp d"
  have "\<bar>d / ?U - of_int i\<bar> = \<bar>d - of_int i * ?U\<bar> / ?U" using pow2_pos [of "ulp_exp d"] by (simp add: field_simps abs_if)
  then have "\<bar>d / ?U - of_int i\<bar> < 1 / 2" using assms(2) pow2_pos [of "ulp_exp d"] by (simp add: field_simps)
  then have "round_even (d / ?U) = i" by (intro round_even_near) linarith+
  then show ?thesis using assms(1) by (simp add: rnd_def rnd_pos_def)
qed

text \<open>
  Every number within \<open>x / 2 ^ 54\<close> of a float64 \<open>x\<close> rounds to \<open>x\<close>. Below \<open>x\<close> the neighbour may be half a unit nearer, when \<open>x\<close>
  is a power of two; the bound is small enough for that case too.
\<close>

lemma near_rounds:
  assumes x: "0 < x" "rnd x = x" and d: "\<bar>d - x\<bar> < x / 2 ^ 54"
  shows "rnd d = x"
proof -
  define k where "k = ilog2 x"
  define u where "u = ulp_exp x"
  note b = ilog2_bounds [OF x(1), folded k_def]
  have "x = of_int (round_even (x / 2 powi u)) * 2 powi u" using x by (simp add: rnd_def rnd_pos_def u_def)
  then obtain i where i: "x = of_int i * 2 powi u" by blast
  have u: "k - 52 \<le> u" "- 1074 \<le> u" by (simp_all add: ulp_exp_def u_def k_def)
  have "0 < of_int i * (2 :: rat) powi u" unfolding i [symmetric] by (rule x(1))
  then have "(0 :: rat) < of_int i" by (rule zero_less_mult_pos2) simp
  then have "0 < i" by simp
  then have "1 * 2 powi u \<le> of_int i * (2 :: rat) powi u" by (intro mult_right_mono) simp_all
  then have "2 powi u \<le> x" unfolding i [symmetric] by simp
  then have ku: "u \<le> k" using b powi_less_add [of u "k + 1"] by force
  have "x / 2 ^ 54 < 2 powi (k - 53)" using b(2) pow2_shift [of "k - 53" 54] by (simp add: field_simps)
  then have err: "\<bar>d - x\<bar> < 2 powi (k - 53)" using d by linarith
  have half: "2 powi (k - 53) * 2 \<le> (2 :: rat) powi u" using pow2_shift [of "k - 53" 1] pow2_le [OF u(1)] by simp
  have "x / 2 ^ 54 < x" using x(1) by simp
  then have d0: "0 < d" using d by linarith
  show ?thesis
  proof (cases "2 powi k \<le> d")
    case True
    obtain j where j: "(2 :: rat) powi (k + 1) = of_int j * 2 powi u" by (rule pow2_multiple [of u "k + 1"]) (use ku in simp_all)
    have "of_int i * 2 powi u < of_int j * (2 :: rat) powi u" using b(2) i j by simp
    then have "of_int (i + 1) \<le> (of_int j :: rat)" by simp
    then have "of_int (i + 1) * 2 powi u \<le> (of_int j * 2 powi u :: rat)" by (rule mult_right_mono) simp
    then have "x + 2 powi u \<le> 2 powi (k + 1)" using i j by (simp add: algebra_simps)
    then have "d < 2 powi (k + 1)" using err half pow2_pos [of "k - 53"] by linarith
    then have "ulp_exp d = u" using ilog2_unique [OF True] by (simp add: ulp_exp_def u_def k_def)
    moreover have "\<bar>d - x\<bar> < 2 powi u / 2" using err half by linarith
    ultimately show ?thesis using rnd_near [OF d0, of i] i by simp
  next
    case False
    obtain j where j: "(2 :: rat) powi k = of_int j * 2 powi u" by (rule pow2_multiple [OF ku])
    have "x < 2 powi k + 2 powi u" using err half False pow2_pos [of "k - 53"] by linarith
    then have "of_int i * 2 powi u < of_int (j + 1) * (2 :: rat) powi u" using i j by (simp add: algebra_simps)
    then have "i \<le> j" by simp
    moreover have "of_int j * (2 :: rat) powi u \<le> of_int i * 2 powi u" using b(1) i j by simp
    then have "j \<le> i" by simp
    ultimately have xk: "x = 2 powi k" using i j by simp
    then have "x / 2 ^ 54 = 2 powi (k - 54)" using pow2_shift [of "k - 54" 54] by simp
    then have err': "\<bar>d - x\<bar> < 2 powi (k - 54)" using d by simp
    have "2 powi (k - 54) \<le> (2 :: rat) powi (k - 1)" "2 powi (k - 1) * 2 = (2 :: rat) powi k"
      using pow2_le [of "k - 54" "k - 1"] pow2_shift [of "k - 1" 1] by simp_all
    then have "2 powi (k - 1) \<le> d" "d < 2 powi ((k - 1) + 1)" using err' xk False by (simp_all add: abs_less_iff)
    then have "ilog2 d = k - 1" by (rule ilog2_unique)
    then have ud: "k - 53 \<le> ulp_exp d" "ulp_exp d \<le> k" using ku u by (simp_all add: ulp_exp_def)
    obtain j' where j': "(2 :: rat) powi k = of_int j' * 2 powi ulp_exp d" by (rule pow2_multiple [OF ud(2)])
    have "2 powi (k - 54) * 2 \<le> (2 :: rat) powi ulp_exp d" using pow2_shift [of "k - 54" 1] pow2_le [OF ud(1)] by simp
    then show ?thesis using rnd_near [OF d0, of j'] err' xk j' by simp
  qed
qed

lemma attempt_17:
  assumes x: "0 < x" "rnd x = x"
  shows "attempt x 17 \<noteq> None"
proof -
  define q where "q = ilog10 x - 16"
  define y where "y = x / 10 powi q"
  have q: "(0 :: rat) < 10 powi q" "10 powi ilog10 x = 10 powi q * (10 ^ 16 :: rat)"
    using power_int_add [of "10 :: rat" q 16] by (simp_all add: q_def)
  have "decimal (round_even y) q - x = (of_int (round_even y) - y) * 10 powi q" using q(1) by (simp add: decimal_def y_def algebra_simps)
  then have "\<bar>decimal (round_even y) q - x\<bar> \<le> 1 / 2 * 10 powi q"
    using mult_right_mono [OF round_even_dist [of y], of "10 powi q"] q(1) by (simp only: abs_mult) simp
  moreover have "10 powi q * 10 ^ 16 \<le> x" using ilog10_bounds(1) [OF x(1)] q(2) by simp
  ultimately have "\<bar>decimal (round_even y) q - x\<bar> < x / 2 ^ 54" using x(1) by simp
  from near_rounds [OF x this] show ?thesis by (simp add: attempt_def Let_def q_def y_def)
qed

subsection \<open>Reading a number back\<close>

lemma digit_unhex: "is_digit c \<Longrightarrow> unhex c = Some (code c - 48) \<and> code c - 48 < 10 \<and> c \<noteq> CHR ''_'' \<and> c \<noteq> CHR ''.''"
  by (auto simp: is_digit_def unhex_def in_range_def Let_def)

lemma scan_mant_digits:
  "list_all is_digit ds \<Longrightarrow> ds \<noteq> [] \<Longrightarrow>
   scan_mant 10 (ds @ rest) m = scan_mant 10 rest
     (m\<lparr>mant := mant m * 10 ^ length ds + read_nat ds, saw_digits := True,
        frac_digits := frac_digits m + (if saw_dot m then length ds else 0)\<rparr>)"
proof (induction ds arbitrary: m)
  case (Cons c ds)
  then have c: "unhex c = Some (code c - 48)" "code c - 48 < 10" "c \<noteq> CHR ''_''" "c \<noteq> CHR ''.''" by (simp_all add: digit_unhex)
  show ?case
  proof (cases "ds = []")
    case True
    then show ?thesis using c by (simp add: read_nat_Cons algebra_simps)
  next
    case False
    with Cons c show ?thesis by (simp add: read_nat_Cons algebra_simps)
  qed
qed simp

lemma scan_exp_digits:
  "list_all is_digit es \<Longrightarrow> e * 10 ^ length es + read_nat es < 10000 \<Longrightarrow> scan_exp es e u = (e * 10 ^ length es + read_nat es, u, [])"
proof (induction es arbitrary: e)
  case (Cons c es)
  then have c: "is_digit c" "c \<noteq> CHR ''_''" by (simp_all add: digit_unhex)
  have step: "e * 10 ^ length (c # es) + read_nat (c # es) = (10 * e + (code c - 48)) * 10 ^ length es + read_nat es"
    by (simp add: read_nat_Cons algebra_simps)
  have "e * 1 \<le> e * 10 ^ length (c # es)" by (intro mult_le_mono2) simp
  then have "e < 10000" using Cons.prems(2) by linarith
  then show ?case using Cons.IH [of "10 * e + (code c - 48)"] Cons.prems c unfolding step by simp
qed simp

definition point_text :: "string \<Rightarrow> string \<Rightarrow> string" where
  "point_text a b = a @ (if b = [] then [] else ''.'' @ b)"

definition sign_text :: "bool \<Rightarrow> string" where
  "sign_text neg = (if neg then ''-'' else [])"

text \<open>The exponent part: nothing, or a sign and digits.\<close>

definition exp_text :: "(bool \<times> string) option \<Rightarrow> string" where
  "exp_text ex = (case ex of None \<Rightarrow> [] | Some (neg, es) \<Rightarrow> ''e'' @ (if neg then ''-'' else ''+'') @ es)"

definition exp_ok :: "(bool \<times> string) option \<Rightarrow> bool" where
  "exp_ok ex \<longleftrightarrow> (case ex of None \<Rightarrow> True | Some (neg, es) \<Rightarrow> es \<noteq> [] \<and> list_all is_digit es \<and> read_nat es < 10000)"

definition exp_value :: "(bool \<times> string) option \<Rightarrow> int" where
  "exp_value ex = (case ex of None \<Rightarrow> 0 | Some (neg, es) \<Rightarrow> if neg then - int (read_nat es) else int (read_nat es))"

lemmas number_text_defs = point_text_def sign_text_def exp_text_def

lemma scan_mant_exp: "scan_mant 10 (exp_text ex) m = (m, exp_text ex)"
  by (cases ex) (auto simp: exp_text_def unhex_def in_range_def)

lemma scan_mantissa:
  assumes "list_all is_digit a" "a \<noteq> []" "list_all is_digit b"
  shows "scan_mant 10 (point_text a b @ exp_text ex) \<lparr>mant = 0, frac_digits = 0, saw_dot = False, saw_digits = False, saw_under = False\<rparr>
    = (\<lparr>mant = read_nat (a @ b), frac_digits = length b, saw_dot = (b \<noteq> []), saw_digits = True, saw_under = False\<rparr>, exp_text ex)"
proof (cases "b = []")
  case True
  then show ?thesis using assms by (simp add: point_text_def scan_mant_digits scan_mant_exp)
next
  case False
  then show ?thesis using assms by (simp add: point_text_def scan_mant_digits scan_mant_exp read_nat_append)
qed

text \<open>No letter of such a text is the \<open>x\<close> of a hexadecimal prefix.\<close>

lemma not_hex:
  assumes "list_all is_digit a" "list_all is_digit b" "exp_ok ex" "c \<in> set (point_text a b @ exp_text ex)"
  shows "ascii_lower c \<noteq> CHR ''x''"
proof -
  have "is_digit c \<or> c \<in> set ''.e+-''" using assms by (auto simp: number_text_defs exp_ok_def list_all_iff split: option.splits if_splits)
  then show ?thesis by (auto simp: ascii_lower_def is_digit_def in_range_def)
qed

lemma readFloat_text:
  assumes ds: "list_all is_digit a" "a \<noteq> []" "list_all is_digit b" and ex: "exp_ok ex"
  shows "readFloat (sign_text neg @ point_text a b @ exp_text ex)
    = (let v = scaled (read_nat (a @ b)) 10 (length b) 10 (exp_value ex) in Some (if neg then - v else v))"
proof -
  let ?s = "point_text a b @ exp_text ex"
  obtain c a' where a: "a = c # a'" using ds(2) by (cases a) auto
  then have "c \<noteq> CHR ''-''" "c \<noteq> CHR ''+''" using ds(1) digits_not_sign [of c] by simp_all
  then have cut: "cut_sign (sign_text neg @ ?s) = (neg, ?s)" by (simp add: number_text_defs a)
  have hex: "\<not> (2 < length ?s \<and> ?s ! 0 = CHR ''0'' \<and> ascii_lower (?s ! 1) = CHR ''x'')"
    using not_hex [OF ds(1) ds(3) ex, of "?s ! 1"] nth_mem [of 1 ?s] by auto
  show ?thesis
  proof (cases ex)
    case None
    then have tx: "exp_text ex = []" "exp_value ex = 0" by (simp_all add: exp_text_def exp_value_def)
    show ?thesis unfolding readFloat_def cut Let_def prod.case if_not_P [OF hex]
      unfolding scan_mantissa [OF ds] unfolding prod.case tx by simp
  next
    case (Some p)
    then obtain n es where p: "ex = Some (n, es)" by (cases p) auto
    then have es: "es \<noteq> []" "list_all is_digit es" "read_nat es < 10000" using ex by (simp_all add: exp_ok_def)
    have scan: "scan_exp es 0 False = (read_nat es, False, [])" using scan_exp_digits [OF es(2), of 0] es(3) by simp
    have tx: "exp_text ex = CHR ''e'' # (if n then CHR ''-'' else CHR ''+'') # es" by (simp add: exp_text_def p)
    have sgn: "cut_sign ((if n then CHR ''-'' else CHR ''+'') # es) = (n, es)" by simp
    have dig: "is_digit (hd es)" using es by (cases es) simp_all
    have e: "ascii_lower (CHR ''e'') = CHR ''e''" by code_simp
    have val: "exp_value ex = (if n then - int (read_nat es) else int (read_nat es))" by (simp add: exp_value_def p)
    show ?thesis unfolding readFloat_def cut Let_def prod.case if_not_P [OF hex]
      unfolding scan_mantissa [OF ds] unfolding prod.case tx list.case e sgn scan
      by (simp add: es dig val)
  qed
qed

lemma scaled_decimal: "scaled m 10 n 10 e = decimal (int m) (e - int n)"
  by (simp add: scaled_def decimal_def power_int_diff)

lemma decimal_shift: "decimal (int (m * 10 ^ k)) q = decimal (int m) (q + int k)"
  by (simp add: decimal_def power_int_add)

lemma is_digit_zero: "is_digit (CHR ''0'')"
  by (simp add: is_digit_def in_range_def)

lemma zeros_digits: "list_all is_digit (replicate k (CHR ''0''))"
  by (simp add: list_all_iff is_digit_zero)

lemma pad2_digits: "0 \<le> n \<Longrightarrow> list_all is_digit (pad2 n) \<and> pad2 n \<noteq> [] \<and> read_nat (pad2 n) = nat n"
  using show_nat_all_digits [of "nat n"] is_digit_zero
  by (simp add: pad2_def read_nat_append read_nat_zeros read_show_nat) (simp add: list_all_iff)

lemma g_text_reads:
  assumes ds: "list_all is_digit ds" "ds \<noteq> []" and dp: "\<bar>dp\<bar> < 9000"
  obtains a b ex where "g_text ds dp = point_text a b @ exp_text ex"
    "list_all is_digit a" "a \<noteq> []" "list_all is_digit b" "exp_ok ex"
    "scaled (read_nat (a @ b)) 10 (length b) 10 (exp_value ex) = decimal (int (read_nat ds)) (dp - int (length ds))"
proof -
  consider (e) "dp - 1 < - 4 \<or> 6 \<le> dp - 1" | (small) "\<not> (dp - 1 < - 4 \<or> 6 \<le> dp - 1)" "dp \<le> 0"
    | (large) "\<not> (dp - 1 < - 4 \<or> 6 \<le> dp - 1)" "0 < dp" "int (length ds) \<le> dp"
    | (mid) "\<not> (dp - 1 < - 4 \<or> 6 \<le> dp - 1)" "0 < dp" "dp < int (length ds)"
    by linarith
  then show thesis
  proof cases
    case e
    obtain c cs where c: "ds = c # cs" using ds(2) by (cases ds) auto
    let ?ex = "Some (dp - 1 < 0, pad2 \<bar>dp - 1\<bar>)"
    have p: "list_all is_digit (pad2 \<bar>dp - 1\<bar>)" "pad2 \<bar>dp - 1\<bar> \<noteq> []" "read_nat (pad2 \<bar>dp - 1\<bar>) = nat \<bar>dp - 1\<bar>"
      using pad2_digits [of "\<bar>dp - 1\<bar>"] by simp_all
    show thesis
    proof (rule that)
      show "g_text ds dp = point_text [c] cs @ exp_text ?ex" using e by (simp add: g_text_def e_text_def c point_text_def exp_text_def)
      show "exp_ok ?ex" using p dp by (simp add: exp_ok_def)
      have "exp_value ?ex = dp - 1" by (simp only: exp_value_def option.case prod.case p(3)) simp
      then show "scaled (read_nat ([c] @ cs)) 10 (length cs) 10 (exp_value ?ex) = decimal (int (read_nat ds)) (dp - int (length ds))"
        by (simp add: scaled_decimal c diff_diff_eq)
    qed (use ds in \<open>simp_all add: c\<close>)
  next
    case small
    let ?b = "replicate (nat (- dp)) (CHR ''0'') @ ds"
    show thesis
    proof (rule that [of "''0''" ?b None])
      show "g_text ds dp = point_text ''0'' ?b @ exp_text None" using small ds(2) by (simp add: g_text_def f_text_def point_text_def exp_text_def)
      show "scaled (read_nat (''0'' @ ?b)) 10 (length ?b) 10 (exp_value None) = decimal (int (read_nat ds)) (dp - int (length ds))"
        using small by (simp add: scaled_decimal exp_value_def read_nat_Cons read_nat_append read_nat_zeros)
    qed (use ds in \<open>simp_all add: exp_ok_def is_digit_zero zeros_digits\<close>)
  next
    case large
    define k where "k = nat dp - length ds"
    have k: "dp - int (length ds) = int k" using large by (simp add: k_def)
    let ?a = "ds @ replicate k (CHR ''0'')"
    show thesis
    proof (rule that [of ?a "[]" None])
      show "g_text ds dp = point_text ?a [] @ exp_text None" using large by (simp add: g_text_def f_text_def point_text_def exp_text_def k_def)
      have "read_nat (?a @ []) = read_nat ds * 10 ^ k" by (simp add: read_nat_append read_nat_zeros)
      then show "scaled (read_nat (?a @ [])) 10 (length []) 10 (exp_value None) = decimal (int (read_nat ds)) (dp - int (length ds))"
        unfolding scaled_decimal k decimal_shift [of "read_nat ds" k 0, simplified, symmetric] by (simp add: exp_value_def)
    qed (use ds in \<open>simp_all add: exp_ok_def is_digit_zero zeros_digits\<close>)
  next
    case mid
    show thesis
    proof (rule that [of "take (nat dp) ds" "drop (nat dp) ds" None])
      show "g_text ds dp = point_text (take (nat dp) ds) (drop (nat dp) ds) @ exp_text None"
        using mid by (simp add: g_text_def f_text_def point_text_def exp_text_def)
      show "scaled (read_nat (take (nat dp) ds @ drop (nat dp) ds)) 10 (length (drop (nat dp) ds)) 10 (exp_value None)
          = decimal (int (read_nat ds)) (dp - int (length ds))"
        using mid by (simp add: scaled_decimal exp_value_def of_nat_diff)
      show "list_all is_digit (take (nat dp) ds)" "list_all is_digit (drop (nat dp) ds)"
        using ds(1) by (auto simp: list_all_iff dest: in_set_takeD in_set_dropD)
    qed (use ds mid in \<open>simp_all add: exp_ok_def\<close>)
  qed
qed

lemma pow10_shift: "(10 :: rat) powi (a + int n) = 10 powi a * 10 ^ n"
  by (simp add: power_int_add)

lemma first_some_find:
  assumes "a \<in> set as" "f a \<noteq> None"
  obtains c b where "c \<in> set as" "f c = Some b" "first_some f as = Some b"
proof -
  have "\<exists>c b. c \<in> set as \<and> f c = Some b \<and> first_some f as = Some b" using assms by (induction as) (auto split: option.split)
  then show thesis using that by blast
qed

lemma strip_zeros:
  obtains k where "s = rev (dropWhile (\<lambda>c. c = CHR ''0'') (rev s)) @ replicate k (CHR ''0'')"
proof
  let ?P = "\<lambda>c. c = CHR ''0''"
  have "takeWhile ?P (rev s) = replicate (length (takeWhile ?P (rev s))) (CHR ''0'')"
    by (rule replicate_length_same [symmetric]) (auto dest: set_takeWhileD)
  moreover have "rev s = takeWhile ?P (rev s) @ dropWhile ?P (rev s)" by simp
  then have "s = rev (dropWhile ?P (rev s)) @ rev (takeWhile ?P (rev s))" by (metis rev_append rev_rev_ident)
  ultimately show "s = rev (dropWhile ?P (rev s)) @ replicate (length (takeWhile ?P (rev s))) (CHR ''0'')"
    by (metis rev_replicate)
qed

lemma float_least:
  assumes "0 < x" "rnd x = x"
  shows "2 powi (- 1074) \<le> x"
proof -
  define u where "u = ulp_exp x"
  define i where "i = round_even (x / 2 powi u)"
  have i: "of_int i * 2 powi u = x" using assms by (simp add: rnd_def rnd_pos_def u_def i_def)
  have "0 < of_int i * (2 :: rat) powi u" unfolding i by (rule assms(1))
  then have "(0 :: rat) < of_int i" by (rule zero_less_mult_pos2) simp
  then have "1 * 2 powi u \<le> of_int i * (2 :: rat) powi u" by (intro mult_right_mono) simp_all
  moreover have "2 powi (- 1074) \<le> (2 :: rat) powi u" by (rule pow2_le) (simp add: u_def ulp_exp_def)
  ultimately show ?thesis using i by linarith
qed

lemma pow2_pow10: "(2 :: rat) ^ n \<le> 10 ^ n" "(10 :: rat) powi (- int n) \<le> 2 powi (- int n)"
proof -
  show *: "(2 :: rat) ^ n \<le> 10 ^ n" by (rule power_mono) simp_all
  show "(10 :: rat) powi (- int n) \<le> 2 powi (- int n)"
    unfolding power_int_minus power_int_of_nat by (rule le_imp_inverse_le [OF *]) simp
qed

lemma pow10_less: "(10 :: rat) powi a < 10 powi b \<Longrightarrow> a < b"
  by (rule ccontr) (use power_int_increasing [of b a "10 :: rat"] in \<open>simp add: not_less\<close>)

lemma ilog10_range:
  assumes "0 < x" "rnd x = x" "x < 2 ^ 1024"
  shows "\<bar>ilog10 x\<bar> < 1100"
proof -
  note b = ilog10_bounds [OF assms(1)]
  have "10 powi ilog10 x < (10 :: rat) powi int 1024"
    unfolding power_int_of_nat by (rule le_less_trans [OF b(1) less_le_trans [OF assms(3) pow2_pow10(1)]])
  then have hi: "ilog10 x < int 1024" by (rule pow10_less)
  have "10 powi (- int 1074) < (10 :: rat) powi (ilog10 x + 1)"
    by (rule le_less_trans [OF pow2_pow10(2) le_less_trans [OF _ b(2)]]) (use float_least [OF assms(1,2)] in \<open>simp only: of_nat_numeral\<close>)
  then have "- int 1074 < ilog10 x + 1" by (rule pow10_less)
  with hi show ?thesis by simp
qed

lemma attempt_reads:
  assumes x: "0 < x" and n: "0 < n" and "attempt x n = Some (m, q)"
  shows "rnd (decimal m q) = x" "q = ilog10 x - int n + 1" "1 \<le> m" "m \<le> 10 ^ n"
proof -
  define y where "y = x / 10 powi (ilog10 x - int n + 1)"
  have m: "rnd (decimal m q) = x \<and> q = ilog10 x - int n + 1 \<and> (m = round_even y \<or> m = \<lfloor>y\<rfloor> \<or> m = \<lfloor>y\<rfloor> + 1)"
    using assms(3) by (auto simp: attempt_def Let_def y_def split: if_splits)
  then show "rnd (decimal m q) = x" "q = ilog10 x - int n + 1" by blast+
  have pos: "(0 :: rat) < 10 powi (ilog10 x - int n + 1)" by (simp add: zero_less_power_int)
  obtain n' where n': "n = Suc n'" using n by (cases n) auto
  have "ilog10 x - int n + 1 + int n' = ilog10 x" "ilog10 x - int n + 1 + int n = ilog10 x + 1" using n' by simp_all
  then have "(10 :: rat) powi ilog10 x = 10 powi (ilog10 x - int n + 1) * 10 ^ n'"
    "(10 :: rat) powi (ilog10 x + 1) = 10 powi (ilog10 x - int n + 1) * 10 ^ n"
    using pow10_shift [of "ilog10 x - int n + 1" n'] pow10_shift [of "ilog10 x - int n + 1" n] by (simp_all only:)
  then have "10 ^ n' \<le> y" "y < 10 ^ n" using ilog10_bounds [OF x] pos by (simp_all add: y_def field_simps)
  moreover have "(1 :: rat) \<le> 10 ^ n'" by (rule one_le_power) simp
  ultimately have "1 \<le> y" "\<lfloor>y\<rfloor> < 10 ^ n" by (linarith, simp add: floor_less_iff)
  then have "1 \<le> \<lfloor>y\<rfloor>" by simp
  then show "1 \<le> m" "m \<le> 10 ^ n" using m round_even_floor [of y] \<open>\<lfloor>y\<rfloor> < 10 ^ n\<close> by auto
qed

lemma shortest_reads:
  assumes x: "0 < x" "rnd x = x" "x < 2 ^ 1024"
  obtains ds dp where "shortest x = (ds, dp)" "list_all is_digit ds" "ds \<noteq> []" "\<bar>dp\<bar> < 9000"
    "rnd (decimal (int (read_nat ds)) (dp - int (length ds))) = x"
proof -
  have "17 \<in> set [1..<18]" by simp
  then obtain n p where n: "n \<in> set [1..<18]" "attempt x n = Some p" "first_some (attempt x) [1..<18] = Some p"
    using attempt_17 [OF x(1,2)] by (rule first_some_find)
  obtain m q where p: "p = (m, q)" by (cases p)
  have n1: "0 < n" "n < 18" using n(1) by simp_all
  note r = attempt_reads [OF x(1) n1(1) n(2) [unfolded p]]
  define s where "s = show_nat (nat m)"
  define ds where "ds = rev (dropWhile (\<lambda>c. c = CHR ''0'') (rev s))"
  have sh: "shortest x = (ds, int (length s) + q)" unfolding shortest_def n(3) by (simp add: p ds_def s_def Let_def)
  obtain k where k: "s = ds @ replicate k (CHR ''0'')" using strip_zeros [of s] unfolding ds_def by blast
  have val: "nat m = read_nat ds * 10 ^ k" using read_show_nat [of "nat m"] by (simp add: s_def [symmetric] k read_nat_append read_nat_zeros)
  show thesis
  proof (rule that [OF sh])
    show "list_all is_digit ds" using show_nat_all_digits [of "nat m"] by (simp add: s_def [symmetric] k)
    show "ds \<noteq> []" using val r(3) by auto
    have "10 ^ (length s - 1) \<le> nat m" using show_nat_bounds(1) [of "nat m"] r(3) by (simp add: s_def)
    also have "nat m \<le> 10 ^ n" using r(4) by (simp add: nat_le_iff)
    finally have "length s - 1 \<le> n" by (simp add: power_le_imp_le_exp)
    then have "length s < 19" using n1(2) by simp
    then show "\<bar>int (length s) + q\<bar> < 9000" using ilog10_range [OF x] r(2) n1(2) by linarith
    have at: "int (length s) + q - int (length ds) = q + int k" by (simp add: k)
    have m: "int (read_nat ds * 10 ^ k) = m" using val r(3) by (metis int_nat_eq order_trans zero_le_one)
    show "rnd (decimal (int (read_nat ds)) (int (length s) + q - int (length ds))) = x"
      using r(1) unfolding at decimal_shift [of "read_nat ds" k q, unfolded m, symmetric] .
  qed
qed

subsection \<open>What is printed reads back\<close>

definition float_ok :: "float64 \<Rightarrow> bool" where
  "float_ok f \<longleftrightarrow> (case f of Fin x \<Rightarrow> rnd x = x \<and> \<bar>x\<bar> < 2 ^ 1024 | _ \<Rightarrow> True)"

lemma special_float_digit: "is_digit c \<Longrightarrow> special_float (sign_text neg @ c # cs) = None"
  by (auto simp: special_float_def sign_text_def is_digit_def in_range_def ascii_lower_def)

lemma special_floats: "special_float ''+Inf'' = Some PInf" "special_float ''-Inf'' = Some NInf" "special_float ''NaN'' = Some NaN"
  by (simp_all add: special_float_def ascii_lower_def in_range_def char_of_eq_iff)

lemma ParseFloat_fmt_v:
  assumes "float_ok f"
  shows "ParseFloat (fmt_v f) = Some f"
proof (cases f)
  case (Fin x)
  have x: "rnd x = x" "\<bar>x\<bar> < 2 ^ 1024" using assms by (simp_all add: float_ok_def Fin)
  show ?thesis
  proof (cases "x = 0")
    case True
    have z: "readFloat ''0'' = Some 0"
      using readFloat_text [of "''0''" "[]" None False] is_digit_zero
      by (simp add: number_text_defs exp_ok_def exp_value_def scaled_def read_nat_Cons)
    have "special_float ''0'' = None" using special_float_digit [OF is_digit_zero, of False "[]"] by (simp add: sign_text_def)
    then show ?thesis by (simp add: Fin True ParseFloat_def z)
  next
    case False
    then have pos: "0 < \<bar>x\<bar>" by simp
    have "rnd \<bar>x\<bar> = \<bar>x\<bar>" using x(1) by (simp add: abs_if)
    then obtain ds dp where sh: "shortest \<bar>x\<bar> = (ds, dp)" "list_all is_digit ds" "ds \<noteq> []" "\<bar>dp\<bar> < 9000"
      "rnd (decimal (int (read_nat ds)) (dp - int (length ds))) = \<bar>x\<bar>"
      by (rule shortest_reads [OF pos _ x(2)])
    obtain a b ex where g: "g_text ds dp = point_text a b @ exp_text ex" "list_all is_digit a" "a \<noteq> []" "list_all is_digit b" "exp_ok ex"
      "scaled (read_nat (a @ b)) 10 (length b) 10 (exp_value ex) = decimal (int (read_nat ds)) (dp - int (length ds))"
      by (rule g_text_reads [OF sh(2-4)])
    obtain c a' where c: "a = c # a'" "is_digit c" using g(2,3) by (cases a) auto
    have sp: "special_float (sign_text (x < 0) @ point_text a b @ exp_text ex) = None"
      unfolding c(1) point_text_def append_Cons append_assoc using special_float_digit [OF c(2)] by simp
    have "fmt_v f = sign_text (x < 0) @ point_text a b @ exp_text ex" using False by (simp add: Fin sh(1) g(1) sign_text_def)
    moreover have "mk64 (if x < 0 then - v else v) = Fin x" if "rnd v = \<bar>x\<bar>" for v
      using that x(2) by (auto simp: mk64_def Let_def abs_if split: if_splits)
    ultimately show ?thesis unfolding ParseFloat_def
      by (simp add: sp readFloat_text [OF g(2-5)] g(6) sh(5) Let_def Fin)
  qed
qed (simp_all add: ParseFloat_def special_floats)

end
