(* ===== verification/Admin_Form.thy ===== *)
theory Admin_Form
  imports Admin_Limits Go_Format
begin

section \<open>The templates of the admin server (internal/admin/funcs.go, render.go, templates/tunables.html)\<close>

text \<open>
  The formatting helpers of the templates, the rendering of a page into a buffer, and the fields of the tunables form with the
  values the page shows. The theorem at the end closes the circle of page and handler: a form that is sent back the way it
  was shown changes nothing. Two functions of the form matter for that, the one that prints a number (\<open>%v\<close>, the shortest
  digits) and the one that reads it (\<open>strconv\<close>).
\<close>

subsection \<open>The functions of the templates (funcs.go)\<close>

text \<open>The long dash, in UTF-8.\<close>

definition em_dash :: string where
  "em_dash = [CHR 0xE2, CHR 0x80, CHR 0x94]"

definition fmtTime :: "gtime \<Rightarrow> string" where
  "fmtTime t = (if time_is_zero t then em_dash else RFC3339 t)"

definition fmtFloat :: "float64 \<Rightarrow> string" where
  "fmtFloat f = fmt_f 2 f"

definition fmtAge :: "float64 \<Rightarrow> string" where
  "fmtAge s =
     (if flt s fzero then em_dash
      else if flt s (f_of_int 60) then fmt_f 1 s @ ''s''
      else fmt_f 1 (fdivc s 60) @ ''m'')"

definition derefFloat :: "float64 option \<Rightarrow> string" where
  "derefFloat p = (case p of None \<Rightarrow> [] | Some x \<Rightarrow> fmt_v x)"

definition derefInt :: "int option \<Rightarrow> string" where
  "derefInt p = (case p of None \<Rightarrow> [] | Some n \<Rightarrow> show_int n)"

definition deref64 :: "int option \<Rightarrow> int" where
  "deref64 p = (case p of None \<Rightarrow> 0 | Some n \<Rightarrow> n)"

subsection \<open>Rendering (render.go)\<close>

text \<open>
  \<open>html/template\<close> is the parameter \<open>exec\<close>: what the template wrote, and whether it failed. Only a complete page is sent; the
  result is the status, whether the content type of a page is set, and the body.
\<close>

definition render :: "('page \<Rightarrow> string \<times> bool) \<Rightarrow> 'page \<Rightarrow> nat \<times> bool \<times> string" where
  "render exec data =
     (let (buf, failed) = exec data in
      if failed then (500, False, ''internal error rendering page'' @ [CHR 10]) else (200, True, buf))"

subsection \<open>The tunables form (templates/tunables.html)\<close>

definition default_fields :: "DefaultsBlock \<Rightarrow> (string, string) gmap" where
  "default_fields d =
     [(''default_alpha'', fmt_v (Alpha d)),
      (''default_grace_period_s'', show_int (GracePeriodS d)),
      (''default_decay_rate_db_per_s'', fmt_v (DecayRateDbPerS d)),
      (''default_presence_floor_dbm'', show_int (PresenceFloorDbm d)),
      (''default_t_away_max_s'', show_int (TAwayMaxS d)),
      (''default_sticky_after_arrival_s'', show_int (StickyAfterArrivalS d)),
      (''default_hysteresis_db'', fmt_v (HysteresisDb d)),
      (''default_confirm_count'', show_int (ConfirmCount d))]"

definition override_columns :: "(string \<times> (Overrides \<Rightarrow> string)) list" where
  "override_columns =
     [(''_alpha'', \<lambda>ov. derefFloat (o_Alpha ov)),
      (''_grace_period_s'', \<lambda>ov. derefInt (o_GracePeriodS ov)),
      (''_decay_rate_db_per_s'', \<lambda>ov. derefFloat (o_DecayRateDbPerS ov)),
      (''_presence_floor_dbm'', \<lambda>ov. derefInt (o_PresenceFloorDbm ov)),
      (''_t_away_max_s'', \<lambda>ov. derefInt (o_TAwayMaxS ov)),
      (''_sticky_after_arrival_s'', \<lambda>ov. derefInt (o_StickyAfterArrivalS ov)),
      (''_hysteresis_db'', \<lambda>ov. derefFloat (o_HysteresisDb ov)),
      (''_confirm_count'', \<lambda>ov. derefInt (o_ConfirmCount ov))]"

text \<open>\<open>index $.Tunables.Beacons $name\<close> of a name without an entry is the zero value.\<close>

definition override_fields :: "Tunables \<Rightarrow> string \<Rightarrow> (string, string) gmap" where
  "override_fields t nm =
     map (\<lambda>(suf, shown). (''beacon_'' @ nm @ suf, shown (mget_zero no_overrides (Tun_Beacons t) nm))) override_columns"

definition tunables_fields :: "tunablesPage \<Rightarrow> (string, string) gmap" where
  "tunables_fields page =
     default_fields (Defaults (tp_Tunables page)) @ concat (map (override_fields (tp_Tunables page)) (tp_BeaconNames page))"

subsection \<open>What the form sends back\<close>

lemma fmt_v_nonempty: "float_ok f \<Longrightarrow> fmt_v f \<noteq> []"
  using ParseFloat_fmt_v [of f] by (auto simp: ParseFloat_def special_float_def readFloat_def Let_def)

lemma show_int_nonempty: "show_int n \<noteq> []"
  by (simp add: show_int_def)

text \<open>The types of Go: a float64 is a number of that format, an int has 64 bits.\<close>

definition override_ok :: "Overrides \<Rightarrow> bool" where
  "override_ok ov \<longleftrightarrow>
     pred_option float_ok (o_Alpha ov) \<and> pred_option in_s64 (o_GracePeriodS ov) \<and> pred_option float_ok (o_DecayRateDbPerS ov)
     \<and> pred_option in_s64 (o_PresenceFloorDbm ov) \<and> pred_option in_s64 (o_TAwayMaxS ov)
     \<and> pred_option in_s64 (o_StickyAfterArrivalS ov) \<and> pred_option float_ok (o_HysteresisDb ov) \<and> pred_option in_s64 (o_ConfirmCount ov)"

definition defaults_ok :: "DefaultsBlock \<Rightarrow> bool" where
  "defaults_ok d \<longleftrightarrow>
     float_ok (Alpha d) \<and> in_s64 (GracePeriodS d) \<and> float_ok (DecayRateDbPerS d) \<and> in_s64 (PresenceFloorDbm d)
     \<and> in_s64 (TAwayMaxS d) \<and> in_s64 (StickyAfterArrivalS d) \<and> float_ok (HysteresisDb d) \<and> in_s64 (ConfirmCount d)"

definition typed_tunables :: "Tunables \<Rightarrow> bool" where
  "typed_tunables t \<longleftrightarrow> defaults_ok (Defaults t) \<and> list_all (\<lambda>(n, ov). override_ok ov) (Tun_Beacons t)"

lemma parseFloatField_shown:
  "FormValue r nm = fmt_v v \<Longrightarrow> float_ok v \<Longrightarrow> parseFloatField r nm fb errs = (v, errs)"
  by (simp add: parseFloatField_def parse_field_def fmt_v_nonempty ParseFloat_fmt_v)

lemma parseIntField_shown:
  "FormValue r nm = show_int v \<Longrightarrow> in_s64 v \<Longrightarrow> parseIntField r nm fb errs = (v, errs)"
  by (simp add: parseIntField_def parse_field_def show_int_nonempty Atoi_show_int)

lemma optFloat_shown:
  "FormValue r nm = derefFloat p \<Longrightarrow> pred_option float_ok p \<Longrightarrow> optFloat r nm errs = (p, errs)"
  by (cases p) (simp_all add: optFloat_def opt_field_def derefFloat_def fmt_v_nonempty ParseFloat_fmt_v)

lemma optInt_shown:
  "FormValue r nm = derefInt p \<Longrightarrow> pred_option in_s64 p \<Longrightarrow> optInt r nm errs = (p, errs)"
  by (cases p) (simp_all add: optInt_def opt_field_def derefInt_def show_int_nonempty Atoi_show_int)

text \<open>No two fields have the same name: a name of a beacon and a suffix can be told apart by the last three letters.\<close>

definition tail3 :: "string \<Rightarrow> string" where
  "tail3 s = take 3 (rev s)"

lemma tail3_append: "3 \<le> length s \<Longrightarrow> tail3 (pre @ s) = tail3 s"
  by (simp add: tail3_def)

lemma columns_distinct: "distinct (map (\<lambda>c. tail3 (fst c)) override_columns)"
  by (simp add: override_columns_def tail3_def)

lemma columns_tail:
  assumes "(suf, f) \<in> set override_columns" "(suf', g) \<in> set override_columns" "tail3 suf = tail3 suf'"
  shows "suf = suf' \<and> f = g"
  using inj_onD [OF conjunct2 [OF columns_distinct [unfolded distinct_map]] _ assms(1,2)] assms(3) by simp

lemma columns_length: "(suf, f) \<in> set override_columns \<Longrightarrow> 3 \<le> length suf"
  by (auto simp: override_columns_def)

lemma mget_unique:
  assumes "(k, v) \<in> set m" "\<And>k' v'. (k', v') \<in> set m \<Longrightarrow> k' = k \<Longrightarrow> v' = v"
  shows "mget_zero z m k = v"
proof -
  obtain v' where "mget m k = Some v'" using assms(1) by (cases "mget m k") (force simp: map_of_eq_None_iff)+
  then show ?thesis using assms(2) [OF mget_Some_in refl] by (simp add: mget_zero_def)
qed

lemma override_value:
  assumes "areq_Form r = tunables_fields page" "nm \<in> set (tp_BeaconNames page)" "(suf, shown) \<in> set override_columns"
  shows "FormValue r (''beacon_'' @ nm @ suf) = shown (mget_zero no_overrides (Tun_Beacons (tp_Tunables page)) nm)"
  unfolding FormValue_def assms(1)
proof (rule mget_unique)
  let ?g = "\<lambda>n. mget_zero no_overrides (Tun_Beacons (tp_Tunables page)) n"
  show "(''beacon_'' @ nm @ suf, shown (?g nm)) \<in> set (tunables_fields page)"
    using assms(2,3) by (force simp: tunables_fields_def override_fields_def)
  fix k' v' assume "(k', v') \<in> set (tunables_fields page)" "k' = ''beacon_'' @ nm @ suf"
  then obtain n s h where e: "''beacon_'' @ n @ s = ''beacon_'' @ nm @ suf" "v' = h (?g n)" "(s, h) \<in> set override_columns"
    by (auto simp: tunables_fields_def override_fields_def default_fields_def)
  then have "tail3 (n @ s) = tail3 (nm @ suf)" by simp
  then have "s = suf \<and> h = shown" using columns_tail [OF e(3) assms(3)] columns_length [OF e(3)] columns_length [OF assms(3)]
    by (simp add: tail3_append)
  then show "v' = shown (?g nm)" using e by simp
qed

lemma default_value:
  assumes "areq_Form r = tunables_fields page" "(k, v) \<in> set (default_fields (Defaults (tp_Tunables page)))"
  shows "FormValue r k = v"
proof -
  have "mget (default_fields d) k = Some v" if "(k, v) \<in> set (default_fields d)" for d
    by (rule in_mget_Some [OF _ that]) (simp add: default_fields_def)
  then show ?thesis using assms by (simp add: FormValue_def tunables_fields_def mget_zero_def map_add_def)
qed

text \<open>The two halves of the form read back what the page shows.\<close>

lemma parse_defaults_shown:
  assumes "areq_Form r = tunables_fields page" "defaults_ok (Defaults (tp_Tunables page))"
  shows "parse_defaults r cur = (Defaults (tp_Tunables page), [])"
proof -
  note ok = assms(2) [unfolded defaults_ok_def]
  note val = default_value [OF assms(1)]
  have fv: "FormValue r ''default_alpha'' = fmt_v (Alpha (Defaults (tp_Tunables page)))"
    "FormValue r ''default_grace_period_s'' = show_int (GracePeriodS (Defaults (tp_Tunables page)))"
    "FormValue r ''default_decay_rate_db_per_s'' = fmt_v (DecayRateDbPerS (Defaults (tp_Tunables page)))"
    "FormValue r ''default_presence_floor_dbm'' = show_int (PresenceFloorDbm (Defaults (tp_Tunables page)))"
    "FormValue r ''default_t_away_max_s'' = show_int (TAwayMaxS (Defaults (tp_Tunables page)))"
    "FormValue r ''default_sticky_after_arrival_s'' = show_int (StickyAfterArrivalS (Defaults (tp_Tunables page)))"
    "FormValue r ''default_hysteresis_db'' = fmt_v (HysteresisDb (Defaults (tp_Tunables page)))"
    "FormValue r ''default_confirm_count'' = show_int (ConfirmCount (Defaults (tp_Tunables page)))"
    by (rule val, simp add: default_fields_def)+
  show ?thesis using ok by (simp add: parse_defaults_def fv parseFloatField_shown parseIntField_shown Let_def)
qed

lemma parse_overrides_shown:
  assumes "areq_Form r = tunables_fields page" "nm \<in> set (tp_BeaconNames page)"
    and "override_ok (mget_zero no_overrides (Tun_Beacons (tp_Tunables page)) nm)"
  shows "parse_overrides r nm errs = (mget_zero no_overrides (Tun_Beacons (tp_Tunables page)) nm, errs)"
proof -
  define ov where "ov = mget_zero no_overrides (Tun_Beacons (tp_Tunables page)) nm"
  note ok = assms(3) [folded ov_def, unfolded override_ok_def]
  note val = override_value [OF assms(1,2), folded ov_def]
  have fv: "FormValue r (''beacon_'' @ nm @ ''_alpha'') = derefFloat (o_Alpha ov)"
    "FormValue r (''beacon_'' @ nm @ ''_grace_period_s'') = derefInt (o_GracePeriodS ov)"
    "FormValue r (''beacon_'' @ nm @ ''_decay_rate_db_per_s'') = derefFloat (o_DecayRateDbPerS ov)"
    "FormValue r (''beacon_'' @ nm @ ''_presence_floor_dbm'') = derefInt (o_PresenceFloorDbm ov)"
    "FormValue r (''beacon_'' @ nm @ ''_t_away_max_s'') = derefInt (o_TAwayMaxS ov)"
    "FormValue r (''beacon_'' @ nm @ ''_sticky_after_arrival_s'') = derefInt (o_StickyAfterArrivalS ov)"
    "FormValue r (''beacon_'' @ nm @ ''_hysteresis_db'') = derefFloat (o_HysteresisDb ov)"
    "FormValue r (''beacon_'' @ nm @ ''_confirm_count'') = derefInt (o_ConfirmCount ov)"
    by (rule val, simp add: override_columns_def)+
  show ?thesis unfolding ov_def [symmetric] using ok
    by (simp add: parse_overrides_def append_assoc fv optFloat_shown optInt_shown Let_def del: append.simps)
qed

definition put_override :: "Tunables \<Rightarrow> string \<Rightarrow> (string, Overrides) gmap \<Rightarrow> (string, Overrides) gmap" where
  "put_override t nm m =
     (let ov = mget_zero no_overrides (Tun_Beacons t) nm in if ov \<noteq> no_overrides then mput nm ov m else m)"

lemma form_fold:
  assumes "areq_Form r = tunables_fields page" "set names \<subseteq> set (tp_BeaconNames page)"
    and "\<And>n. override_ok (mget_zero no_overrides (Tun_Beacons (tp_Tunables page)) n)"
  shows "fold (add_override r) names (t, errs) = (t\<lparr>Tun_Beacons := fold (put_override (tp_Tunables page)) names (Tun_Beacons t)\<rparr>, errs)"
  using assms(2)
proof (induction names arbitrary: t)
  case (Cons nm names)
  have "add_override r nm (t, errs) = (t\<lparr>Tun_Beacons := put_override (tp_Tunables page) nm (Tun_Beacons t)\<rparr>, errs)"
    using Cons.prems parse_overrides_shown [OF assms(1) _ assms(3), of nm errs]
    by (simp add: add_override_def put_override_def Let_def)
  then show ?case using Cons by simp
qed simp

lemma put_overrides_get:
  "\<forall>n. mget m n = None \<or> mget m n = Some (mget_zero no_overrides (Tun_Beacons t) n) \<Longrightarrow>
   mget (fold (put_override t) names m) n =
     (if n \<in> set names \<and> mget_zero no_overrides (Tun_Beacons t) n \<noteq> no_overrides
      then Some (mget_zero no_overrides (Tun_Beacons t) n) else mget m n)"
proof (induction names arbitrary: m)
  case (Cons nm names)
  have "\<forall>n. mget (put_override t nm m) n = None \<or> mget (put_override t nm m) n = Some (mget_zero no_overrides (Tun_Beacons t) n)"
    using Cons.prems by (simp add: put_override_def Let_def mget_mput)
  from Cons.IH [OF this] Cons.prems show ?case by (auto simp: put_override_def Let_def mget_mput)
qed simp

lemma parse_form_shown:
  assumes "areq_Form r = tunables_fields page" "typed_tunables (tp_Tunables page)" "set names = set (tp_BeaconNames page)"
  obtains bs where "parseTunablesForm r cur names = (\<lparr>Defaults = Defaults (tp_Tunables page), Tun_Beacons = bs\<rparr>, [])"
    "\<And>n. mget bs n = (if n \<in> set names \<and> mget_zero no_overrides (Tun_Beacons (tp_Tunables page)) n \<noteq> no_overrides
        then Some (mget_zero no_overrides (Tun_Beacons (tp_Tunables page)) n) else None)"
proof -
  let ?t = "tp_Tunables page"
  have "override_ok no_overrides" by (simp add: override_ok_def no_overrides_def)
  then have ok: "override_ok (mget_zero no_overrides (Tun_Beacons ?t) n)" for n
    using assms(2) mget_Some_in [of "Tun_Beacons ?t" n]
    by (auto simp: typed_tunables_def mget_zero_def list_all_iff split: option.split)
  have d: "parse_defaults r (Defaults cur) = (Defaults ?t, [])"
    using assms(2) by (intro parse_defaults_shown [OF assms(1)]) (simp add: typed_tunables_def)
  show thesis
  proof (rule that)
    show "parseTunablesForm r cur names
        = (\<lparr>Defaults = Defaults ?t, Tun_Beacons = fold (put_override ?t) names []\<rparr>, [])"
      by (simp add: parseTunablesForm_def d form_fold [OF assms(1) equalityD1 [OF assms(3)] ok])
    show "mget (fold (put_override ?t) names []) n = (if n \<in> set names
        \<and> mget_zero no_overrides (Tun_Beacons ?t) n \<noteq> no_overrides then Some (mget_zero no_overrides (Tun_Beacons ?t) n) else None)" for n
      using put_overrides_get [of "[]" ?t names n] by simp
  qed
qed

lemma validate_beacons_all: "validate_beacons m = None \<longleftrightarrow> (\<forall>(n, ov) \<in> set m. validateOverrides ov = None)"
  by (induction m rule: validate_beacons.induct) (auto split: option.split)

text \<open>An override without a value is as good as none.\<close>

lemma ResolveFor_zero:
  "ResolveFor t n = ResolveFor \<lparr>Defaults = Defaults t, Tun_Beacons = [(n, mget_zero no_overrides (Tun_Beacons t) n)]\<rparr> n"
proof (cases "mget (Tun_Beacons t) n")
  case None
  have "ResolveFor \<lparr>Defaults = d, Tun_Beacons = [(n, no_overrides)]\<rparr> n = d" for d
    by (simp add: ResolveFor_def no_overrides_def or_else_def)
  with None show ?thesis by (simp add: mget_zero_def) (simp add: ResolveFor_def)
qed (simp add: ResolveFor_def mget_zero_def)

lemma ResolveFor_shown:
  assumes "Defaults t' = Defaults t" "mget_zero no_overrides (Tun_Beacons t') n = mget_zero no_overrides (Tun_Beacons t) n"
  shows "ResolveFor t' n = ResolveFor t n"
  unfolding ResolveFor_zero [of t'] ResolveFor_zero [of t n] assms ..

lemma name_shown:
  assumes "mget (e_beacons e) k = Some bs"
  shows "bs_name bs \<in> set (beaconNames e)"
proof -
  have "sn_Name (snapshot_beacon e (k, bs)) \<in> set (beaconNames e)"
    using mget_Some_in [OF assms] unfolding beaconNames_def Snapshot_def by simp
  then show ?thesis by (simp add: snapshot_beacon_def Let_def)
qed

subsection \<open>The form shown is the form sent\<close>

lemma candidate_valid:
  assumes "Validate (Some t) = None" "Defaults t' = Defaults t" "mwf (Tun_Beacons t')"
    and "\<And>n ov. mget (Tun_Beacons t') n = Some ov \<Longrightarrow> mget (Tun_Beacons t) n = Some ov"
  shows "Validate (Some t') = None"
proof -
  have v: "validateDefaults (Defaults t) = None" "validate_beacons (Tun_Beacons t) = None"
    using assms(1) by (auto simp: Validate_def split: option.splits)
  have "validateOverrides ov = None" if "(n, ov) \<in> set (Tun_Beacons t')" for n ov
    using validate_beacons_get [OF v(2) assms(4) [OF in_mget_Some [OF assms(3) that]]] .
  then show ?thesis using v(1) assms(2) by (auto simp: Validate_def validate_beacons_all)
qed

text \<open>
  C25: the form of the tunables page is a faithful copy of the tunables. Let an administrator open the page in the state \<open>w\<close>, change
  nothing, and save in a later state \<open>v\<close>, after the engine has gone on and the map of the beacons has come out in another
  order, but with the same tracked names and the same tunables in force. If the tunables are valid and the store works, the
  answer is the redirect, the defaults are the very same numbers, and every tracked beacon is judged by the values it was
  judged by before. (Every float64 is printed with enough digits for that.) Overrides of names that are not tracked are not
  part of the page, and are gone after the save.
\<close>

theorem tunables_form_roundtrip:
  assumes "areq_Method g = ''GET''" "handleTunables en g w = (TunablesResp page, w)"
    and "areq_Method r = ''POST''" "areq_FormOK r" "areq_Form r = tunables_fields page"
    and "aw_current v = aw_current w" "set (beaconNames (aw_engine v)) = set (beaconNames (aw_engine w))"
    and "typed_tunables (aw_current w)" "Validate (Some (aw_current w)) = None" "ae_txFault en' = (\<lambda>_. False)" "engine_inv (aw_engine v)"
    and "handleTunables en' r v = (resp, v1)"
  shows "resp = Redirect ''/admin/tunables'' [(''saved'', QText ''1'')]
    \<and> Defaults (aw_current v1) = Defaults (aw_current w) \<and> LoadAll False False (aw_db v1) = Inr (aw_current v1)
    \<and> e_beacons (aw_engine v1) = e_beacons (aw_engine v)
    \<and> (\<forall>k bs. mget (e_beacons (aw_engine v1)) k = Some bs \<longrightarrow> tun_of (aw_engine v1) bs = ResolveFor (aw_current w) (bs_name bs))
    \<and> (\<forall>n. mget (Tun_Beacons (aw_current v1)) n \<noteq> None \<longrightarrow> n \<in> set (beaconNames (aw_engine v)))"
proof -
  let ?t = "aw_current w" and ?names = "beaconNames (aw_engine v)"
  have page: "tp_Tunables page = ?t" "tp_BeaconNames page = beaconNames (aw_engine w)"
    using assms(1,2) by (auto simp: handleTunables_def)
  obtain bs where c: "parseTunablesForm r (aw_current v) ?names = (\<lparr>Defaults = Defaults ?t, Tun_Beacons = bs\<rparr>, [])"
    and get: "\<And>n. mget bs n = (if n \<in> set ?names \<and> mget_zero no_overrides (Tun_Beacons ?t) n \<noteq> no_overrides
        then Some (mget_zero no_overrides (Tun_Beacons ?t) n) else None)"
    using parse_form_shown [OF assms(5), of ?names "aw_current v"] assms(7,8) page by metis
  let ?c = "\<lparr>Defaults = Defaults ?t, Tun_Beacons = bs\<rparr>"
  have m: "mwf bs" using parseTunablesForm_mwf [of r "aw_current v" ?names] by (simp add: c)
  have valid: "Validate (Some ?c) = None"
    by (rule candidate_valid [OF assms(9)]) (use m get in \<open>auto simp: mget_zero_def split: if_splits option.splits\<close>)
  have save: "SaveAll (ae_txFault en') (Some ?c) (aw_db v)
      = (None, (aw_db v)\<lparr>db_defaults := Some (Defaults ?c), db_overrides := Tun_Beacons ?c\<rparr>)"
    unfolding assms(10) by (rule SaveAll_ok [OF valid]) (simp add: m)
  have post: "handleTunables en' r v = handleTunablesPost en' r v" using assms(3) by (simp add: handleTunables_def)
  have fin: "resp = Redirect ''/admin/tunables'' [(''saved'', QText ''1'')]"
    "v1 = v\<lparr>aw_db := (aw_db v)\<lparr>db_defaults := Some (Defaults ?c), db_overrides := Tun_Beacons ?c\<rparr>,
            aw_engine := ApplyTunables (Some ?c) (aw_engine v), aw_current := ?c\<rparr>"
    using assms(12) unfolding post handleTunablesPost_def by (simp_all add: assms(4) c valid save Let_def)
  have inv: "engine_inv (aw_engine v1)" using ApplyTunables_inv [OF assms(11)] by (simp add: fin)
  have same: "e_beacons (aw_engine v1) = e_beacons (aw_engine v)" "e_tun (aw_engine v1) = ?c" by (simp_all add: fin ApplyTunables_def)
  have "tun_of (aw_engine v1) b = ResolveFor ?t (bs_name b)" if b: "mget (e_beacons (aw_engine v1)) k = Some b" for k b
  proof -
    have "mget_zero no_overrides bs (bs_name b) = mget_zero no_overrides (Tun_Beacons ?t) (bs_name b)"
      using get [of "bs_name b"] name_shown [OF b [unfolded same]] by (simp add: mget_zero_def [of _ bs])
    then have "ResolveFor ?c (bs_name b) = ResolveFor ?t (bs_name b)" by (intro ResolveFor_shown) simp_all
    then show ?thesis using engine_invD(3) [OF inv b] by (simp add: tun_of_def mget_zero_def same)
  qed
  moreover have "LoadAll False False (aw_db v1) = Inr (aw_current v1)"
    by (simp add: fin LoadAll_def loadDefaults_def loadOverrides_def)
  ultimately show ?thesis using fin(1) get same by (simp add: fin(2))
qed

definition shown_tun :: Tunables where
  "shown_tun = sample_tun\<lparr>Tun_Beacons := [(''fob'', no_overrides\<lparr>o_Alpha := Some (Fin (1 / 2)), o_ConfirmCount := Some 3\<rparr>), (''gone'', no_overrides\<lparr>o_TAwayMaxS := Some 9\<rparr>)]\<rparr>"

lemma repr53_half: "repr53 (1 / 2)"
  unfolding repr53_def by (rule exI [of _ 1], rule exI [of _ "- 1"]) simp

theorem tunables_form_roundtrip_witness:
  "let w = (sample_world [])\<lparr>aw_current := shown_tun\<rparr>;
       page = \<lparr>tp_Tunables = shown_tun, tp_BeaconNames = [''fob''], tp_Errors = [], tp_FormReposted = False\<rparr>;
       (resp, w1) = handleTunables sample_env (sample_post ''/admin/tunables'' (tunables_fields page)) w
   in resp = Redirect ''/admin/tunables'' [(''saved'', QText ''1'')] \<and> Defaults (aw_current w1) = Defaults shown_tun
     \<and> mget (Tun_Beacons (aw_current w1)) ''gone'' = None"
proof -
  let ?w = "(sample_world [])\<lparr>aw_current := shown_tun\<rparr>"
  let ?page = "\<lparr>tp_Tunables = shown_tun, tp_BeaconNames = [''fob''], tp_Errors = [], tp_FormReposted = False\<rparr>"
  let ?g = "(sample_post ''/admin/tunables'' [])\<lparr>areq_Method := ''GET''\<rparr>"
  let ?r = "sample_post ''/admin/tunables'' (tunables_fields ?page)"
  have names: "beaconNames (aw_engine ?w) = [''fob'']"
    by (simp add: sample_world_def beaconNames_def Snapshot_def sample_engine_sel snapshot_beacon_def newBeaconState_def Let_def)
  have get: "handleTunables sample_env ?g ?w = (TunablesResp ?page, ?w)"
    using names by (simp add: handleTunables_def sample_post_def)
  have floats: "float_ok (Fin (1 / 2))" "float_ok (Fin 2)" "float_ok (Fin 4)"
    using rnd_of_int [of 2] rnd_of_int [of 4] rnd_repr [of "1 / 2"] repr53_half by (simp_all add: float_ok_def)
  have typed: "typed_tunables shown_tun"
    by (simp add: typed_tunables_def defaults_ok_def override_ok_def shown_tun_def sample_tun_def sample_defaults_def no_overrides_def floats in_s64_def)
  have valid: "Validate (Some shown_tun) = None"
    by (simp add: shown_tun_def sample_tun_def sample_defaults_def no_overrides_def validate_eval)
  have inv: "engine_inv (aw_engine ?w)" using sample_inv by (simp add: sample_world_def)
  obtain resp w1 where post: "handleTunables sample_env ?r ?w = (resp, w1)" by (cases "handleTunables sample_env ?r ?w")
  have "resp = Redirect ''/admin/tunables'' [(''saved'', QText ''1'')] \<and> Defaults (aw_current w1) = Defaults shown_tun
    \<and> (\<forall>n. mget (Tun_Beacons (aw_current w1)) n \<noteq> None \<longrightarrow> n \<in> set (beaconNames (aw_engine ?w)))"
    using tunables_form_roundtrip [OF _ get _ _ _ refl refl _ _ _ inv post] typed valid by (simp add: sample_post_def sample_env_def)
  then show ?thesis unfolding Let_def post prod.case names by auto
qed

end
