(* ===== verification/Bridge.thy ===== *)
theory Bridge
  imports Admin_Limits Ingest_Guarantees Mqtt_Guarantees
begin

section \<open>The bridge (cmd/briihass/main.go)\<close>

text \<open>
  \<open>main.go\<close> wires the components: the start (\<open>run\<close> up to the listeners), the callbacks it hands to the ingest server, the
  goroutines that move events, telemetry and snapshots between the components, the readiness probe, and the end. The state of the
  running process is the record \<open>World\<close>; the ingest server's callbacks are functions on it, and the admin server works on its view
  \<open>admin_view\<close>. The environment variables are a function, the faults and row orders of the database are fields of \<open>BootEnv\<close>.
\<close>

subsection \<open>Small helpers\<close>

definition envOr :: "(string \<Rightarrow> string) \<Rightarrow> string \<Rightarrow> string \<Rightarrow> string" where
  "envOr getenv name dflt = (let v = getenv name in if v \<noteq> [] then v else dflt)"

definition splitCSV :: "string \<Rightarrow> string list" where
  "splitCSV s = (if s = [] then [] else filter (\<lambda>p. p \<noteq> []) (map TrimSpace (split_on (CHR '','') s)))"

text \<open>The loop of \<open>fmtInt\<close>: the digits are written from the end of the buffer; \<open>n\<close> is a 64-bit integer.\<close>

function fmt_loop :: "int \<Rightarrow> string \<Rightarrow> string" where
  "fmt_loop n buf = (if n > 0 then fmt_loop (gquot n 10) (''0123456789'' ! nat (grem n 10) # buf) else buf)"
  by pat_completeness auto
termination by (relation "measure (\<lambda>(n, buf). nat n)") (auto simp: gquot_def)

definition fmtInt :: "int \<Rightarrow> string" where
  "fmtInt n =
     (if n = 0 then ''0''
      else (let neg = n < 0; m = (if neg then s64 (- n) else n); buf = fmt_loop m [] in if neg then CHR ''-'' # buf else buf))"

definition fmtUint :: "16 word \<Rightarrow> string" where
  "fmtUint n = fmtInt (uint n)"

record heartbeatState =
  hb_online :: "string list"
  hb_offline :: "string list"

definition newHeartbeatState :: heartbeatState where
  "newHeartbeatState = \<lparr>hb_online = [], hb_offline = []\<rparr>"

definition hb_set :: "string list \<Rightarrow> string list \<Rightarrow> heartbeatState \<Rightarrow> heartbeatState" where
  "hb_set online offline h = h\<lparr>hb_online := online, hb_offline := offline\<rparr>"

definition hb_get :: "heartbeatState \<Rightarrow> string list \<times> string list" where
  "hb_get h = (hb_online h, hb_offline h)"

subsection \<open>The running process\<close>

record World =
  w_db :: Database
  w_engine :: Engine
  w_pub :: Publisher
  w_snap :: SettingsSnapshot
  w_current :: Tunables
  w_obs :: ObservationsWriter
  w_raw :: RawPostsWriter
  w_hb :: heartbeatState
  w_retention :: RetentionRunner

definition admin_view :: "World \<Rightarrow> AdminWorld" where
  "admin_view w =
     \<lparr>aw_db = w_db w, aw_engine = w_engine w, aw_pub = w_pub w, aw_snap = Some (w_snap w), aw_current = w_current w\<rparr>"

definition put_admin :: "AdminWorld \<Rightarrow> World \<Rightarrow> World" where
  "put_admin a w =
     w\<lparr>w_db := aw_db a, w_engine := aw_engine a, w_pub := aw_pub a,
       w_snap := (case aw_snap a of None \<Rightarrow> w_snap w | Some s \<Rightarrow> s), w_current := aw_current a\<rparr>"

subsection \<open>The callbacks of the ingest server\<close>

text \<open>What a call meets: how the two channels move meanwhile, and what the sequence answers.\<close>

record CallEnv =
  ce_obs :: "obs_env \<times> obs_env"
  ce_raw :: "raw_env \<times> raw_env"
  ce_nextval :: "Database \<Rightarrow> int option \<times> Database"

definition capture_settings :: "World \<Rightarrow> CaptureSettings" where
  "capture_settings w =
     (let st = snap_Get (w_snap w) in
      \<lparr>cs_CapturePerEventHex = capturePerEventHex st, cs_CaptureFullPosts = captureFullPosts st\<rparr>)"

definition record_raw_post :: "CallEnv \<Rightarrow> RawPostRecord \<Rightarrow> World \<Rightarrow> int option \<times> World" where
  "record_raw_post ce p w =
     (let enc = (if EqualFold_ascii (rec_ContentEncoding p) ''gzip'' then EncodingGzip else EncodingIdentity);
          (rid, db1) = AllocateID (ce_nextval ce) (w_db w);
          w1 = w\<lparr>w_db := db1\<rparr>
      in case rid of
           None \<Rightarrow> (None, w1)
         | Some i \<Rightarrow>
             (Some i, w1\<lparr>w_raw := raw_Submit (fst (ce_raw ce)) (snd (ce_raw ce)) i
                \<lparr>rp_ID = 0, rp_ReceivedAt = 0, rp_Endpoint = rec_Endpoint p, rp_RemoteAddr = rec_RemoteAddr p,
                 rp_ContentEncoding = enc, rp_Body = rec_Body p, rp_BodySHA256 = rec_BodySHA256 p\<rparr> (w_raw w)\<rparr>))"

definition observation_row :: "ObservationRecord \<Rightarrow> Observation" where
  "observation_row ob =
     \<lparr>ob_ID = 0, ob_ObservedAt = or_ObservedAt ob, ob_Kind = or_Kind ob, ob_Key = or_Key ob, ob_APMac = or_APMac ob,
      ob_APName = or_APName ob, ob_RSSI = or_RSSI ob, ob_TxPower = or_TxPower ob, ob_BatteryMV = or_BatteryMV ob,
      ob_TemperatureC = or_TemperatureC ob, ob_LocalName = or_LocalName ob, ob_RawHex = or_RawHex ob,
      ob_RawPostID = or_RawPostID ob, ob_Tracked = or_Tracked ob\<rparr>"

definition record_observation :: "CallEnv \<Rightarrow> ObservationRecord \<Rightarrow> World \<Rightarrow> World" where
  "record_observation ce ob w =
     w\<lparr>w_obs := obs_Submit (fst (ce_obs ce)) (snd (ce_obs ce)) (observation_row ob) (w_obs w)\<rparr>"

definition submit_sighting :: "Sighting \<Rightarrow> World \<Rightarrow> World" where
  "submit_sighting s w = w\<lparr>w_engine := Submit s (w_engine w)\<rparr>"

definition note_heartbeat :: "string list \<Rightarrow> string list \<Rightarrow> World \<Rightarrow> World" where
  "note_heartbeat online offline w = w\<lparr>w_hb := hb_set online offline (w_hb w)\<rparr>"

definition ingest_options :: "CallEnv \<Rightarrow> string \<Rightarrow> string list \<Rightarrow> World IngestOptions" where
  "ingest_options ce apiKey cidrs =
     \<lparr>APIKey = apiKey, AllowedSourceCIDRs = cidrs, PresenceSubmit = Some submit_sighting, OnHeartbeat = Some note_heartbeat,
      BeaconLookup = Some (\<lambda>k w. IsTracked k (w_engine w)), MaxBodyBytes = 0, CaptureSettingsFn = Some capture_settings,
      RecordRawPost = Some (record_raw_post ce), RecordObservation = Some (record_observation ce),
      ing_has_Logger = True, ing_has_Metrics = True\<rparr>"

text \<open>The same server when its calls meet other circumstances.\<close>

definition meeting :: "CallEnv \<Rightarrow> World Server \<Rightarrow> World Server" where
  "meeting ce s =
     s\<lparr>srv_opts := (srv_opts s)\<lparr>RecordRawPost := Some (record_raw_post ce), RecordObservation := Some (record_observation ce)\<rparr>\<rparr>"

subsection \<open>Topology, presence and the channels between the components\<close>

datatype load_error = ListBeaconsFailed db_error | ListZonesFailed db_error | BadTracked config_error | BadTopology config_error

definition loadTopologyFromStore :: "bool \<Rightarrow> (beacon_row list \<Rightarrow> beacon_row list) \<Rightarrow> bool \<Rightarrow> (zone_row list \<Rightarrow> zone_row list)
    \<Rightarrow> Database \<Rightarrow> load_error + Topology" where
  "loadTopologyFromStore beaconsFault beaconOrder zonesFault zoneOrder db =
     (case ListBeacons beaconsFault beaconOrder db of
        Inl e \<Rightarrow> Inl (ListBeaconsFailed e)
      | Inr bs \<Rightarrow>
          (case ListZones zonesFault zoneOrder db of
             Inl e \<Rightarrow> Inl (ListZonesFailed e)
           | Inr zs \<Rightarrow>
               (let zoneMap = zone_map zs in
                case tracked_of bs [] of
                  Inl e \<Rightarrow> Inl (BadTracked e)
                | Inr tracked \<Rightarrow>
                    (case NewTopology zoneMap tracked of Inl e \<Rightarrow> Inl (BadTopology e) | Inr tp \<Rightarrow> Inr tp))))"

definition snapshot_of_row :: "PresenceStateRow \<Rightarrow> BeaconSnapshot option" where
  "snapshot_of_row r =
     map_option (\<lambda>k. \<lparr>sn_Beacon = k, sn_Name = [], sn_CurrentZone = ps_CurrentZone r, sn_CurrentAP = ps_CurrentAP r,
         sn_LastArrival = ps_LastArrival r, sn_StickyActive = False, sn_APs = [], sn_BatteryMV = None, sn_TemperatureC = None\<rparr>)
       (FromStoreKey (ps_Kind r) (ps_Key r))"

definition rehydrate :: "bool \<Rightarrow> Database \<Rightarrow> Engine \<Rightarrow> Engine" where
  "rehydrate fault db e =
     (case LoadPresenceState fault db of
        Inl err \<Rightarrow> e
      | Inr rows \<Rightarrow> fst (RestoreState (List.map_filter snapshot_of_row rows) e))"

definition row_of_snapshot :: "BeaconSnapshot \<Rightarrow> PresenceStateRow" where
  "row_of_snapshot bs =
     \<lparr>ps_Kind = kind (sn_Beacon bs), ps_Key = key (sn_Beacon bs), ps_CurrentZone = sn_CurrentZone bs,
      ps_CurrentAP = sn_CurrentAP bs, ps_LastArrival = sn_LastArrival bs\<rparr>"

definition persistPresence :: "(nat \<Rightarrow> bool) \<Rightarrow> World \<Rightarrow> World" where
  "persistPresence fault w =
     w\<lparr>w_db := snd (SavePresenceState fault (map row_of_snapshot (sn_Beacons (Snapshot (w_engine w)))) (w_db w))\<rparr>"

text \<open>The pump from the engine's channel to the publisher, one event.\<close>

definition pump :: "env \<Rightarrow> env \<Rightarrow> World \<Rightarrow> World" where
  "pump env1 env2 w =
     (case out_queue (w_engine w) of
        [] \<Rightarrow> w
      | ev # q \<Rightarrow> w\<lparr>w_engine := (w_engine w)\<lparr>out_queue := q\<rparr>, w_pub := Publish env1 env2 ev (w_pub w)\<rparr>)"

definition telemetry_tick :: "World \<Rightarrow> World" where
  "telemetry_tick w = w\<lparr>w_engine := RepublishAll (w_engine w)\<rparr>"

text \<open>A birth message of Home Assistant; \<open>OnHAOnline\<close> is \<open>engine.RepublishAll\<close>.\<close>

definition birth :: "string \<Rightarrow> World \<Rightarrow> World" where
  "birth body w =
     (if TrimSpace body \<noteq> payloadOnline then w
      else w\<lparr>w_pub := onBirthMessage body (w_pub w), w_engine := RepublishAll (w_engine w)\<rparr>)"

text \<open>One turn of the publisher's loop.\<close>

definition publish_next :: "marshal_fn \<Rightarrow> broker_fn \<Rightarrow> World \<Rightarrow> World" where
  "publish_next marshal broker w = w\<lparr>w_pub := drain_step marshal broker (w_pub w)\<rparr>"

subsection \<open>Hooks and counters\<close>

text \<open>The gauge updates of the hook \<open>OnEventEmitted\<close>; latencies outside \<open>[0, 60)\<close> seconds are not observed.\<close>

datatype event_metric =
    ArrivalLatencySeconds float64
  | BeaconInSticky string float64
  | PerAPEffectiveRSSI string string float64

definition event_metrics :: "PresenceEvent \<Rightarrow> event_metric list" where
  "event_metrics ev =
     (let lat = dur_seconds (time_sub (ev_EmittedAt ev) (ev_LastSeen ev)) in
      (if \<not> time_is_zero (ev_LastSeen ev) \<and> ev_State ev \<noteq> StateNotHome \<and> fle fzero lat \<and> flt lat (f_of_int 60)
       then [ArrivalLatencySeconds lat] else [])
      @ [BeaconInSticky (ev_BeaconName ev) (if ev_StickyActive ev then fone else fzero)]
      @ (if ev_State ev \<noteq> StateNotHome \<and> ev_APMac ev \<noteq> []
         then [PerAPEffectiveRSSI (ev_BeaconName ev) (ev_APMac ev) (ev_RSSIEffective ev)] else []))"

text \<open>The log of a drop hook: at most one line a second. The state is the time of the last line in nanoseconds.\<close>

definition drop_log :: "gtime \<Rightarrow> int \<Rightarrow> bool \<times> int" where
  "drop_log now prev =
     (let t = unix_nano now in if s64 (t - prev) \<ge> second then (True, t) else (False, prev))"

subsection \<open>The start of the process\<close>

record BootEnv =
  bt_getenv :: "string \<Rightarrow> string"
  bt_up :: "nat \<Rightarrow> bool"
  bt_cancelled :: "nat \<Rightarrow> bool"
  bt_schemaFault :: bool
  bt_seedFile :: "bytes option"
  bt_yaml :: "bytes \<Rightarrow> Tunables option"
  bt_loadFaults :: "bool \<times> bool"
  bt_saveFault :: "nat \<Rightarrow> bool"
  bt_beaconsFault :: bool
  bt_beaconOrder :: "beacon_row list \<Rightarrow> beacon_row list"
  bt_zonesFault :: bool
  bt_zoneOrder :: "zone_row list \<Rightarrow> zone_row list"
  bt_settingsFault :: bool
  bt_presenceFault :: bool
  bt_now :: gtime
  bt_call :: CallEnv

datatype boot_error =
    MissingEnv string
  | PostgresFailed connect_result
  | SchemaFailed db_error
  | SeedUnreadable
  | SeedFailed db_error
  | TopologyFailed load_error
  | CrossValidateFailed config_error
  | SettingsFailed db_error
  | MqttFailed mqtt_error
  | IngestFailed ingest_error
  | AdminFailed admin_new_error

record Bridge =
  bridge_ingest :: "World Server"
  bridge_admin :: "AdminOptions option"
  bridge_world :: World

definition obs_options :: WriterOptions where
  "obs_options = \<lparr>wo_BufferSize = 2048, wo_MaxBatch = 256, wo_FlushInterval = second\<rparr>"

definition raw_options :: WriterOptions where
  "raw_options = \<lparr>wo_BufferSize = 512, wo_MaxBatch = 32, wo_FlushInterval = second\<rparr>"

definition mqtt_options :: "(string \<Rightarrow> string) \<Rightarrow> Options" where
  "mqtt_options getenv =
     \<lparr>BrokerURL = envOr getenv ''MQTT_BROKER_URL'' ''tcp://localhost:1883'', Username = getenv ''MQTT_USER'',
      Password = getenv ''MQTT_PASS'', ClientID = envOr getenv ''MQTT_CLIENT_ID'' ''briihass'', DiscoveryPrefix = [],
      HABirthTopic = [], BufferSize = 0, ConnectTimeout = 0, has_Logger = True\<rparr>"

definition admin_options :: "string \<Rightarrow> string \<Rightarrow> Tunables \<Rightarrow> AdminOptions" where
  "admin_options user pass tun =
     \<lparr>adm_User = user, adm_Pass = pass, adm_hasEngine = True, adm_hasStore = True, adm_Current = Some tun,
      adm_hasLogger = True, adm_hasDevices = True, adm_hasZones = True, adm_hasRawPosts = True, adm_hasSettings = True,
      adm_hasRemove = True, adm_hasReconcile = True, adm_hasResync = True\<rparr>"

text \<open>What the process holds once the store has answered: tunables, topology and settings.\<close>

definition load_config :: "BootEnv \<Rightarrow> Database \<Rightarrow> (boot_error + Tunables \<times> Topology \<times> Settings) \<times> Database" where
  "load_config bt db =
     (case NewPostgres (bt_up bt) (bt_cancelled bt) 10 of
        Connected_at n \<Rightarrow>
          (case applySchema (bt_schemaFault bt) db of
             (Some e, db0) \<Rightarrow> (Inl (SchemaFailed e), db0)
           | (None, db0) \<Rightarrow>
          (case bt_seedFile bt of
             None \<Rightarrow> (Inl SeedUnreadable, db0)
           | Some seed \<Rightarrow>
               (case SeedFromYAMLIfEmpty (fst (bt_loadFaults bt)) (snd (bt_loadFaults bt)) (bt_saveFault bt) (bt_yaml bt) seed db0 of
                  (Inl e, db1) \<Rightarrow> (Inl (SeedFailed e), db1)
                | (Inr tun, db1) \<Rightarrow>
                    (case loadTopologyFromStore (bt_beaconsFault bt) (bt_beaconOrder bt) (bt_zonesFault bt) (bt_zoneOrder bt) db1 of
                       Inl e \<Rightarrow> (Inl (TopologyFailed e), db1)
                     | Inr tp \<Rightarrow>
                         (case CrossValidate (Some tp) (Some tun) of
                            Inl e \<Rightarrow> (Inl (CrossValidateFailed e), db1)
                          | Inr orphans \<Rightarrow>
                              (case LoadSettings (bt_settingsFault bt) db1 of
                                 Inl e \<Rightarrow> (Inl (SettingsFailed e), db1)
                               | Inr st \<Rightarrow> (Inr (tun, tp, st), db1)))))))
      | c \<Rightarrow> (Inl (PostgresFailed c), db))"

text \<open>The components, wired: the engine is rehydrated before the ingest server exists.\<close>

definition wire_world :: "BootEnv \<Rightarrow> Tunables \<Rightarrow> Topology \<Rightarrow> Settings \<Rightarrow> Publisher \<Rightarrow> Database \<Rightarrow> World" where
  "wire_world bt tun tp st p db =
     \<lparr>w_db = db, w_engine = rehydrate (bt_presenceFault bt) db (NewEngine (Some tp) tun (bt_now bt) (Some 1024)),
      w_pub = p, w_snap = NewSettingsSnapshot st, w_current = tun, w_obs = NewObservationsWriter obs_options,
      w_raw = NewRawPostsWriter raw_options, w_hb = newHeartbeatState, w_retention = NewRetentionRunner hour\<rparr>"

definition boot :: "BootEnv \<Rightarrow> Database \<Rightarrow> (boot_error + Bridge) \<times> Database" where
  "boot bt db =
     (let getenv = bt_getenv bt; apiKey = getenv ''INGEST_SHARED_SECRET'' in
      if apiKey = [] then (Inl (MissingEnv ''INGEST_SHARED_SECRET''), db)
      else if getenv ''MQTT_USER'' = [] \<or> getenv ''MQTT_PASS'' = [] then (Inl (MissingEnv ''MQTT_USER''), db)
      else if getenv ''BRIIHASS_POSTGRES_DSN'' = [] then (Inl (MissingEnv ''BRIIHASS_POSTGRES_DSN''), db)
      else (case load_config bt db of
          (Inl e, db1) \<Rightarrow> (Inl e, db1)
        | (Inr (tun, tp, st), db1) \<Rightarrow>
            (case New (mqtt_options getenv) of
               Inl e \<Rightarrow> (Inl (MqttFailed e), db1)
             | Inr p \<Rightarrow>
                 (case ing_New (ingest_options (bt_call bt) apiKey (splitCSV (getenv ''INGEST_ALLOWED_CIDRS''))) of
                    Inl e \<Rightarrow> (Inl (IngestFailed e), db1)
                  | Inr srv \<Rightarrow>
                      (let user = getenv ''ADMIN_USER''; pass = getenv ''ADMIN_PASS''; w = wire_world bt tun tp st p db1;
                           opts = admin_options user pass tun
                       in if user \<noteq> [] \<and> pass \<noteq> [] then
                            (case adm_New opts of
                               Inl e \<Rightarrow> (Inl (AdminFailed e), db1)
                             | Inr t \<Rightarrow> (Inr \<lparr>bridge_ingest = srv, bridge_admin = Some opts, bridge_world = w\<rparr>, db1))
                          else (Inr \<lparr>bridge_ingest = srv, bridge_admin = None, bridge_world = w\<rparr>, db1))))))"

subsection \<open>Probes\<close>

definition readyAfter :: duration where
  "readyAfter = 60 * second"

text \<open>\<open>metricsHandler\<close>: the status for a path; \<open>conn\<close> is whether the publisher is connected.\<close>

definition metricsHandler :: "gtime \<Rightarrow> gtime \<Rightarrow> bool \<Rightarrow> string \<Rightarrow> nat" where
  "metricsHandler startedAt now conn path =
     (if path = ''/metrics'' then 200
      else if path = ''/health'' then 200
      else if path = ''/ready'' then
        (if time_sub now startedAt < readyAfter then 200 else if \<not> conn then 503 else 200)
      else 404)"

subsection \<open>The end of the process\<close>

text \<open>
  The drain: the writers flush what they hold, and the presence snapshot is saved a last time. The pump and the publisher stop at
  once when the context ends, so what their channels hold is not sent.
\<close>

definition shutdown :: "(Observation, store_error, Database) insert_fn \<Rightarrow> (rawPostJob, store_error, Database) insert_fn
    \<Rightarrow> (nat \<Rightarrow> bool) \<Rightarrow> World \<Rightarrow> World" where
  "shutdown insertObs insertRaw fault w =
     (let (ow, db1) = obs_drainAndFlush insertObs (w_obs w, w_db w);
          (rw, db2) = raw_drainAndFlush insertRaw (w_raw w, db1)
      in persistPresence fault (w\<lparr>w_obs := ow, w_raw := rw, w_db := db2\<rparr>))"

end
