(* ===== verification/Bridge_Guarantees.thy ===== *)
theory Bridge_Guarantees
  imports Bridge
begin

section \<open>Guarantees of the wired bridge\<close>

text \<open>
  What the components promise together. A post drives the engine with exactly the sightings of the tracked beacons; an arrival
  reaches the broker; a birth message of Home Assistant restores what is retained there; a restart keeps the zones; every
  interleaving of requests, ticks, pumps, flushes and prunes keeps an invariant under which the bridge can start again.
\<close>

subsection \<open>Two ways to the same topology\<close>

lemma loadTopology_read:
  "loadTopologyFromStore (ae_beaconsFault en) (ae_beaconOrder en) (ae_zonesFault en) (ae_zoneOrder en) db = Inr tp
     \<longleftrightarrow> read_topology en db = Inr tp"
  by (simp add: loadTopologyFromStore_def read_topology_def Let_def split: sum.split)

subsection \<open>A post drives the engine\<close>

lemma Submit_beacons:
  "mget (e_beacons (Submit s e)) k =
     (if k = s_Beacon s
      then map_option (\<lambda>bs. fst (recomputeOne (e_top e) (tun_of e bs) (note_sighting (tun_of e bs) s (clk e) bs) (clk e)
             (ToLower (s_APMac s)))) (mget (e_beacons e) k)
      else mget (e_beacons e) k)"
proof (cases "mget (e_beacons e) (s_Beacon s)")
  case None
  then show ?thesis by (simp add: Submit_def handleSighting_def logged_def)
next
  case (Some bs)
  have "tun_of (put_beacon (s_Beacon s) (note_sighting (tun_of e bs) s (clk e) bs) e) (note_sighting (tun_of e bs) s (clk e) bs)
      = tun_of e bs" by (intro tun_of_cong) simp_all
  with Some show ?thesis
    by (simp add: Submit_def handleSighting_def recompute_at_def apply_at_def mget_mput split_beta)
qed

lemma Submit_tracked: "IsTracked k (Submit s e) = IsTracked k e"
  by (auto simp: IsTracked_def Submit_beacons recomputeOne_keeps split: option.split)

lemma Submits_tracked: "IsTracked k (fold Submit ss e) = IsTracked k e"
  by (induction ss arbitrary: e) (simp_all add: Submit_tracked)

definition tracked_sightings :: "string \<Rightarrow> string \<Rightarrow> Engine \<Rightarrow> report list \<Rightarrow> Sighting list" where
  "tracked_sightings ap gw e rps =
     map (\<lambda>rp. sighting_of ap gw (fst (IsTracked (rp_key rp) e)) rp) (filter (\<lambda>rp. snd (IsTracked (rp_key rp) e)) rps)"

definition recorded_rows :: "string \<Rightarrow> string \<Rightarrow> bool \<Rightarrow> int option \<Rightarrow> Engine \<Rightarrow> report list \<Rightarrow> Observation list" where
  "recorded_rows ap gw hexOn rid e rps =
     map (\<lambda>rp. observation_row (observation_of ap gw hexOn rid (snd (IsTracked (rp_key rp) e)) rp)) rps"

lemma take_reports:
  "fold (take_report (\<lambda>k w. IsTracked k (w_engine w)) (record_observation ce) submit_sighting ap gw hexOn rid) rps w =
     w\<lparr>w_engine := fold Submit (tracked_sightings ap gw (w_engine w) rps) (w_engine w),
       w_obs := fold (obs_Submit (fst (ce_obs ce)) (snd (ce_obs ce))) (recorded_rows ap gw hexOn rid (w_engine w) rps) (w_obs w)\<rparr>"
proof (induction rps arbitrary: w)
  case (Cons rp rps)
  obtain nm tr where t: "IsTracked (rp_key rp) (w_engine w) = (nm, tr)" by fastforce
  let ?w1 = "take_report (\<lambda>k w. IsTracked k (w_engine w)) (record_observation ce) submit_sighting ap gw hexOn rid rp w"
  have same: "IsTracked k (w_engine ?w1) = IsTracked k (w_engine w)" for k
    by (simp add: take_report_def t record_observation_def submit_sighting_def Submit_tracked Let_def)
  have "tracked_sightings ap gw (w_engine ?w1) rps = tracked_sightings ap gw (w_engine w) rps"
    "recorded_rows ap gw hexOn rid (w_engine ?w1) rps = recorded_rows ap gw hexOn rid (w_engine w) rps"
    by (simp_all add: tracked_sightings_def recorded_rows_def same)
  then show ?case
    by (simp add: Cons.IH)
      (simp add: take_report_def t record_observation_def submit_sighting_def tracked_sightings_def recorded_rows_def Let_def)
qed (simp add: tracked_sightings_def recorded_rows_def)

text \<open>The wired server: the callbacks of \<open>main.go\<close>, whatever the key and the networks.\<close>

definition wired :: "CallEnv \<Rightarrow> World Server \<Rightarrow> bool" where
  "wired ce s \<longleftrightarrow> (\<exists>apiKey cidrs. srv_opts s = ing_applyDefaults (ingest_options ce apiKey cidrs))"

lemma wired_callbacks:
  assumes "wired ce s"
  shows "BeaconLookup (srv_opts s) = Some (\<lambda>k w. IsTracked k (w_engine w))"
    "RecordObservation (srv_opts s) = Some (record_observation ce)" "PresenceSubmit (srv_opts s) = Some submit_sighting"
    "CaptureSettingsFn (srv_opts s) = Some capture_settings" "RecordRawPost (srv_opts s) = Some (record_raw_post ce)"
    "OnHeartbeat (srv_opts s) = Some note_heartbeat"
  using assms by (auto simp: wired_def ing_applyDefaults_def ingest_options_def)

lemma raw_post_frame:
  assumes "maybeRecordRawPost endpoint r raw cfg (s, w) = (rid, s2, w1)" "wired ce s"
  shows "w_engine w1 = w_engine w" "w_obs w1 = w_obs w" "w_pub w1 = w_pub w" "w_snap w1 = w_snap w" "w_current w1 = w_current w"
    "w_hb w1 = w_hb w" "w_db w1 = w_db w \<or> w_db w1 = snd (ce_nextval ce (w_db w))" "w_retention w1 = w_retention w"
    "srv_opts s2 = srv_opts s"
  using assms(1) wired_callbacks(5) [OF assms(2)]
  by (auto simp: maybeRecordRawPost_def record_raw_post_def AllocateID_def Let_def split_beta
      split: if_splits option.splits prod.splits)

lemma ingest_effect:
  assumes "wired ce s" "readBody cod r s = (Some (plain, raw), s1)" "unmarshalIngest cod plain = Some p"
    and "handleIngest cod now r (s, w) = (status, s', w')"
  shows "let ap = ToLower (ip_GatewayEUID p); rps = reports now (ip_Events p) in
    status = 200 \<and> w_engine w' = fold Submit (tracked_sightings ap (ip_APName p) (w_engine w) rps) (w_engine w)
    \<and> (\<exists>rid. w_obs w' = fold (obs_Submit (fst (ce_obs ce)) (snd (ce_obs ce)))
         (recorded_rows ap (ip_APName p) (capturePerEventHex (snap_Get (w_snap w))) rid (w_engine w) rps) (w_obs w))
    \<and> w_pub w' = w_pub w \<and> w_snap w' = w_snap w \<and> w_current w' = w_current w \<and> w_hb w' = w_hb w
    \<and> (w_db w' = w_db w \<or> w_db w' = snd (ce_nextval ce (w_db w)))"
proof -
  let ?ap = "ToLower (ip_GatewayEUID p)"
  note cb = wired_callbacks [OF assms(1)]
  obtain rid s2 w1 where m: "maybeRecordRawPost ''/ingest'' r raw (capture s w) (s, w) = (rid, s2, w1)"
    by (cases "maybeRecordRawPost ''/ingest'' r raw (capture s w) (s, w)")
  note fr = raw_post_frame [OF m assms(1)]
  obtain s3 items tel where f: "fold (first_pass now ?ap) (ip_Events p) (s2, [], []) = (s3, items, tel)"
    by (cases "fold (first_pass now ?ap) (ip_Events p) (s2, [], [])")
  have cb2: "BeaconLookup (srv_opts s2) = Some (\<lambda>k w. IsTracked k (w_engine w))"
    "RecordObservation (srv_opts s2) = Some (record_observation ce)" "PresenceSubmit (srv_opts s2) = Some submit_sighting"
    using cb fr(9) by simp_all
  have hx: "cs_CapturePerEventHex (capture s w) = capturePerEventHex (snap_Get (w_snap w))"
    by (simp add: capture_def cb capture_settings_def Let_def)
  obtain s4 where "fold (second_pass now ?ap (ip_APName p) tel (capture s w) rid) items (s3, w1) =
      (s4, fold (take_report (\<lambda>k w. IsTracked k (w_engine w)) (record_observation ce) submit_sighting ?ap (ip_APName p)
        (capturePerEventHex (snap_Get (w_snap w))) rid) (reports now (ip_Events p)) w1)"
    using passes_refine [OF cb2 f, of "ip_APName p" "capture s w" rid w1] unfolding hx by blast
  with assms(2-4) m f readBody_some [OF assms(2)]
  have "status = 200" "w' = fold (take_report (\<lambda>k w. IsTracked k (w_engine w)) (record_observation ce) submit_sighting ?ap (ip_APName p)
        (capturePerEventHex (snap_Get (w_snap w))) rid) (reports now (ip_Events p)) w1"
    by (auto simp: handleIngest_def)
  then show ?thesis unfolding Let_def take_reports using fr by (simp, blast)
qed


subsection \<open>A restart keeps the zones\<close>

definition known_key :: "BeaconKey \<Rightarrow> bool" where
  "known_key k \<longleftrightarrow> kind k \<in> set knownKinds \<and> key k \<noteq> []"

definition known_keys :: "Engine \<Rightarrow> bool" where
  "known_keys e \<longleftrightarrow> (\<forall>k \<in> fst ` set (e_beacons e). known_key k)"

lemma snapshot_row_key:
  "ps_Kind (row_of_snapshot (snapshot_beacon e x)) = kind (fst x)" "ps_Key (row_of_snapshot (snapshot_beacon e x)) = key (fst x)"
  by (simp_all add: row_of_snapshot_def snapshot_beacon_def Let_def split_beta)

lemma known_keys_storable:
  assumes "known_keys e" "mwf (e_beacons e)"
  shows "storable (map row_of_snapshot (sn_Beacons (Snapshot e)))"
proof -
  have "map (\<lambda>r. (ps_Kind r, ps_Key r)) (map row_of_snapshot (sn_Beacons (Snapshot e)))
      = map (\<lambda>k. (kind k, key k)) (map fst (e_beacons e))"
    by (simp add: Snapshot_def snapshot_row_key)
  moreover have "distinct (map (\<lambda>k :: BeaconKey. (kind k, key k)) (map fst (e_beacons e)))"
    using assms(2) by (subst distinct_map) (auto simp: inj_on_def BeaconKey_eq_iff)
  ultimately have "distinct (map (\<lambda>r. (ps_Kind r, ps_Key r)) (map row_of_snapshot (sn_Beacons (Snapshot e))))" by simp
  then show ?thesis
    using assms(1) unfolding storable_def
    by (auto simp: known_keys_def known_key_def Snapshot_def snapshot_row_key knownKinds_def kind_defs)
qed

text \<open>A restore looks at three fields of a snapshot only.\<close>

lemma restore_one_cong:
  assumes "sn_Beacon a = sn_Beacon b" "sn_CurrentZone a = sn_CurrentZone b" "sn_CurrentAP a = sn_CurrentAP b"
  shows "restore_one now a = restore_one now b"
  by (rule ext) (auto simp: restore_one_def assms split: prod.split option.split)

lemma restore_rows:
  assumes "\<forall>k \<in> fst ` set xs. known_key k"
  shows "fold (restore_one now) (List.map_filter snapshot_of_row
      (map presence_of_row (map presence_row_of (map row_of_snapshot (map (snapshot_beacon e) xs))))) en
    = fold (restore_one now) (map (snapshot_beacon e) xs) en"
  using assms
proof (induction xs arbitrary: en)
  case (Cons x xs)
  have k: "FromStoreKey (kind (fst x)) (key (fst x)) = Some (fst x)"
    using Cons.prems by (auto simp: known_key_def FromStoreKey_def mk_key_def BeaconKey_eq_iff)
  obtain sn where sn: "snapshot_of_row (presence_of_row (presence_row_of (row_of_snapshot (snapshot_beacon e x)))) = Some sn"
    "sn_Beacon sn = sn_Beacon (snapshot_beacon e x)" "sn_CurrentZone sn = sn_CurrentZone (snapshot_beacon e x)"
    "sn_CurrentAP sn = sn_CurrentAP (snapshot_beacon e x)"
    using k by (auto simp: snapshot_of_row_def presence_row_roundtrip row_of_snapshot_def snapshot_beacon_def Let_def split_beta)
  with Cons show ?case by (simp add: List.map_filter_simps restore_one_cong [OF sn(2-4)])
qed (simp add: List.map_filter_simps)

lemma persist_db:
  assumes "known_keys (w_engine w)" "mwf (e_beacons (w_engine w))"
  shows "w_db (persistPresence (\<lambda>_. False) w)
    = (w_db w)\<lparr>db_presence := map presence_row_of (map row_of_snapshot (sn_Beacons (Snapshot (w_engine w))))\<rparr>"
  by (simp add: persistPresence_def SavePresenceState_ok [OF known_keys_storable [OF assms]])

lemma SaveAll_presence: "db_presence (snd (SaveAll fault (Some t) db)) = db_presence db"
proof -
  have "exec_steps fault i (map insert_override ovs) db0 = Inr db1 \<Longrightarrow> db_presence db1 = db_presence db0" for i ovs db0 db1
    by (induction ovs arbitrary: i db0) (auto simp: insert_override_def split: if_splits)
  then show ?thesis
    by (auto simp: SaveAll_def run_tx_def upsert_defaults_def split: option.split sum.split if_splits)
qed

lemma SeedFromYAML_cases:
  "snd (SeedFromYAMLIfEmpty f1 f2 f yd seed db) = db
   \<or> (\<exists>t. snd (SeedFromYAMLIfEmpty f1 f2 f yd seed db) = snd (SaveAll f (Some t) db))"
  by (auto simp: SeedFromYAMLIfEmpty_def Let_def split: sum.split prod.split option.split) (metis snd_conv)+

lemma applySchema_fields:
  "db_beacons (snd (applySchema fault db)) = db_beacons db" "db_zones (snd (applySchema fault db)) = db_zones db"
  "db_presence (snd (applySchema fault db)) = db_presence db" "db_defaults (snd (applySchema fault db)) = db_defaults db"
  "db_overrides (snd (applySchema fault db)) = db_overrides db"
  by (simp_all add: applySchema_def)

lemma applySchema_settled: "db_settings db = Some s \<Longrightarrow> applySchema False db = (None, db)"
  by (simp add: applySchema_def)

lemma load_config_steps:
  assumes "load_config bt db = (Inr (tun, tp, st), db1)"
  obtains seed db0 where "applySchema False db = (None, db0)"
    "SeedFromYAMLIfEmpty (fst (bt_loadFaults bt)) (snd (bt_loadFaults bt)) (bt_saveFault bt) (bt_yaml bt) seed db0 = (Inr tun, db1)"
    "loadTopologyFromStore (bt_beaconsFault bt) (bt_beaconOrder bt) (bt_zonesFault bt) (bt_zoneOrder bt) db1 = Inr tp"
    "LoadSettings (bt_settingsFault bt) db1 = Inr st"
proof -
  obtain db0 where s: "applySchema (bt_schemaFault bt) db = (None, db0)"
    using assms by (auto simp: load_config_def split: connect_result.splits option.splits prod.splits)
  then have "applySchema False db = (None, db0)" by (auto simp: applySchema_def split: if_splits)
  moreover obtain seed where
    "SeedFromYAMLIfEmpty (fst (bt_loadFaults bt)) (snd (bt_loadFaults bt)) (bt_saveFault bt) (bt_yaml bt) seed db0 = (Inr tun, db1)"
    "loadTopologyFromStore (bt_beaconsFault bt) (bt_beaconOrder bt) (bt_zonesFault bt) (bt_zoneOrder bt) db1 = Inr tp"
    "LoadSettings (bt_settingsFault bt) db1 = Inr st"
    using assms by (auto simp: load_config_def s split: connect_result.splits option.splits prod.splits sum.splits)
  ultimately show thesis by (rule that)
qed

lemma load_config_cases:
  assumes "load_config bt db = (Inr (tun, tp, st), db1)"
  shows "db1 = snd (applySchema False db) \<or> (\<exists>f t. db1 = snd (SaveAll f (Some t) (snd (applySchema False db))))"
    "loadTopologyFromStore (bt_beaconsFault bt) (bt_beaconOrder bt) (bt_zonesFault bt) (bt_zoneOrder bt) db1 = Inr tp"
    "LoadSettings (bt_settingsFault bt) db1 = Inr st"
  by (rule load_config_steps [OF assms], metis SeedFromYAML_cases snd_conv) (rule load_config_steps [OF assms], assumption)+

lemma boot_cases:
  assumes "boot bt db = (Inr b, db1)"
  obtains tun tp st p where "load_config bt db = (Inr (tun, tp, st), db1)" "New (mqtt_options (bt_getenv bt)) = Inr p"
    "bridge_world b = wire_world bt tun tp st p db1" "wired (bt_call bt) (bridge_ingest b)"
proof -
  obtain tun tp st where l: "load_config bt db = (Inr (tun, tp, st), db1)"
    using assms by (auto simp: boot_def Let_def split: if_splits prod.splits sum.splits)
  obtain p srv where p: "New (mqtt_options (bt_getenv bt)) = Inr p"
    and srv: "ing_New (ingest_options (bt_call bt) (bt_getenv bt ''INGEST_SHARED_SECRET'')
        (splitCSV (bt_getenv bt ''INGEST_ALLOWED_CIDRS''))) = Inr srv"
    and b: "bridge_world b = wire_world bt tun tp st p db1" "bridge_ingest b = srv"
    using assms l by (auto simp: boot_def Let_def split: if_splits sum.splits)
  from srv have "srv_opts srv = ing_applyDefaults (ingest_options (bt_call bt) (bt_getenv bt ''INGEST_SHARED_SECRET'')
        (splitCSV (bt_getenv bt ''INGEST_ALLOWED_CIDRS'')))"
    by (auto simp: ing_New_def Let_def split: if_splits sum.splits)
  then have "wired (bt_call bt) (bridge_ingest b)" unfolding wired_def b by blast
  with l p b show thesis by (intro that)
qed

lemma loadTopology_NewTopology:
  "loadTopologyFromStore bf bo zf zo db = Inr tp \<Longrightarrow> \<exists>zs bs. NewTopology zs bs = Inr tp"
  by (auto simp: loadTopologyFromStore_def Let_def split: sum.splits)

lemma find_key: "find (\<lambda>tb. tb_key tb = k) bs = Some tb \<Longrightarrow> tb_key tb = k"
  by (auto simp: find_Some_iff)

lemma NewEngine_clk:
  assumes "NewTopology zs bs = Inr t"
  shows "clk (NewEngine (Some t) tun now cap) = now"
  unfolding NewEngine_track [OF retracked_distinct [OF assms]] by (simp add: fold_track_sel blank_engine_def)

lemma NewEngine_get:
  assumes "NewTopology zs bs = Inr t"
  shows "mget (e_beacons (NewEngine (Some t) tun now cap)) k =
    map_option (\<lambda>tb. newBeaconState k (tb_name tb)) (find (\<lambda>tb. tb_key tb = k) (beacons t))"
  unfolding NewEngine_track [OF retracked_distinct [OF assms]] fold_track_get [OF retracked_distinct [OF assms]]
  by (cases "find (\<lambda>tb. tb_key tb = k) (beacons t)") (auto simp: blank_engine_def tracked_state_def dest: find_key)

lemma persisted:
  assumes "known_keys (w_engine w)" "mwf (e_beacons (w_engine w))"
    "load_config bt (w_db (persistPresence (\<lambda>_. False) w)) = (Inr (tun, tp, st), db1)"
  shows "db_presence db1 = map presence_row_of (map row_of_snapshot (map (snapshot_beacon (w_engine w)) (e_beacons (w_engine w))))"
proof -
  have "db_presence db1 = db_presence (w_db (persistPresence (\<lambda>_. False) w))"
    using load_config_cases(1) [OF assms(3)] by (auto simp: SaveAll_presence applySchema_fields)
  then show ?thesis by (simp add: persist_db [OF assms(1,2)] Snapshot_def)
qed

lemma rehydrated:
  assumes "db_presence db = map presence_row_of (map row_of_snapshot (map (snapshot_beacon e) (e_beacons e)))"
    "known_keys e" "mwf (e_beacons e)" "clk n = now"
  shows "mget (e_beacons (rehydrate False db n)) k = (case mget (e_beacons e) k of
      None \<Rightarrow> mget (e_beacons n) k
    | Some old \<Rightarrow> if currentZone old = [] then mget (e_beacons n) k
        else map_option (\<lambda>b. restored now b old) (mget (e_beacons n) k))"
proof -
  have "rehydrate False db n = fst (fold (restore_one now) (map (snapshot_beacon e) (e_beacons e)) (n, 0))"
    unfolding rehydrate_def LoadPresenceState_def RestoreState_def assms(1,4) if_False sum.case
    using assms(2) by (subst restore_rows) (simp_all add: known_keys_def)
  then show ?thesis using restore_fold [OF assms(3), of now e n 0 k] by simp
qed

text \<open>
  C12: a restart keeps the zones. If the presence snapshot is saved, the process ends, and a new one starts on the same database, then
  every beacon that the new process tracks has the zone and the access point that it had before, with a full sticky window from the
  start on, if it was in a zone; otherwise it starts away. Nothing but the allowlist decides which beacons those are.
\<close>

theorem warm_restart:
  assumes "engine_inv (w_engine w)" "known_keys (w_engine w)"
    and "boot bt (w_db (persistPresence (\<lambda>_. False) w)) = (Inr b, db1)" "\<not> bt_presenceFault bt"
    and "IsTracked k (w_engine (bridge_world b)) = (nm, True)"
  shows "mget (e_beacons (w_engine (bridge_world b))) k = Some (case mget (e_beacons (w_engine w)) k of
      None \<Rightarrow> newBeaconState k nm
    | Some old \<Rightarrow> if currentZone old = [] then newBeaconState k nm
        else (newBeaconState k nm)\<lparr>currentZone := currentZone old, currentAP := currentAP old, lastArrivalTs := bt_now bt\<rparr>)"
proof -
  let ?e = "w_engine w"
  have m: "mwf (e_beacons ?e)" by (rule engine_inv_mwf [OF assms(1)])
  obtain tun tp st p where l: "load_config bt (w_db (persistPresence (\<lambda>_. False) w)) = (Inr (tun, tp, st), db1)"
    and w': "bridge_world b = wire_world bt tun tp st p db1"
    by (rule boot_cases [OF assms(3)])
  let ?n = "NewEngine (Some tp) tun (bt_now bt) (Some 1024)"
  obtain zs bs where nt: "NewTopology zs bs = Inr tp" using loadTopology_NewTopology [OF load_config_cases(2) [OF l]] by blast
  have e: "w_engine (bridge_world b) = rehydrate False db1 ?n" using assms(4) by (simp add: w' wire_world_def)
  have g: "mget (e_beacons (w_engine (bridge_world b))) k = (case mget (e_beacons ?e) k of
      None \<Rightarrow> mget (e_beacons ?n) k
    | Some old \<Rightarrow> if currentZone old = [] then mget (e_beacons ?n) k
        else map_option (\<lambda>b. restored (bt_now bt) b old) (mget (e_beacons ?n) k))"
    unfolding e by (rule rehydrated [OF persisted [OF assms(2) m l] assms(2) m NewEngine_clk [OF nt]])
  from assms(5) obtain nb where nb: "mget (e_beacons (w_engine (bridge_world b))) k = Some nb" "bs_name nb = nm"
    by (auto simp: IsTracked_def split: option.splits)
  have "mget (e_beacons ?n) k \<noteq> None"
  proof
    assume "mget (e_beacons ?n) k = None"
    with g nb(1) show False by (cases "mget (e_beacons ?e) k") (simp_all split: if_splits)
  qed
  then obtain nm' where n: "mget (e_beacons ?n) k = Some (newBeaconState k nm')" unfolding NewEngine_get [OF nt] by auto
  have "bs_name nb = nm'"
    using nb(1) unfolding g n by (cases "mget (e_beacons ?e) k") (auto simp: newBeaconState_def restored_def split: if_splits)
  with nb(2) show ?thesis
    unfolding g n by (cases "mget (e_beacons ?e) k") (simp_all add: restored_def)
qed

subsection \<open>From the engine to the broker\<close>

text \<open>The entity an item of the send queue is about, and the store after the loop has worked on a queue.\<close>

fun item_key :: "queueItem \<Rightarrow> BeaconKey" where
  "item_key (QueueEvent ev) = ev_Beacon ev"
| "item_key (QueueRemove k) = k"

lemma process_frame:
  assumes inv: "pub_inv marshal p s" and m: "marshals marshal" and ok: "\<And>h m. broker h m = PubOK"
    and p'_def: "p' = process marshal broker item p" and s'_def: "s' = broker_store broker p p' s"
  shows "pub_inv marshal p' s'" "queue p' = queue p" "p_opts p' = p_opts p" "queue_cap p' = queue_cap p"
    "t \<notin> set (entity_topics (DiscoveryPrefix (p_opts p)) (item_key item)) \<Longrightarrow> s' t = s t"
proof -
  have "pub_inv marshal p' s' \<and> queue p' = queue p \<and> p_opts p' = p_opts p \<and> queue_cap p' = queue_cap p
    \<and> (t \<notin> set (entity_topics (DiscoveryPrefix (p_opts p)) (item_key item)) \<longrightarrow> s' t = s t)"
  proof (cases item)
    case (QueueEvent ev)
    then have "p' = handle marshal broker ev p" by (simp add: p'_def process_def)
    from handle_asserts [OF inv m ok this s'_def] QueueEvent show ?thesis by simp
  next
    case (QueueRemove k)
    then have "p' = handleRemove broker k p" by (simp add: p'_def process_def)
    with handleRemove_inv [OF inv ok, where k = k] handleRemove_store [OF ok, where p = p and k = k and s = s and t = t] QueueRemove show ?thesis
      by (simp add: s'_def)
  qed
  then show "pub_inv marshal p' s'" "queue p' = queue p" "p_opts p' = p_opts p" "queue_cap p' = queue_cap p"
    "t \<notin> set (entity_topics (DiscoveryPrefix (p_opts p)) (item_key item)) \<Longrightarrow> s' t = s t" by simp_all
qed

text \<open>One turn of the publisher's loop together with the broker's store.\<close>

definition turn :: "marshal_fn \<Rightarrow> broker_fn \<Rightarrow> Publisher \<times> store \<Rightarrow> Publisher \<times> store" where
  "turn marshal broker ps = (let p' = drain_step marshal broker (fst ps) in (p', broker_store broker (fst ps) p' (snd ps)))"

lemma broker_store_queue: "broker_store broker (p\<lparr>queue := q\<rparr>) p' s = broker_store broker p p' s"
  by (simp add: broker_store_def)

lemma turn_step:
  assumes "pub_inv marshal p s" "marshals marshal" "\<And>h m. broker h m = PubOK" "queue p = item # q"
    and "turn marshal broker (p, s) = (p', s')"
  shows "pub_inv marshal p' s'" "queue p' = q" "p_opts p' = p_opts p" "queue_cap p' = queue_cap p"
    "t \<notin> set (entity_topics (DiscoveryPrefix (p_opts p)) (item_key item)) \<Longrightarrow> s' t = s t"
    "item = QueueEvent ev \<Longrightarrow> asserts marshal p' s' ev"
proof -
  let ?p = "p\<lparr>queue := q\<rparr>"
  have i: "pub_inv marshal ?p s" using pub_inv_simps(2) [OF assms(1)] assms(4) by (intro pub_inv_queue [OF assms(1)]) simp_all
  have p': "p' = process marshal broker item ?p" and s': "s' = broker_store broker ?p p' s"
    using assms(4,5) by (auto simp: turn_def Let_def drain_step_process broker_store_queue)
  note f = process_frame [OF i assms(2,3) p' s']
  show "pub_inv marshal p' s'" "queue p' = q" "p_opts p' = p_opts p" "queue_cap p' = queue_cap p"
    "t \<notin> set (entity_topics (DiscoveryPrefix (p_opts p)) (item_key item)) \<Longrightarrow> s' t = s t"
    using f by simp_all
  show "asserts marshal p' s' ev" if "item = QueueEvent ev"
    using handle_asserts(2) [OF i assms(2,3) _ s', of ev] p' that by (simp add: process_def)
qed

text \<open>Items about other entities leave what is retained for an entity as it is.\<close>

lemma turns_other:
  assumes "pub_inv marshal p s" "marshals marshal" "\<And>h m. broker h m = PubOK" "queue p = items"
    and "valid_key k" "\<forall>it \<in> set items. valid_key (item_key it) \<and> EntityID (item_key it) \<noteq> EntityID k"
    and "(turn marshal broker ^^ length items) (p, s) = (p', s')"
  shows "queue p' = [] \<and> (\<forall>t \<in> set (entity_topics (DiscoveryPrefix (p_opts p)) k). s' t = s t)"
  using assms
proof (induction items arbitrary: p s)
  case (Cons it items)
  obtain p1 s1 where t1: "turn marshal broker (p, s) = (p1, s1)" by fastforce
  note st = turn_step [OF Cons.prems(1-4) t1]
  have "(turn marshal broker ^^ length items) (p1, s1) = (p', s')"
    using Cons.prems(7) t1 by (simp add: funpow_swap1)
  from Cons.IH [OF st(1) Cons.prems(2,3) st(2) Cons.prems(5) _ this] Cons.prems(6)
  have "queue p' = []" "\<forall>t \<in> set (entity_topics (DiscoveryPrefix (p_opts p)) k). s' t = s1 t" by (simp_all add: st(3))
  moreover have "s1 t = s t" if "t \<in> set (entity_topics (DiscoveryPrefix (p_opts p)) k)" for t
    using st(5) [of t] entity_topics_disjoint [OF Cons.prems(5) _ _ that, of "item_key it"] Cons.prems(6)
    by (metis list.set_intros(1))
  ultimately show ?case by simp
qed simp

lemma turns_reach:
  assumes "pub_inv marshal p s" "marshals marshal" "\<And>h m. broker h m = PubOK" "queue p = items @ QueueEvent ev # rest"
    and "(turn marshal broker ^^ Suc (length items)) (p, s) = (p', s')"
  shows "pub_inv marshal p' s' \<and> queue p' = rest \<and> asserts marshal p' s' ev \<and> p_opts p' = p_opts p"
  using assms
proof (induction items arbitrary: p s)
  case Nil
  have t: "turn marshal broker (p, s) = (p', s')" using Nil.prems(5) by simp
  have q: "queue p = QueueEvent ev # rest" using Nil.prems(4) by simp
  from turn_step [OF Nil.prems(1-3) q t] show ?case by simp
next
  case (Cons it items)
  obtain p1 s1 where t1: "turn marshal broker (p, s) = (p1, s1)" by fastforce
  have q: "queue p = it # (items @ QueueEvent ev # rest)" using Cons.prems(4) by simp
  note st = turn_step [OF Cons.prems(1-3) q t1]
  have "(turn marshal broker ^^ Suc (length items)) (p1, s1) = (p', s')"
    using Cons.prems(5) t1 by (simp add: funpow_swap1)
  from Cons.IH [OF st(1) Cons.prems(2,3) st(2) this] show ?case by (simp add: st(3))
qed

abbreviation quiet_pump :: "World \<Rightarrow> World" where
  "quiet_pump \<equiv> pump (\<lambda>q. q) (\<lambda>q. q)"

lemma pumps:
  assumes "out_queue (w_engine w) = evs" "length (queue (w_pub w)) + length evs \<le> queue_cap (w_pub w)"
  shows "(quiet_pump ^^ length evs) w =
    w\<lparr>w_engine := (w_engine w)\<lparr>out_queue := []\<rparr>, w_pub := (w_pub w)\<lparr>queue := queue (w_pub w) @ map QueueEvent evs\<rparr>\<rparr>"
  using assms
proof (induction evs arbitrary: w)
  case (Cons ev evs)
  have "quiet_pump w = w\<lparr>w_engine := (w_engine w)\<lparr>out_queue := evs\<rparr>, w_pub := (w_pub w)\<lparr>queue := queue (w_pub w) @ [QueueEvent ev]\<rparr>\<rparr>"
    using Cons.prems by (simp add: pump_def Publish_def enqueue_room)
  with Cons.IH [of "quiet_pump w"] Cons.prems show ?case by (simp add: funpow_swap1)
qed simp

text \<open>
  C3: an arrival reaches Home Assistant. If a beacon is away and a sighting qualifies, if the channel of the engine and the queue
  of the publisher have room for it behind whatever they hold, and if no zone is labelled \<open>not_home\<close>, then after the pump and the
  publisher have worked off what is queued, the broker retains the state \<open>home\<close> for the beacon and the discovery document of its entity.
\<close>

theorem arrival_reaches_broker:
  assumes "engine_inv (w_engine w)" "mget (e_beacons (w_engine w)) (s_Beacon sg) = Some bs" "currentZone bs = []"
    and "validateDefaults (tun_of (w_engine w) bs) = None" "TAwayMaxS (tun_of (w_engine w) bs) \<le> max_dur_s" "0 < clk (w_engine w)"
    and "qualifying (w_engine w) sg bs"
      "rank_ok (note_sighting (tun_of (w_engine w) bs) sg (clk (w_engine w)) bs) (tun_of (w_engine w) bs) (clk (w_engine w))"
    and "\<forall>(k, ap) \<in> set (perAP (note_sighting (tun_of (w_engine w) bs) sg (clk (w_engine w)) bs)).
           qualifies (tun_of (w_engine w) bs) (clk (w_engine w)) ap \<longrightarrow> Zone (e_top (w_engine w)) k \<noteq> []"
    and "\<forall>ap. Zone (e_top (w_engine w)) ap \<noteq> StateNotHome"
    and "out_cap (w_engine w) = Some c" "length (out_queue (w_engine w)) < c"
    and "pub_inv marshal (w_pub w) s" "marshals marshal" "\<And>h m. broker h m = PubOK"
    and "length (queue (w_pub w)) + length (out_queue (w_engine w)) < queue_cap (w_pub w)"
  shows "let w1 = submit_sighting sg w; w2 = (quiet_pump ^^ length (out_queue (w_engine w1))) w1;
             (p', s') = (turn marshal broker ^^ length (queue (w_pub w2))) (w_pub w2, s)
         in queue p' = [] \<and> s' (stateTopic (s_Beacon sg)) = Some ''home''
            \<and> s' (deviceConfigTopic (DiscoveryPrefix (p_opts (w_pub w))) (s_Beacon sg)) \<noteq> None"
proof -
  let ?e = "w_engine w" and ?w1 = "submit_sighting sg w" and ?p = "w_pub w"
  obtain ev where ev: "ev_Beacon ev = bs_id bs" "ev_State ev = Zone (e_top ?e) (ev_APMac ev)"
    and q: "out_queue (Submit sg ?e) = out_queue (emit ev ?e)"
    using arrival [OF assms(2-9)] by blast
  have id: "bs_id bs = s_Beacon sg" by (rule engine_invD(1) [OF assms(1,2)])
  have q1: "out_queue (w_engine ?w1) = out_queue ?e @ [ev]" and p1: "w_pub ?w1 = ?p"
    using q assms(11,12) by (simp_all add: submit_sighting_def emit_queue)
  let ?p2 = "?p\<lparr>queue := (queue ?p @ map QueueEvent (out_queue ?e)) @ QueueEvent ev # []\<rparr>"
  have w2: "w_pub ((quiet_pump ^^ length (out_queue (w_engine ?w1))) ?w1) = ?p2"
    using assms(16) by (subst pumps [OF refl]) (simp_all add: q1 p1)
  have inv: "pub_inv marshal ?p2 s" using assms(16) by (intro pub_inv_queue [OF assms(13)]) simp_all
  obtain p' s' where t: "(turn marshal broker ^^ length (queue ?p2)) (?p2, s) = (p', s')" by fastforce
  have "(turn marshal broker ^^ Suc (length (queue ?p @ map QueueEvent (out_queue ?e)))) (?p2, s) = (p', s')" using t by simp
  from turns_reach [OF inv assms(14,15) _ this, of ev "[]"]
  have r: "queue p' = []" "asserts marshal p' s' ev" "p_opts p' = p_opts ?p" by simp_all
  from asserts_simps(1,3) [OF r(2)] assms(10) ev id r show ?thesis
    unfolding Let_def w2 t by simp
qed

lemma emits_queue:
  assumes "out_cap e = Some c" "length (out_queue e) + length xs \<le> c"
  shows "out_queue (fold (\<lambda>x. emit (f x)) xs e) = out_queue e @ map f xs"
  using assms
proof (induction xs arbitrary: e)
  case (Cons x xs)
  have "out_cap (emit (f x) e) = Some c" "out_queue (emit (f x) e) = out_queue e @ [f x]"
    using Cons.prems same_core_emit [of e "f x"] by (simp_all add: emit_queue same_core_def)
  with Cons show ?case by simp
qed simp

definition current_event :: "Engine \<Rightarrow> BeaconKey \<times> beaconState \<Rightarrow> PresenceEvent" where
  "current_event e kb = republish_event (tun_of e (snd kb)) (snd kb) (clk e)"

text \<open>Working off a queue that ends with the current events of all beacons leaves each of them retained.\<close>

lemma turns_all:
  assumes "pub_inv marshal p s" "marshals marshal" "\<And>h m. broker h m = PubOK" "engine_inv e"
    and "queue p = items @ map (QueueEvent \<circ> current_event e) (e_beacons e)"
    and "\<forall>k \<in> fst ` set (e_beacons e). valid_key k" "inj_on EntityID (fst ` set (e_beacons e))"
    and "(turn marshal broker ^^ length (queue p)) (p, s) = (p', s')" "mget (e_beacons e) k = Some bs"
  shows "queue p' = [] \<and> s' (stateTopic k) = Some (if published bs = StateNotHome then ''not_home'' else ''home'')
    \<and> s' (telemetryTopic k) = marshal (DocState (BuildState (current_event e (k, bs))))
    \<and> s' (deviceConfigTopic (DiscoveryPrefix (p_opts p)) k) \<noteq> None"
proof -
  obtain xs ys where sp: "e_beacons e = xs @ (k, bs) # ys" using mget_Some_in [OF assms(9)] by (meson split_list)
  let ?ev = "current_event e (k, bs)" and ?q = "map (QueueEvent \<circ> current_event e)"
  have evb: "ev_Beacon (current_event e kb) = fst kb" if "kb \<in> set (e_beacons e)" for kb
    using engine_invD(1) [OF assms(4)] in_mget_Some [OF engine_inv_mwf [OF assms(4)], of "fst kb" "snd kb"] that
    by (simp add: current_event_def republish_event_state)
  have b: "ev_Beacon ?ev = k" using evb [of "(k, bs)"] sp by simp
  obtain p1 s1 where t1: "(turn marshal broker ^^ Suc (length (items @ ?q xs))) (p, s) = (p1, s1)" by fastforce
  have q: "queue p = (items @ ?q xs) @ QueueEvent ?ev # ?q ys" using assms(5) sp by simp
  from turns_reach [OF assms(1-3) q t1]
  have r: "pub_inv marshal p1 s1" "queue p1 = ?q ys" "asserts marshal p1 s1 ?ev" "p_opts p1 = p_opts p" by simp_all
  have len: "length (queue p) = length (?q ys) + Suc (length (items @ ?q xs))" using q by simp
  have t2: "(turn marshal broker ^^ length (?q ys)) (p1, s1) = (p', s')"
    using assms(8) unfolding len funpow_add o_apply t1 .
  have vk: "valid_key k" using assms(6) sp by simp
  have "valid_key (fst kb) \<and> EntityID (fst kb) \<noteq> EntityID k" if "kb \<in> set ys" for kb
  proof -
    have "fst kb \<noteq> k" using engine_inv_mwf [OF assms(4)] that by (auto simp: sp)
    moreover have "fst kb \<in> fst ` set (e_beacons e)" "k \<in> fst ` set (e_beacons e)" using that by (auto simp: sp)
    ultimately show ?thesis using assms(6) inj_onD [OF assms(7), of "fst kb" k] by blast
  qed
  then have "\<forall>it \<in> set (?q ys). valid_key (item_key it) \<and> EntityID (item_key it) \<noteq> EntityID k"
    using evb by (simp add: sp)
  from turns_other [OF r(1) assms(2,3) r(2) vk this t2]
  have "queue p' = []" "\<forall>t \<in> set (entity_topics (DiscoveryPrefix (p_opts p)) k). s' t = s1 t" by (simp_all add: r(4))
  then show ?thesis
    using asserts_simps [OF r(3)] by (simp add: entity_topics_def b r(4)) (simp add: current_event_def republish_event_state)
qed

text \<open>
  C16: a birth message restores what Home Assistant knows. Whatever the broker retains before, if the channels have room for one event
  per tracked beacon behind what they hold, then after a birth message and after the pump and the publisher have worked off what is
  queued, the broker retains for every tracked beacon its current state, its current telemetry, and a discovery document.
\<close>

theorem birth_restores_all:
  assumes "TrimSpace body = payloadOnline" "engine_inv (w_engine w)" "out_cap (w_engine w) = Some c" "out_queue (w_engine w) = []"
    and "length (e_beacons (w_engine w)) \<le> c" "0 < queue_cap (w_pub w)"
      "length (queue (w_pub w)) + length (e_beacons (w_engine w)) \<le> queue_cap (w_pub w)"
    and "\<forall>k \<in> fst ` set (e_beacons (w_engine w)). valid_key k" "inj_on EntityID (fst ` set (e_beacons (w_engine w)))"
    and "marshals marshal" "\<And>h m. broker h m = PubOK" "mget (e_beacons (w_engine w)) k = Some bs"
  shows "let w1 = birth body w; w2 = (quiet_pump ^^ length (out_queue (w_engine w1))) w1;
             (p', s') = (turn marshal broker ^^ length (queue (w_pub w2))) (w_pub w2, s)
         in queue p' = [] \<and> s' (stateTopic k) = Some (if published bs = StateNotHome then ''not_home'' else ''home'')
            \<and> s' (telemetryTopic k) = marshal (DocState (BuildState (current_event (w_engine w) (k, bs))))
            \<and> s' (deviceConfigTopic (DiscoveryPrefix (p_opts (w_pub w))) k) \<noteq> None"
proof -
  let ?e = "w_engine w" and ?w1 = "birth body w" and ?p1 = "onBirthMessage body (w_pub w)"
  have p1: "w_pub ?w1 = ?p1" and e1: "w_engine ?w1 = RepublishAll ?e" using assms(1) by (simp_all add: birth_def)
  have f: "queue ?p1 = queue (w_pub w)" "queue_cap ?p1 = queue_cap (w_pub w)" "seen ?p1 = []" "seenIDs ?p1 = []"
    "p_opts ?p1 = p_opts (w_pub w)"
    using assms(1) by (simp_all add: onBirthMessage_def call_hook_def clearSeen_def)
  have q1: "out_queue (w_engine ?w1) = map (current_event ?e) (e_beacons ?e)"
    using emits_queue [OF assms(3), of "e_beacons ?e" "current_event ?e"] assms(4,5)
    by (simp add: e1 RepublishAll_fold current_event_def)
  let ?p2 = "?p1\<lparr>queue := queue ?p1 @ map (QueueEvent \<circ> current_event ?e) (e_beacons ?e)\<rparr>"
  have w2: "w_pub ((quiet_pump ^^ length (out_queue (w_engine ?w1))) ?w1) = ?p2"
    using assms(7) by (subst pumps [OF refl]) (simp_all add: q1 p1 f)
  have inv: "pub_inv marshal ?p2 s" using assms(6,7) by (intro pub_inv_empty) (simp_all add: f)
  obtain p' s' where t: "(turn marshal broker ^^ length (queue ?p2)) (?p2, s) = (p', s')" by fastforce
  from turns_all [OF inv assms(10,11,2) _ assms(8,9) t assms(12), of "queue ?p1"] show ?thesis
    unfolding Let_def w2 t by (simp add: f)
qed

end
