(* ===== verification/Go_Utf8.thy ===== *)
theory Go_Utf8
  imports Go_Strings
begin

section \<open>Valid UTF-8\<close>

text \<open>\<open>utf8.Valid\<close>: no byte is decoded as an error of width 1.\<close>

definition utf8_Valid :: "string \<Rightarrow> bool" where
  "utf8_Valid s \<longleftrightarrow> list_all (\<lambda>(r, bs). \<not> (r = rune_error \<and> length bs = 1)) (utf8_segs s)"

lemma utf8_Valid_ascii: "is_ascii s \<Longrightarrow> utf8_Valid s"
  by (auto simp: utf8_Valid_def utf8_segs_ascii list_all_iff is_ascii_def rune_error_def)

end
