(* ===== verification/Metrics.thy ===== *)
theory Metrics
  imports Go_Utf8
begin

section \<open>The metrics (internal/metrics)\<close>

text \<open>
  The collectors of \<open>metrics.go\<close> with their names, labels and buckets in milliseconds (not the help texts), the registration at the start, and what
  the call \<open>WithLabelValues\<close> of the client library asks of its arguments. The library itself is a parameter: \<open>register\<close> adds a
  collector to a registry or panics, and \<open>accepts\<close> tells whether a call with label values returns.
\<close>

datatype collector = Counter "string list" | Gauge "string list" | Histogram "nat list"

fun variable_labels :: "collector \<Rightarrow> string list" where
  "variable_labels (Counter ls) = ls"
| "variable_labels (Gauge ls) = ls"
| "variable_labels (Histogram bs) = []"

text \<open>The field, the name and the collector.\<close>

definition collectors :: "(string \<times> string \<times> collector) list" where
  "collectors =
    [
     (''IngestRequests'', ''briihass_ingest_requests_total'', Counter [''endpoint'', ''status'']),
     (''GunzipFailures'', ''briihass_gunzip_failures_total'', Counter []),
     (''AnonymousAdverts'', ''briihass_anonymous_adverts_total'', Counter [''ap'']),
     (''AdvertsByKind'', ''briihass_adverts_total'', Counter [''kind'', ''ap'']),
     (''ParserErrors'', ''briihass_parser_errors_total'', Counter [''ap'']),
     (''UnknownBeacons'', ''briihass_unknown_beacon_total'', Counter [''kind'', ''key'', ''ap'']),
     (''UnknownAP'', ''briihass_unknown_ap_total'', Counter [''beacon'', ''ap'']),
     (''AuthFailures'', ''briihass_ingest_auth_failures_total'', Counter [''endpoint'', ''reason'']),
     (''HeartbeatGateways'', ''briihass_heartbeat_gateways_online'', Gauge []),
     (''BeaconZone'', ''briihass_beacon_zone_active'', Gauge [''beacon'', ''zone'']),
     (''BeaconInSticky'', ''briihass_beacon_in_sticky_window'', Gauge [''beacon'']),
     (''PerAPEffectiveRSSI'', ''briihass_per_ap_effective_rssi_dbm'', Gauge [''beacon'', ''ap'']),
     (''ArrivalLatencySeconds'', ''briihass_arrival_latency_seconds'', Histogram [10, 25, 50, 100, 200, 500, 1000, 2000, 5000]),
     (''MQTTPublishOK'', ''briihass_mqtt_publish_ok_total'', Counter []),
     (''MQTTPublishErrors'', ''briihass_mqtt_publish_errors_total'', Counter []),
     (''MQTTQueueDepth'', ''briihass_mqtt_queue_depth'', Gauge []),
     (''MQTTDropped'', ''briihass_mqtt_dropped_total'', Counter []),
     (''MQTTConnected'', ''briihass_mqtt_connected'', Gauge []),
     (''MQTTMarshalFailed'', ''briihass_mqtt_marshal_failed_total'', Counter [''kind'']),
     (''EngineEventsDropped'', ''briihass_engine_events_dropped_total'', Counter []),
     (''RawPostInsertErrors'', ''briihass_raw_post_insert_errors_total'', Counter []),
     (''ObservationsRowsDropped'', ''briihass_observations_rows_dropped_total'', Counter []),
     (''ObservationsSubmitDropped'', ''briihass_observations_submit_dropped_total'', Counter []),
     (''RetentionSkipped'', ''briihass_retention_skipped_total'', Counter []),
     (''RetentionPruneFailed'', ''briihass_retention_prune_failed_total'', Counter []),
     (''MQTTInitialConnectFailed'', ''briihass_mqtt_initial_connect_failed_total'', Counter []),
     (''MQTTPublisherDropLogs'', ''briihass_mqtt_publisher_drop_logs_total'', Counter []),
     (''IngestBadTimestamp'', ''briihass_ingest_bad_timestamp_total'', Counter [''ap'']),
     (''TunablesOrphanOverrides'', ''briihass_tunables_orphan_overrides'', Gauge [])
    ]"

text \<open>The order of the registrations.\<close>

definition register_order :: "string list" where
  "register_order =
    [
     ''IngestRequests'', ''GunzipFailures'', ''AnonymousAdverts'', ''AdvertsByKind'', ''ParserErrors'', ''UnknownBeacons'',
     ''UnknownAP'', ''AuthFailures'', ''HeartbeatGateways'', ''BeaconZone'', ''BeaconInSticky'', ''PerAPEffectiveRSSI'',
     ''ArrivalLatencySeconds'', ''MQTTPublishOK'', ''MQTTPublishErrors'', ''MQTTQueueDepth'', ''MQTTDropped'',
     ''MQTTConnected'', ''MQTTMarshalFailed'', ''EngineEventsDropped'', ''RawPostInsertErrors'', ''ObservationsRowsDropped'',
     ''ObservationsSubmitDropped'', ''RetentionSkipped'', ''RetentionPruneFailed'', ''MQTTInitialConnectFailed'',
     ''MQTTPublisherDropLogs'', ''IngestBadTimestamp'', ''TunablesOrphanOverrides''
    ]"

definition collector_of :: "string \<Rightarrow> (string \<times> collector) option" where
  "collector_of field = map_of collectors field"

definition arity :: "string \<Rightarrow> nat option" where
  "arity field = map_option (\<lambda>(nm, c). length (variable_labels c)) (collector_of field)"

text \<open>\<open>New\<close>: every collector is registered; a registration that panics ends the process.\<close>

fun register_all :: "('r \<Rightarrow> string \<times> collector \<Rightarrow> 'r option) \<Rightarrow> string list \<Rightarrow> 'r \<Rightarrow> 'r option" where
  "register_all register [] r = Some r"
| "register_all register (f # fs) r =
     (case collector_of f of
        None \<Rightarrow> None
      | Some c \<Rightarrow> (case register r c of None \<Rightarrow> None | Some r1 \<Rightarrow> register_all register fs r1))"

definition New_Registry :: "('r \<Rightarrow> string \<times> collector \<Rightarrow> 'r option) \<Rightarrow> 'r \<Rightarrow> 'r option" where
  "New_Registry register reg0 = register_all register register_order reg0"

subsection \<open>The registration does not panic\<close>

text \<open>The data model of the library: names and labels are identifiers, and labels do not begin with two underscores.\<close>

definition label_char :: "char \<Rightarrow> bool" where
  "label_char c \<longleftrightarrow> is_digit c \<or> in_range 97 122 (code c) \<or> in_range 65 90 (code c) \<or> c = CHR ''_''"

definition label_identifier :: "string \<Rightarrow> bool" where
  "label_identifier s \<longleftrightarrow> s \<noteq> [] \<and> \<not> is_digit (hd s) \<and> list_all label_char s"

definition well_formed :: "string \<times> collector \<Rightarrow> bool" where
  "well_formed c \<longleftrightarrow> label_identifier (fst c) \<and> list_all (\<lambda>l. label_identifier l \<and> take 2 l \<noteq> ''__'') (variable_labels (snd c))
     \<and> distinct (variable_labels (snd c))"

text \<open>What the library documents: a well-formed collector with a new name is registered.\<close>

definition registers :: "('r \<Rightarrow> string \<times> collector \<Rightarrow> 'r option) \<Rightarrow> ('r \<Rightarrow> string set) \<Rightarrow> bool" where
  "registers register names \<longleftrightarrow>
     (\<forall>r c. well_formed c \<and> fst c \<notin> names r \<longrightarrow> (\<exists>r'. register r c = Some r' \<and> names r' = insert (fst c) (names r)))"

lemma table_ok:
  "register_order = map fst collectors" "distinct (map fst collectors)" "distinct (map (fst \<circ> snd) collectors)"
  by (simp_all add: register_order_def collectors_def)

lemma label_chars:
  "label_char CHR ''a''" "label_char CHR ''b''" "label_char CHR ''c''" "label_char CHR ''d''" "label_char CHR ''e''"
  "label_char CHR ''f''" "label_char CHR ''g''" "label_char CHR ''h''" "label_char CHR ''i''" "label_char CHR ''j''"
  "label_char CHR ''k''" "label_char CHR ''l''" "label_char CHR ''m''" "label_char CHR ''n''" "label_char CHR ''o''"
  "label_char CHR ''p''" "label_char CHR ''q''" "label_char CHR ''r''" "label_char CHR ''s''" "label_char CHR ''t''"
  "label_char CHR ''u''" "label_char CHR ''v''" "label_char CHR ''w''" "label_char CHR ''x''" "label_char CHR ''y''"
  "label_char CHR ''z''" "label_char CHR ''_''"
  by (simp_all add: label_char_def in_range_def)

lemma not_digits:
  "\<not> is_digit CHR ''a''" "\<not> is_digit CHR ''b''" "\<not> is_digit CHR ''e''" "\<not> is_digit CHR ''k''" "\<not> is_digit CHR ''r''" "\<not> is_digit CHR ''s''" "\<not> is_digit CHR ''z''"
  by (simp_all add: is_digit_def in_range_def)

lemma table_well_formed: "list_all (\<lambda>x. well_formed (snd x)) collectors"
  by (simp add: collectors_def well_formed_def label_identifier_def label_chars not_digits)

lemma register_all_ok:
  assumes "registers register names" "\<forall>x \<in> set xs. collector_of (fst x) = Some (snd x) \<and> well_formed (snd x)"
    "distinct (map (fst \<circ> snd) xs)" "\<forall>x \<in> set xs. fst (snd x) \<notin> names r"
  shows "\<exists>r'. register_all register (map fst xs) r = Some r' \<and> names r' = (fst \<circ> snd) ` set xs \<union> names r"
  using assms(2-4)
proof (induction xs arbitrary: r)
  case (Cons x xs)
  from Cons.prems have x: "collector_of (fst x) = Some (snd x)" "well_formed (snd x)" "fst (snd x) \<notin> names r"
    and xs: "fst (snd x) \<notin> (fst \<circ> snd) ` set xs" "distinct (map (fst \<circ> snd) xs)"
      "\<forall>x \<in> set xs. collector_of (fst x) = Some (snd x) \<and> well_formed (snd x)" "\<forall>y \<in> set xs. fst (snd y) \<notin> names r"
    by (simp_all add: comp_def)
  obtain r1 where r1: "register r (snd x) = Some r1" "names r1 = insert (fst (snd x)) (names r)"
    using assms(1) x(2,3) unfolding registers_def by blast
  have "\<forall>y \<in> set xs. fst (snd y) \<notin> names r1"
  proof
    fix y assume y: "y \<in> set xs"
    then have "fst (snd y) \<noteq> fst (snd x)" using xs(1) by (metis comp_apply image_eqI)
    with y xs(4) show "fst (snd y) \<notin> names r1" by (simp add: r1(2))
  qed
  from Cons.IH [OF xs(3,2) this] obtain r' where "register_all register (map fst xs) r1 = Some r'"
    "names r' = (fst \<circ> snd) ` set xs \<union> names r1" by blast
  then show ?case by (simp add: x(1) r1)
qed simp

text \<open>
  The metrics can always be registered: with a library that registers every well-formed collector with a new name, the start gets
  through the registrations without a panic, and afterwards every collector of the struct is registered under its own name.
\<close>

theorem registry_builds:
  assumes "registers register names" "names reg0 = {}"
  shows "\<exists>r. New_Registry register reg0 = Some r \<and> names r = (fst \<circ> snd) ` set collectors"
proof -
  have "collector_of (fst x) = Some (snd x) \<and> well_formed (snd x)" if "x \<in> set collectors" for x
    using that table_ok(2) table_well_formed by (simp add: collector_of_def map_of_is_SomeI list_all_iff)
  with register_all_ok [OF assms(1) _ table_ok(3), of reg0] assms(2) show ?thesis by (simp add: New_Registry_def table_ok(1))
qed

text \<open>The library that keeps the names in a list.\<close>

theorem registry_builds_witness:
  "\<exists>r. New_Registry (\<lambda>r c. if fst c \<in> set r then None else Some (fst c # r)) [] = Some r
    \<and> set r = (fst \<circ> snd) ` set collectors"
proof -
  have "registers (\<lambda>r c. if fst c \<in> set r then None else Some (fst c # r)) set" by (simp add: registers_def)
  from registry_builds [OF this, of "[]"] show ?thesis by simp
qed

end
