(* ===== verification/Ingest_Checked.thy ===== *)
theory Ingest_Checked
  imports Ingest_Guarantees Metrics
begin

section \<open>The ingest handler and the metrics library\<close>

text \<open>
  \<open>WithLabelValues\<close> of the client library panics on label values that are not valid UTF-8, or of the wrong number. \<open>net/http\<close>
  recovers from a panic of a handler and drops the connection, so the rest of the post is lost. This theory has the ingest handler with
  these panics; \<open>handleIngest\<close> is the handler when no call panics. What a post does in either case is in \<open>Ingest_Panics\<close>.
\<close>

subsection \<open>The handler\<close>

text \<open>The collector and the label values of a metric call; \<open>None\<close> for a log line.\<close>

fun metric_use :: "metric \<Rightarrow> (string \<times> string list) option" where
  "metric_use (IngestRequests endpoint status) = Some (''IngestRequests'', [endpoint, show_nat status])"
| "metric_use (AuthFailures endpoint reason) = Some (''AuthFailures'', [endpoint, reason])"
| "metric_use GunzipFailures = Some (''GunzipFailures'', [])"
| "metric_use (ParserErrors ap) = Some (''ParserErrors'', [ap])"
| "metric_use (ParserErrorLog ap) = None"
| "metric_use (AnonymousAdverts ap) = Some (''AnonymousAdverts'', [ap])"
| "metric_use (AdvertsByKind kd ap) = Some (''AdvertsByKind'', [kd, ap])"
| "metric_use (UnknownBeacons kd ky ap) = Some (''UnknownBeacons'', [kd, ky, ap])"
| "metric_use (IngestBadTimestamp ap) = Some (''IngestBadTimestamp'', [ap])"
| "metric_use (BadTimestampLog ap ms) = None"
| "metric_use RawPostInsertErrors = Some (''RawPostInsertErrors'', [])"
| "metric_use (HeartbeatGateways n) = Some (''HeartbeatGateways'', [])"

definition call_ok :: "(string \<Rightarrow> string list \<Rightarrow> bool) \<Rightarrow> metric \<Rightarrow> bool" where
  "call_ok accepts m = (case metric_use m of None \<Rightarrow> True | Some (field, vals) \<Rightarrow> accepts field vals)"

text \<open>
  A loop whose steps call metrics, and stops at the first call that panics. In the loops of the handler every metric call of a step
  comes before its other effects.
\<close>

fun checked_fold :: "('m \<Rightarrow> bool) \<Rightarrow> ('s \<Rightarrow> 'm list) \<Rightarrow> ('m list \<Rightarrow> 's \<Rightarrow> 's) \<Rightarrow> ('a \<Rightarrow> 's \<Rightarrow> 's) \<Rightarrow> 'a list \<Rightarrow> 's \<Rightarrow> bool \<times> 's" where
  "checked_fold ok calls set_calls step [] s = (True, s)"
| "checked_fold ok calls set_calls step (x # xs) s =
     (let s1 = step x s; new = drop (length (calls s)) (calls s1) in
      if list_all ok new then checked_fold ok calls set_calls step xs s1
      else (False, set_calls (calls s @ takeWhile ok new) s))"

definition handleIngest_checked :: "(string \<Rightarrow> string list \<Rightarrow> bool) \<Rightarrow> Codecs \<Rightarrow> gtime \<Rightarrow> Request \<Rightarrow> 'w Server \<times> 'w
    \<Rightarrow> nat option \<times> 'w Server \<times> 'w" where
  "handleIngest_checked accepts cod now r sw =
     (let (s, w) = sw in
      case readBody cod r s of
        (None, s1) \<Rightarrow> (Some 400, bump (IngestRequests ''/ingest'' 400) s1, w)
      | (Some (plain, raw), s1) \<Rightarrow>
          (case unmarshalIngest cod plain of
             None \<Rightarrow> (Some 400, bump (IngestRequests ''/ingest'' 400) s1, w)
           | Some p \<Rightarrow>
               (let ap = ToLower (ip_GatewayEUID p);
                    cfg = capture s1 w;
                    (rawPostID, s2, w1) = maybeRecordRawPost ''/ingest'' r raw cfg (s1, w)
                in case checked_fold (call_ok accepts) (\<lambda>(s, items, tel). metrics s) (\<lambda>ms (s, rest). (s\<lparr>metrics := ms\<rparr>, rest))
                       (first_pass now ap) (ip_Events p) (s2, [], []) of
                     (False, s3, items, tel) \<Rightarrow> (None, s3, w1)
                   | (True, s3, items, tel) \<Rightarrow>
                       (case checked_fold (call_ok accepts) (\<lambda>(s, w). metrics s) (\<lambda>ms (s, w). (s\<lparr>metrics := ms\<rparr>, w))
                            (second_pass now ap (ip_APName p) tel cfg rawPostID) items (s3, w1) of
                          (False, s4, w2) \<Rightarrow> (None, s4, w2)
                        | (True, s4, w2) \<Rightarrow> (Some 200, bump (IngestRequests ''/ingest'' 200) s4, w2)))))"

text \<open>What the library documents of \<open>WithLabelValues\<close>.\<close>

definition documented :: "(string \<Rightarrow> string list \<Rightarrow> bool) \<Rightarrow> bool" where
  "documented accepts \<longleftrightarrow>
     (\<forall>field vals. accepts field vals \<longleftrightarrow> arity field = Some (length vals) \<and> list_all utf8_Valid vals)"

subsection \<open>Every call has the right number of values\<close>

lemma arities:
  "arity ''IngestRequests'' = Some 2" "arity ''AuthFailures'' = Some 2" "arity ''GunzipFailures'' = Some 0"
  "arity ''ParserErrors'' = Some 1" "arity ''AnonymousAdverts'' = Some 1" "arity ''AdvertsByKind'' = Some 2"
  "arity ''UnknownBeacons'' = Some 3" "arity ''IngestBadTimestamp'' = Some 1" "arity ''RawPostInsertErrors'' = Some 0"
  "arity ''HeartbeatGateways'' = Some 0" "arity ''BeaconInSticky'' = Some 1" "arity ''PerAPEffectiveRSSI'' = Some 2"
  "arity ''ArrivalLatencySeconds'' = Some 0"
  by (simp_all add: arity_def collector_of_def collectors_def)

lemma metric_arity: "metric_use m = Some (field, vals) \<Longrightarrow> arity field = Some (length vals)"
  by (cases m) (auto simp: arities)

lemma call_ok_iff:
  "documented accepts \<Longrightarrow> call_ok accepts m \<longleftrightarrow> (case metric_use m of None \<Rightarrow> True | Some (f, vals) \<Rightarrow> list_all utf8_Valid vals)"
  using metric_arity by (auto simp: call_ok_def documented_def split: option.split)

subsection \<open>The loops\<close>

lemma checked_fold_append:
  "checked_fold ok calls put step (xs @ ys) s =
     (case checked_fold ok calls put step xs s of (True, s1) \<Rightarrow> checked_fold ok calls put step ys s1 | (False, s1) \<Rightarrow> (False, s1))"
  by (induction xs arbitrary: s) (auto simp: Let_def)

lemma checked_fold_all:
  assumes "\<And>x s. x \<in> set xs \<Longrightarrow> P s \<Longrightarrow> list_all ok (drop (length (calls s)) (calls (step x s))) \<and> P (step x s)" "P s"
  shows "checked_fold ok calls put step xs s = (True, fold step xs s)"
  using assms by (induction xs arbitrary: s) (auto simp: Let_def)

definition first_calls :: "gtime \<Rightarrow> string \<Rightarrow> ingestEvent \<Rightarrow> 'w Server \<Rightarrow> metric list" where
  "first_calls now ap ev s =
     (if decodes ev then []
      else ParserErrors ap # (if s64 (unix_nano now - lastParserErrLog s) \<ge> second then [ParserErrorLog ap] else []))"

lemma first_pass_calls:
  "metrics (fst (first_pass now ap ev (s, items, tel))) = metrics s @ first_calls now ap ev s"
proof (cases rule: Parse_cases [of ev])
  case (1 perr)
  then show ?thesis by (simp add: first_pass_def first_calls_def bump_def Let_def)
next
  case 2
  then show ?thesis by (simp add: first_pass_def first_calls_def Let_def split: option.split)
qed

lemma second_pass_calls:
  assumes "BeaconLookup (srv_opts s) = Some look"
  shows "\<exists>logs. metrics (fst (second_pass now ap gw tel cfg rid it (s, w))) = metrics s
      @ (case pe_key it of
           None \<Rightarrow> [AnonymousAdverts ap]
         | Some k \<Rightarrow> AdvertsByKind (kind k) ap # (if snd (look k w) then [] else [UnknownBeacons (kind k) (key k) ap])
             @ (if ie_Timestamp (pe_ev it) \<le> 0 then IngestBadTimestamp ap # logs else []))
    \<and> (\<forall>m \<in> set logs. metric_use m = None)"
proof (cases "pe_key it")
  case None
  then show ?thesis by (intro exI [of _ "[]"]) (simp add: second_pass_def bump_def)
next
  case (Some k)
  then show ?thesis
    using assms
    by (intro exI [of _ "if s64 (unix_nano now - lastBadTimestampLog s) < second then [] else [BadTimestampLog ap (ie_Timestamp (pe_ev it))]"])
       (simp add: second_pass_def bump_def maybeLogBadTimestamp_def msToTime_zero_iff Let_def split_beta)
qed

lemma checked_fold_True: "checked_fold ok calls put step xs s = (True, s') \<Longrightarrow> s' = fold step xs s"
  by (induction xs arbitrary: s) (auto simp: Let_def split: if_splits)

lemma checked_fold_False:
  "checked_fold ok calls put step xs s = (False, s') \<Longrightarrow> \<exists>n ms. s' = put ms (fold step (take n xs) s)"
proof (induction xs arbitrary: s)
  case (Cons x xs)
  show ?case
  proof (cases "list_all ok (drop (length (calls s)) (calls (step x s)))")
    case True
    with Cons.prems have "checked_fold ok calls put step xs (step x s) = (False, s')" by (simp add: Let_def)
    from Cons.IH [OF this] obtain n ms where "s' = put ms (fold step (take n xs) (step x s))" by blast
    then show ?thesis by (intro exI [of _ "Suc n"] exI [of _ ms]) simp
  next
    case False
    with Cons.prems show ?thesis by (intro exI [of _ 0]) (auto simp: Let_def)
  qed
qed simp

end
