(* ===== verification/Bridge_Run.thy ===== *)
theory Bridge_Run
  imports Bridge_Guarantees Ingest_Checked
begin

section \<open>All interleavings of the bridge\<close>

text \<open>
  The goroutines of \<open>main.go\<close> and the requests of the two servers as one step relation, each step one critical section or one
  statement of the database. The invariant covers what every component relies on; it holds from a successful start on.
\<close>

subsection \<open>Steps\<close>

text \<open>What the driver promises: the sequence is no table, and a copy touches its own table only.\<close>

definition quiet_sequence :: "CallEnv \<Rightarrow> bool" where
  "quiet_sequence ce \<longleftrightarrow> (\<forall>db. snd (ce_nextval ce db) = db)"

definition copies_observations :: "(obs_row, Database) copy_fn \<Rightarrow> bool" where
  "copies_observations copy \<longleftrightarrow> (\<forall>rows db. \<exists>xs. snd (copy rows db) = db\<lparr>db_observations := xs\<rparr>)"

definition copies_raw_posts :: "(raw_row, Database) copy_fn \<Rightarrow> bool" where
  "copies_raw_posts copy \<longleftrightarrow> (\<forall>rows db. \<exists>xs. snd (copy rows db) = db\<lparr>db_raw_posts := xs\<rparr>)"

abbreviation in_world :: "(World \<Rightarrow> World) \<Rightarrow> Bridge \<Rightarrow> Bridge" where
  "in_world f b \<equiv> b\<lparr>bridge_world := f (bridge_world b)\<rparr>"

definition write_obs :: "(ObservationsWriter \<times> Database \<Rightarrow> ObservationsWriter \<times> Database) \<Rightarrow> World \<Rightarrow> World" where
  "write_obs f w = (let (ow, db) = f (w_obs w, w_db w) in w\<lparr>w_obs := ow, w_db := db\<rparr>)"

definition write_raw :: "(RawPostsWriter \<times> Database \<Rightarrow> RawPostsWriter \<times> Database) \<Rightarrow> World \<Rightarrow> World" where
  "write_raw f w = (let (rw, db) = f (w_raw w, w_db w) in w\<lparr>w_raw := rw, w_db := db\<rparr>)"

definition prune_tick :: "bool \<Rightarrow> bool \<Rightarrow> gtime \<Rightarrow> World \<Rightarrow> World" where
  "prune_tick fault1 fault2 now w =
     (let (rr, db) = RunOnce fault1 fault2 (w_snap w) now (w_retention w, w_db w) in w\<lparr>w_retention := rr, w_db := db\<rparr>)"

inductive bstep :: "Bridge \<Rightarrow> Bridge \<Rightarrow> bool" where
  ingest: "quiet_sequence ce \<Longrightarrow> Routes cod now r (meeting ce (bridge_ingest b), bridge_world b) = (status, s', w') \<Longrightarrow>
    bstep b (b\<lparr>bridge_ingest := s', bridge_world := w'\<rparr>)"
| ingest_cut: "quiet_sequence ce \<Longrightarrow> req_Path r = ''/ingest'' \<Longrightarrow> authorised r (meeting ce (bridge_ingest b)) \<Longrightarrow>
    handleIngest_checked accepts cod now r (meeting ce (bridge_ingest b), bridge_world b) = (None, s', w') \<Longrightarrow>
    bstep b (b\<lparr>bridge_ingest := s', bridge_world := w'\<rparr>)"
| admin: "bridge_admin b = Some opts \<Longrightarrow> adm_Routes opts src en r (admin_view (bridge_world b)) = (resp, a) \<Longrightarrow>
    bstep b (in_world (put_admin a) b)"
| clock: "clk (w_engine (bridge_world b)) \<le> t \<Longrightarrow> bstep b (in_world (\<lambda>w. w\<lparr>w_engine := (w_engine w)\<lparr>clk := t\<rparr>\<rparr>) b)"
| tick: "bstep b (in_world (\<lambda>w. w\<lparr>w_engine := Tick (w_engine w)\<rparr>) b)"
| reorder: "mset m = mset (e_beacons (w_engine (bridge_world b))) \<Longrightarrow>
    bstep b (in_world (\<lambda>w. w\<lparr>w_engine := (w_engine w)\<lparr>e_beacons := m\<rparr>\<rparr>) b)"
| pump_event: "bstep b (in_world (pump env1 env2) b)"
| telemetry: "bstep b (in_world telemetry_tick b)"
| ha_birth: "bstep b (in_world (birth body) b)"
| publish: "bstep b (in_world (publish_next marshal broker) b)"
| connect: "bstep b (in_world (\<lambda>w. w\<lparr>w_pub := onConnect (w_pub w)\<rparr>) b)"
| obs_row: "copies_observations copy \<Longrightarrow> bstep b (in_world (write_obs (obs_receive (InsertObservations copy))) b)"
| obs_flush: "copies_observations copy \<Longrightarrow> bstep b (in_world (write_obs (obs_flushBatch (InsertObservations copy))) b)"
| raw_row: "copies_raw_posts copy \<Longrightarrow> bstep b (in_world (write_raw (raw_receive (insertRawPostBatch copy now))) b)"
| raw_flush: "copies_raw_posts copy \<Longrightarrow> bstep b (in_world (write_raw (raw_flushBatch (insertRawPostBatch copy now))) b)"
| prune: "bstep b (in_world (prune_tick fault1 fault2 now) b)"
| persist: "bstep b (in_world (persistPresence fault) b)"

inductive_cases bstepE: "bstep b b'"

subsection \<open>What the ingest server leaves alone\<close>

lemma second_pass_opts: "srv_opts (fst (second_pass now ap gw tel cfg rid it (s, w))) = srv_opts s"
  by (auto simp: second_pass_def maybeLogBadTimestamp_def Let_def split: option.split prod.split)

lemma second_pass_fold_opts: "srv_opts (fst (fold (second_pass now ap gw tel cfg rid) items (s, w))) = srv_opts s"
proof (induction items arbitrary: s w)
  case (Cons it items)
  obtain s1 w1 where 1: "second_pass now ap gw tel cfg rid it (s, w) = (s1, w1)" by fastforce
  have "srv_opts s1 = srv_opts s" using second_pass_opts [of now ap gw tel cfg rid it s w] 1 by simp
  with Cons.IH [of s1 w1] 1 show ?case by simp
qed simp

lemma first_pass_fold_opts:
  assumes "fold (first_pass now ap) evs (s, [], []) = (s', items, tel)"
  shows "srv_opts s' = srv_opts s"
  using first_pass_fold [of now ap evs s] assms by auto

lemma readBody_opts: "readBody cod r s = (x, s1) \<Longrightarrow> srv_opts s1 = srv_opts s"
  by (auto simp: readBody_def Let_def split: if_splits option.splits prod.splits)

lemma handleIngest_opts: "handleIngest cod now r (s, w) = (status, s', w') \<Longrightarrow> srv_opts s' = srv_opts s"
  by (auto simp: handleIngest_def Let_def dest!: readBody_opts maybeRecordRawPost_server(1) first_pass_fold_opts
      split: option.splits prod.splits) (metis fst_conv second_pass_fold_opts)+

lemma handleHeartbeat_opts: "handleHeartbeat cod r (s, w) = (status, s', w') \<Longrightarrow> srv_opts s' = srv_opts s"
  by (auto simp: handleHeartbeat_def Let_def dest!: readBody_opts maybeRecordRawPost_server(1) split: option.splits prod.splits)

text \<open>All that a request to the ingest server can do to the rest of the bridge: sightings.\<close>

definition only_sightings :: "World \<Rightarrow> World \<Rightarrow> bool" where
  "only_sightings w w' \<longleftrightarrow>
     w_db w' = w_db w \<and> w_snap w' = w_snap w \<and> w_current w' = w_current w \<and> w_pub w' = w_pub w
     \<and> (\<exists>ss. w_engine w' = fold Submit ss (w_engine w))"

lemma only_sightings_refl [simp]: "only_sightings w w"
  by (auto simp: only_sightings_def intro: exI [of _ "[]"])

lemma handleIngest_world:
  assumes "wired ce s" "quiet_sequence ce" "handleIngest cod now r (s, w) = (status, s', w')"
  shows "only_sightings w w'"
proof (cases "readBody cod r s")
  case (Pair x s1)
  show ?thesis
  proof (cases x)
    case None
    with Pair assms(3) show ?thesis by (simp add: handleIngest_def)
  next
    case (Some y)
    obtain plain raw where y: "y = (plain, raw)" by fastforce
    show ?thesis
    proof (cases "unmarshalIngest cod plain")
      case None
      with Pair Some y assms(3) show ?thesis by (simp add: handleIngest_def)
    next
      case (Some p)
      have "readBody cod r s = (Some (plain, raw), s1)" using Pair \<open>x = Some y\<close> y by simp
      from ingest_effect [OF assms(1) this Some assms(3)] assms(2) show ?thesis
        unfolding only_sightings_def quiet_sequence_def Let_def by auto
    qed
  qed
qed

lemma handleHeartbeat_world:
  assumes "wired ce s" "quiet_sequence ce" "handleHeartbeat cod r (s, w) = (status, s', w')"
  shows "only_sightings w w'"
proof -
  have hb: "OnHeartbeat (srv_opts s1) = Some note_heartbeat" if "srv_opts s1 = srv_opts s" for s1
    using wired_callbacks(6) [OF assms(1)] that by simp
  have same: "only_sightings w w1" "only_sightings w (note_heartbeat on off w1)" "OnHeartbeat (srv_opts s2) = Some note_heartbeat"
    if "maybeRecordRawPost ep r raw cfg (s, w) = (i, s2, w1)" for ep raw cfg i s2 w1 on off
    using raw_post_frame [OF that assms(1)] assms(2) hb [of s2]
    by (auto simp: only_sightings_def quiet_sequence_def note_heartbeat_def intro: exI [of _ "[]"])
  show ?thesis
    using assms(3) same
    by (auto simp: handleHeartbeat_def Let_def dest: readBody_some split: option.splits prod.splits)
qed

lemma Routes_effect:
  assumes "wired ce s" "quiet_sequence ce" "Routes cod now r (s, w) = (status, s', w')"
  shows "only_sightings w w'" "srv_opts s' = srv_opts s"
proof -
  have "only_sightings w w' \<and> srv_opts s' = srv_opts s"
    using assms(3) handleIngest_world [OF assms(1,2)] handleHeartbeat_world [OF assms(1,2)]
    by (auto simp: Routes_def requireAuth_def handleHealth_def dest: handleIngest_opts handleHeartbeat_opts split: if_splits)
  then show "only_sightings w w'" "srv_opts s' = srv_opts s" by simp_all
qed

text \<open>A handler that panics has taken some of the reports of its post.\<close>

lemma second_pass_prefix:
  assumes "wired ce s3" "\<forall>euid. mget tel euid = reported_telemetry evs euid"
    and "fold (second_pass now ap gw tel cfg rid) (take n (parsed evs)) (s3, w1) = (s4, w2)"
  shows "srv_opts s4 = srv_opts s3 \<and> w_db w2 = w_db w1 \<and> w_snap w2 = w_snap w1 \<and> w_current w2 = w_current w1
    \<and> w_pub w2 = w_pub w1 \<and> (\<exists>ss. w_engine w2 = fold Submit ss (w_engine w1))"
proof -
  have "filter decodes (take n (filter decodes evs)) = take n (filter decodes evs)"
    by (rule filter_True) (auto dest: in_set_takeD)
  then have "take n (parsed evs) = parsed (take n (filter decodes evs))" by (simp add: parsed_def take_map)
  with second_pass_fold [OF wired_callbacks(1-3) [OF assms(1)] assms(2), of now ap gw cfg rid "take n (filter decodes evs)" w1] assms(3)
  show ?thesis by (auto simp: take_reports)
qed

lemma handleIngest_cut:
  assumes "wired ce s" "quiet_sequence ce" "handleIngest_checked accepts cod now r (s, w) = (None, s', w')"
  shows "only_sightings w w' \<and> srv_opts s' = srv_opts s"
proof -
  obtain plain raw s1 p where rb: "readBody cod r s = (Some (plain, raw), s1)" and p: "unmarshalIngest cod plain = Some p"
  proof (cases "readBody cod r s")
    case (Pair x s1)
    show thesis
    proof (cases x)
      case None
      with Pair assms(3) show thesis by (simp add: handleIngest_checked_def)
    next
      case (Some y)
      obtain plain raw where y: "y = (plain, raw)" by fastforce
      show thesis
      proof (cases "unmarshalIngest cod plain")
        case None
        with Pair Some y assms(3) show thesis by (simp add: handleIngest_checked_def)
      next
        case (Some p)
        with Pair \<open>x = Some y\<close> y show thesis by (intro that) simp_all
      qed
    qed
  qed
  have s1: "s1 = s" using readBody_some [OF rb] by simp
  let ?ap = "ToLower (ip_GatewayEUID p)"
  obtain rid s2 w1 where m: "maybeRecordRawPost ''/ingest'' r raw (capture s w) (s, w) = (rid, s2, w1)"
    by (cases "maybeRecordRawPost ''/ingest'' r raw (capture s w) (s, w)")
  note fr = raw_post_frame [OF m assms(1)]
  have w1: "only_sightings w w1"
    using fr assms(2) by (auto simp: only_sightings_def quiet_sequence_def intro: exI [of _ "[]"])
  let ?c1 = "checked_fold (call_ok accepts) (\<lambda>(s, items, tel). metrics s) (\<lambda>ms (s, rest). (s\<lparr>metrics := ms\<rparr>, rest))
      (first_pass now ?ap) (ip_Events p) (s2, [], [])"
  obtain b1 s3 items tel where c1: "?c1 = (b1, s3, items, tel)" by (cases ?c1) auto
  show ?thesis
  proof (cases b1)
    case False
    with c1 have c1': "?c1 = (False, s3, items, tel)" by simp
    with assms(3) have w': "w' = w1" "s' = s3" by (simp_all add: handleIngest_checked_def rb p s1 m Let_def)
    from checked_fold_False [OF c1'] obtain n ms where
      "(s3, items, tel) = (\<lambda>(s, rest). (s\<lparr>metrics := ms\<rparr>, rest)) (fold (first_pass now ?ap) (take n (ip_Events p)) (s2, [], []))" by blast
    moreover obtain s3' it' tel' where 3: "fold (first_pass now ?ap) (take n (ip_Events p)) (s2, [], []) = (s3', it', tel')"
      by (cases "fold (first_pass now ?ap) (take n (ip_Events p)) (s2, [], [])") auto
    ultimately have "srv_opts s3 = srv_opts s2" using first_pass_fold_opts [OF 3] by simp
    with fr(9) w1 show ?thesis by (simp add: w')
  next
    case True
    with c1 have c1': "?c1 = (True, s3, items, tel)" by simp
    have f: "items = parsed (ip_Events p)" "srv_opts s3 = srv_opts s2" "\<forall>euid. mget tel euid = reported_telemetry (ip_Events p) euid"
      using first_pass_fold [of now ?ap "ip_Events p" s2] checked_fold_True [OF c1'] by auto
    let ?step = "second_pass now ?ap (ip_APName p) tel (capture s w) rid"
    let ?c2 = "checked_fold (call_ok accepts) (\<lambda>(s, w). metrics s) (\<lambda>ms (s, w). (s\<lparr>metrics := ms\<rparr>, w)) ?step items (s3, w1)"
    obtain b2 s4 w2 where c2: "?c2 = (b2, s4, w2)" by (cases ?c2) auto
    have b2: "\<not> b2"
    proof
      assume b2
      with c2 c1' assms(3) show False by (simp add: handleIngest_checked_def rb p s1 m Let_def)
    qed
    with c2 have c2': "?c2 = (False, s4, w2)" by simp
    with c1' assms(3) have w': "s' = s4" "w' = w2" by (simp_all add: handleIngest_checked_def rb p s1 m Let_def)
    from checked_fold_False [OF c2'] obtain n ms where
      n: "(s4, w2) = (\<lambda>(s, w). (s\<lparr>metrics := ms\<rparr>, w)) (fold ?step (take n items) (s3, w1))" by blast
    obtain s5 w5 where 5: "fold ?step (take n items) (s3, w1) = (s5, w5)" by fastforce
    have "wired ce s3" using assms(1) f(2) fr(9) by (simp add: wired_def)
    from second_pass_prefix [OF this f(3) 5 [unfolded f(1)]] n 5 f(2) fr(9)
    have 6: "srv_opts s' = srv_opts s" "w_db w' = w_db w1" "w_snap w' = w_snap w1" "w_current w' = w_current w1" "w_pub w' = w_pub w1"
      "\<exists>ss. w_engine w' = fold Submit ss (w_engine w1)" by (simp_all add: w')
    moreover have "\<exists>ss. w_engine w' = fold Submit ss (w_engine w)" using 6(6) fr(1) by simp
    ultimately show ?thesis using w1 by (simp add: only_sightings_def)
  qed
qed

subsection \<open>Tracked keys stay known\<close>

lemma known_keys_iff: "known_keys e \<longleftrightarrow> (\<forall>k. snd (IsTracked k e) \<longrightarrow> known_key k)"
proof -
  have "k \<in> fst ` set (e_beacons e) \<longleftrightarrow> snd (IsTracked k e)" for k
    using map_of_eq_None_iff [of "e_beacons e" k] by (auto simp: IsTracked_def split: option.split)
  then show ?thesis unfolding known_keys_def by blast
qed

lemma known_keys_fst: "map fst (e_beacons e') = map fst (e_beacons e) \<Longrightarrow> known_keys e' = known_keys e"
  unfolding known_keys_def by (metis list.set_map)

lemma known_keys_Submits: "known_keys (fold Submit ss e) = known_keys e"
  by (simp add: known_keys_iff Submits_tracked)

lemma known_keys_Tick: "known_keys (Tick e) = known_keys e"
  by (rule known_keys_fst) (simp add: Tick_def recomputeAll_def recompute_at_eq recompute.fold_apply_frame)

lemma known_keys_core: "same_core e e' \<Longrightarrow> known_keys e' = known_keys e"
  by (simp add: known_keys_def same_core_def)

lemma scan_beacons_known:
  "scan_beacons rs out = Inr bs \<Longrightarrow> \<forall>b \<in> set out. known_key (b_Key b) \<Longrightarrow> \<forall>b \<in> set bs. known_key (b_Key b)"
proof (induction rs arbitrary: out)
  case (Cons r rs)
  obtain k where k: "FromStoreKey (br_kind r) (br_key r) = Some k" using Cons.prems(1) by (auto split: option.splits)
  then have "known_key k" by (simp add: FromStoreKey_def known_key_def split: if_splits) (metis mk_key_sel)
  with Cons.IH [of "out @ [\<lparr>b_Key = k, b_Name = br_name r, b_Notes = (case br_notes r of None \<Rightarrow> [] | Some n \<Rightarrow> n)\<rparr>]"]
    Cons.prems k show ?case by simp
qed simp

lemma tracked_of_keys:
  "tracked_of bs out = Inr tr \<Longrightarrow> tb_key ` set tr = tb_key ` set out \<union> b_Key ` set bs"
  by (induction bs arbitrary: out) (auto simp: NewTrackedBeacon_def split: sum.splits if_splits)

lemma NewTopology_beacons: "NewTopology zs bs = Inr t \<Longrightarrow> beacons t = bs"
  using add_beacons_ok [of 0 "[]" "[]" bs "[]"] by (auto simp: NewTopology_def split: sum.splits)

lemma read_topology_known:
  assumes "read_topology en db = Inr tp"
  shows "\<exists>zs. NewTopology zs (beacons tp) = Inr tp" "\<forall>k \<in> tb_key ` set (beacons tp). known_key k"
proof -
  obtain bs zs tr where l: "ListBeacons (ae_beaconsFault en) (ae_beaconOrder en) db = Inr bs" "tracked_of bs [] = Inr tr"
    "NewTopology zs tr = Inr tp"
    using assms by (auto simp: read_topology_def split: sum.splits)
  have "beacons tp = tr" by (rule NewTopology_beacons [OF l(3)])
  moreover have "\<forall>b \<in> set bs. known_key (b_Key b)"
    using l(1) scan_beacons_known [of _ "[]" bs] by (auto simp: ListBeacons_def split: if_splits)
  ultimately show "\<exists>zs. NewTopology zs (beacons tp) = Inr tp" "\<forall>k \<in> tb_key ` set (beacons tp). known_key k"
    using l(3) tracked_of_keys [OF l(2)] by auto
qed

lemma ApplyTopology_known:
  assumes "NewTopology zs (beacons tp) = Inr tp" "mwf (e_beacons e)" "\<forall>k \<in> tb_key ` set (beacons tp). known_key k"
  shows "known_keys (ApplyTopology (Some tp) e)"
proof -
  have "known_key k" if "snd (IsTracked k (ApplyTopology (Some tp) e))" for k
  proof (cases "find (\<lambda>b. tb_key b = k) (beacons tp)")
    case None
    with that show ?thesis by (simp add: ApplyTopology_tracked [OF assms(1,2)])
  next
    case (Some tb)
    then have "tb \<in> set (beacons tp)" "tb_key tb = k" by (auto simp: find_Some_iff)
    with assms(3) show ?thesis by blast
  qed
  then show ?thesis by (simp add: known_keys_iff)
qed

subsection \<open>The engine under admin requests\<close>

definition engine_ok :: "Engine \<Rightarrow> bool" where
  "engine_ok e \<longleftrightarrow> engine_inv e \<and> known_keys e"

lemma engine_ok_topology: "engine_ok e \<Longrightarrow> read_topology en db = Inr tp \<Longrightarrow> engine_ok (ApplyTopology (Some tp) e)"
  using read_topology_known [of en db tp] ApplyTopology_inv ApplyTopology_known engine_inv_mwf by (metis engine_ok_def)

lemma engine_ok_republish: "engine_ok e \<Longrightarrow> engine_ok (RepublishAll e)"
  using RepublishAll_inv known_keys_core [OF RepublishAll_core] by (auto simp: engine_ok_def)

lemma engine_ok_tunables: "engine_ok e \<Longrightarrow> engine_ok (ApplyTunables tn e)"
  using ApplyTunables_inv by (auto simp: engine_ok_def ApplyTunables_def known_keys_def split: option.splits)

lemma rebuild_engineD:
  "rebuildEngineTopology opts en w = (err, w1) \<Longrightarrow> engine_ok (aw_engine w) \<Longrightarrow> engine_ok (aw_engine w1)"
  by (auto simp: rebuildEngineTopology_def engine_ok_topology split: if_splits sum.splits)

lemma reconcile_engineD: "reconcileOrphans opts en w = (x, w1) \<Longrightarrow> aw_engine w1 = aw_engine w"
  by (auto simp: reconcileOrphans_def split: if_splits sum.splits prod.splits)

lemma engine_handlers:
  assumes "engine_ok (aw_engine w)"
  shows "engine_ok (aw_engine (snd (handleTunables en r w)))" "engine_ok (aw_engine (snd (handleDevicePromote opts en r w)))"
    "engine_ok (aw_engine (snd (handleDeviceDemote opts en r w)))" "engine_ok (aw_engine (snd (handleDevicesRefreshEngine opts en r w)))"
    "engine_ok (aw_engine (snd (handleDevicesResyncHA opts en r w)))" "engine_ok (aw_engine (snd (handleZones opts en r w)))"
    "engine_ok (aw_engine (snd (handleZonesRefreshEngine opts en r w)))" "engine_ok (aw_engine (snd (handleSettings en r w)))"
  using assms
  by (auto simp: handleTunables_def handleTunablesPost_def handleDevicePromote_def handleDeviceDemote_def
      handleDevicesRefreshEngine_def handleDevicesResyncHA_def handleZones_def handleZonesPost_def handleZonesRefreshEngine_def
      handleSettings_def handleSettingsPost_def Let_def engine_ok_tunables engine_ok_republish
      dest: rebuild_engineD dest!: reconcile_engineD split: prod.split option.split sum.split)

interpretation engine: request_invariant "serve_admin opts" "\<lambda>w. engine_ok (aw_engine w)" for opts
  by unfold_locales (simp add: serve_admin_def, rule routes_keep, simp_all add: engine_handlers)

subsection \<open>The stored tunables are the current ones\<close>

definition tunables_stored :: "AdminWorld \<Rightarrow> bool" where
  "tunables_stored w \<longleftrightarrow>
     db_defaults (aw_db w) = Some (Defaults (aw_current w)) \<and> db_overrides (aw_db w) = Tun_Beacons (aw_current w)"

definition same_tunables :: "AdminWorld \<Rightarrow> AdminWorld \<Rightarrow> bool" where
  "same_tunables w w' \<longleftrightarrow>
     db_defaults (aw_db w') = db_defaults (aw_db w) \<and> db_overrides (aw_db w') = db_overrides (aw_db w) \<and> aw_current w' = aw_current w"

lemma other_tunables:
  "db_defaults (snd (PromoteBeacon f b db)) = db_defaults db" "db_defaults (snd (DemoteBeacon g k db)) = db_defaults db"
  "db_defaults (snd (UpsertZone g z db)) = db_defaults db" "db_defaults (snd (DeleteZone g m db)) = db_defaults db"
  "db_defaults (snd (SaveSettings g st db)) = db_defaults db"
  "db_overrides (snd (PromoteBeacon f b db)) = db_overrides db" "db_overrides (snd (DemoteBeacon g k db)) = db_overrides db"
  "db_overrides (snd (UpsertZone g z db)) = db_overrides db" "db_overrides (snd (DeleteZone g m db)) = db_overrides db"
  "db_overrides (snd (SaveSettings g st db)) = db_overrides db"
  by (auto simp: PromoteBeacon_def insert_beacon_def DemoteBeacon_def UpsertZone_def DeleteZone_def SaveSettings_def Let_def
      split: option.split prod.split sum.split)

lemma rebuild_currentD: "rebuildEngineTopology opts en w = (e, w1) \<Longrightarrow> aw_current w1 = aw_current w"
  by (auto simp: rebuildEngineTopology_def split: if_splits sum.splits)

lemma reconcile_currentD: "reconcileOrphans opts en w = (x, w1) \<Longrightarrow> aw_current w1 = aw_current w"
  by (auto simp: reconcileOrphans_def split: if_splits sum.splits prod.splits)

lemma other_current:
  "aw_current (snd (handleZonesPost opts en r w)) = aw_current w" "aw_current (snd (handleDevicePromote opts en r w)) = aw_current w"
  "aw_current (snd (handleDeviceDemote opts en r w)) = aw_current w"
  "aw_current (snd (handleDevicesRefreshEngine opts en r w)) = aw_current w"
  "aw_current (snd (handleZonesRefreshEngine opts en r w)) = aw_current w"
  "aw_current (snd (handleDevicesResyncHA opts en r w)) = aw_current w" "aw_current (snd (handleSettingsPost en r w)) = aw_current w"
  by (auto simp: handleZonesPost_def handleDevicePromote_def handleDeviceDemote_def handleDevicesRefreshEngine_def
      handleZonesRefreshEngine_def handleDevicesResyncHA_def handleSettingsPost_def Let_def
      dest!: rebuild_currentD reconcile_currentD split: prod.split option.split sum.split)

lemma other_same_tunables:
  "same_tunables w (snd (handleZones opts en r w))" "same_tunables w (snd (handleDevicePromote opts en r w))"
  "same_tunables w (snd (handleDeviceDemote opts en r w))" "same_tunables w (snd (handleDevicesRefreshEngine opts en r w))"
  "same_tunables w (snd (handleZonesRefreshEngine opts en r w))" "same_tunables w (snd (handleDevicesResyncHA opts en r w))"
  "same_tunables w (snd (handleSettings en r w))"
proof -
  have keep: "same_tunables w w1"
    if "aw_current w1 = aw_current w" "db_defaults (aw_db w1) = db_defaults (aw_db w)" "db_overrides (aw_db w1) = db_overrides (aw_db w)"
    for w1 using that by (simp add: same_tunables_def)
  have "same_tunables w (snd (handleZonesPost opts en r w))"
    using zones_post_db [of opts en r w] by (intro keep) (auto simp: other_tunables other_current)
  then show "same_tunables w (snd (handleZones opts en r w))" by (simp add: handleZones_def keep)
  show "same_tunables w (snd (handleDevicePromote opts en r w))"
    using promote_db [of opts en r w] by (intro keep) (auto simp: other_tunables other_current)
  show "same_tunables w (snd (handleDeviceDemote opts en r w))"
    using demote_db [of opts en r w] by (intro keep) (auto simp: other_tunables other_current)
  show "same_tunables w (snd (handleDevicesRefreshEngine opts en r w))" "same_tunables w (snd (handleZonesRefreshEngine opts en r w))"
    "same_tunables w (snd (handleDevicesResyncHA opts en r w))"
    by (intro keep; simp add: refresh_db other_current)+
  have "same_tunables w (snd (handleSettingsPost en r w))"
    using settings_post_db [of en r w] by (intro keep) (auto simp: other_tunables other_current)
  then show "same_tunables w (snd (handleSettings en r w))" by (simp add: handleSettings_def keep)
qed

lemma tunables_post_stored:
  assumes "tunables_stored w"
  shows "tunables_stored (snd (handleTunables en r w))"
proof -
  obtain t errs where t: "parseTunablesForm r (aw_current w) (beaconNames (aw_engine w)) = (t, errs)"
    by (cases "parseTunablesForm r (aw_current w) (beaconNames (aw_engine w))")
  have m: "mwf (Tun_Beacons t)" using parseTunablesForm_mwf [of r "aw_current w" "beaconNames (aw_engine w)"] t by simp
  have "tunables_stored (snd (handleTunablesPost en r w))"
    using assms t SaveAll_None(2) [OF _ m, of "ae_txFault en" "aw_db w"] SaveAll_Some [of "ae_txFault en" "Some t" "aw_db w"]
    by (auto simp: handleTunablesPost_def tunables_stored_def Let_def split: prod.split option.split)
  with assms show ?thesis by (simp add: handleTunables_def)
qed

interpretation stored: request_invariant "serve_admin opts" tunables_stored for opts
proof (unfold_locales)
  fix w and v :: visit
  assume "tunables_stored w"
  moreover from this have "tunables_stored w1" if "same_tunables w w1" for w1
    using that by (simp add: tunables_stored_def same_tunables_def)
  ultimately show "tunables_stored (serve_admin opts v w)"
    unfolding serve_admin_def by (intro routes_keep [where P = tunables_stored]) (simp_all add: other_same_tunables tunables_post_stored)
qed

subsection \<open>Statements that leave the configuration alone\<close>

definition same_config :: "Database \<Rightarrow> Database \<Rightarrow> bool" where
  "same_config db db' \<longleftrightarrow> db_beacons db' = db_beacons db \<and> db_zones db' = db_zones db \<and> db_settings db' = db_settings db
     \<and> db_defaults db' = db_defaults db \<and> db_overrides db' = db_overrides db"

lemma same_config_refl [simp]: "same_config db db"
  by (simp add: same_config_def)

lemma same_config_trans: "same_config db db1 \<Longrightarrow> same_config db1 db2 \<Longrightarrow> same_config db db2"
  by (simp add: same_config_def)

definition config_insert :: "('r, 'e, Database) insert_fn \<Rightarrow> bool" where
  "config_insert ins \<longleftrightarrow> (\<forall>b db. same_config db (snd (ins b db)))"

lemma retry_config: "config_insert ins \<Longrightarrow> same_config db (snd (retry_insert ins b db))"
  by (auto simp: retry_insert_def config_insert_def split: prod.splits option.splits)
    (metis same_config_trans snd_conv)+

lemma flush_config:
  assumes "config_insert ins"
  shows "same_config db (snd (obs_flushBatch ins (ow, db)))"
  using retry_config [OF assms, of db "ow_batch ow"] by (auto simp: obs_flushBatch_def insertWithRetry_retry Let_def split: prod.split)

lemma raw_flush_config:
  assumes "config_insert ins"
  shows "same_config db (snd (raw_flushBatch ins (rw, db)))"
  using retry_config [OF assms, of db "rw_batch rw"] by (auto simp: raw_flushBatch_def insertWithRetry_retry Let_def split: prod.split)

lemma receive_config:
  "config_insert ins1 \<Longrightarrow> same_config db (snd (obs_receive ins1 (ow, db)))"
  "config_insert ins2 \<Longrightarrow> same_config db (snd (raw_receive ins2 (rw, db)))"
  by (auto simp: obs_receive_def obs_collect_def raw_receive_def raw_collect_def Let_def flush_config raw_flush_config
      split: option.split)

lemma inserts_config:
  "copies_observations copy1 \<Longrightarrow> config_insert (InsertObservations copy1)"
  "copies_raw_posts copy2 \<Longrightarrow> config_insert (insertRawPostBatch copy2 now)"
proof -
  have 1: "same_config db (snd (copy_rows copy1 rows db))" if "copies_observations copy1" for rows db
    using that [unfolded copies_observations_def, rule_format, of rows db]
    by (auto simp: copy_rows_def same_config_def split: prod.split option.split)
  have 2: "same_config db (snd (copy_rows copy2 rows db))" if "copies_raw_posts copy2" for rows db
    using that [unfolded copies_raw_posts_def, rule_format, of rows db]
    by (auto simp: copy_rows_def same_config_def split: prod.split option.split)
  show "copies_observations copy1 \<Longrightarrow> config_insert (InsertObservations copy1)"
    "copies_raw_posts copy2 \<Longrightarrow> config_insert (insertRawPostBatch copy2 now)"
    by (auto simp: config_insert_def InsertObservations_def insertRawPostBatch_def 1 2 split: option.split)
qed

lemma prune_config: "same_config db (snd (RunOnce f1 f2 snap now (rr, db)))"
  by (auto simp: RunOnce_def PruneOlderThan_def same_config_def Let_def split: prod.split option.split)

lemma presence_config: "same_config db (snd (SavePresenceState fault rows db))"
proof -
  have "exec_steps fault i (map insert_presence rs) db0 = Inr db1 \<Longrightarrow> same_config db0 db1" for i rs db0 db1
    by (induction rs arbitrary: i db0) (auto simp: insert_presence_def same_config_def split: if_splits)
  then show ?thesis
    by (auto simp: SavePresenceState_def run_tx_def same_config_def split: option.split sum.split if_splits)
qed

subsection \<open>The invariant\<close>

definition world_inv :: "World \<Rightarrow> bool" where
  "world_inv w \<longleftrightarrow> engine_ok (w_engine w) \<and> tables_ok (w_db w) \<and> settings_live (admin_view w) \<and> tunables_stored (admin_view w)"

definition bridge_inv :: "Bridge \<Rightarrow> bool" where
  "bridge_inv b \<longleftrightarrow> world_inv (bridge_world b) \<and> (\<exists>ce. wired ce (bridge_ingest b))"

lemma world_invI:
  assumes "world_inv w" "engine_ok (w_engine w')" "same_config (w_db w) (w_db w')" "w_snap w' = w_snap w"
    "w_current w' = w_current w"
  shows "world_inv w'"
  using assms by (simp add: world_inv_def tables_ok_def settings_live_def tunables_stored_def admin_view_def same_config_def)

lemma wired_meeting: "wired ce s \<Longrightarrow> wired ce' (meeting ce' s)"
  by (auto simp: wired_def meeting_def ing_applyDefaults_def ingest_options_def)

lemma engine_ok_steps:
  assumes "engine_ok e"
  shows "engine_ok (fold Submit ss e)" "engine_ok (Tick e)" "clk e \<le> t \<Longrightarrow> engine_ok (e\<lparr>clk := t\<rparr>)"
    "mset m = mset (e_beacons e) \<Longrightarrow> engine_ok (e\<lparr>e_beacons := m\<rparr>)" "out_queue e = ev # q \<Longrightarrow> engine_ok (e\<lparr>out_queue := q\<rparr>)"
proof -
  have inv: "engine_inv e" and kk: "known_keys e" using assms by (simp_all add: engine_ok_def)
  have "engine_inv (fold Submit ss e)" using inv by (induction ss arbitrary: e) (simp_all add: Submit_inv)
  then show "engine_ok (fold Submit ss e)" using kk by (simp add: engine_ok_def known_keys_Submits)
  show "engine_ok (Tick e)" using inv kk by (simp add: engine_ok_def Tick_inv known_keys_Tick)
  show "engine_ok (e\<lparr>clk := t\<rparr>)" if "clk e \<le> t"
    using estep_inv [OF advance [OF that] inv] kk by (simp add: engine_ok_def known_keys_def)
  show "engine_ok (e\<lparr>out_queue := q\<rparr>)" if "out_queue e = ev # q"
    using estep_inv [OF receive [OF that] inv] kk by (simp add: engine_ok_def known_keys_def)
  show "engine_ok (e\<lparr>e_beacons := m\<rparr>)" if "mset m = mset (e_beacons e)"
    using estep_inv [OF estep.reorder [OF that] inv] kk mset_eq_setD [OF that] by (simp add: engine_ok_def known_keys_def)
qed

lemma world_steps:
  assumes "world_inv w"
  shows "world_inv (pump env1 env2 w)" "world_inv (telemetry_tick w)" "world_inv (birth body w)"
    "world_inv (publish_next marshal broker w)" "world_inv (w\<lparr>w_pub := p\<rparr>)" "world_inv (prune_tick f1 f2 now w)"
    "world_inv (persistPresence fault w)" "engine_ok e \<Longrightarrow> world_inv (w\<lparr>w_engine := e\<rparr>)"
proof -
  have e: "engine_ok (w_engine w)" using assms by (simp add: world_inv_def)
  show "world_inv (pump env1 env2 w)"
    using engine_ok_steps(5) [OF e] by (auto simp: pump_def assms intro: world_invI [OF assms] split: list.split)
  show "world_inv (telemetry_tick w)" "world_inv (birth body w)"
    using engine_ok_republish [OF e] by (auto simp: telemetry_tick_def birth_def assms intro: world_invI [OF assms])
  show "world_inv (publish_next marshal broker w)" "world_inv (w\<lparr>w_pub := p\<rparr>)"
    using e by (auto simp: publish_next_def intro: world_invI [OF assms])
  show "world_inv (prune_tick f1 f2 now w)"
    using prune_config [of "w_db w" f1 f2 "w_snap w" now "w_retention w"] e
    by (auto simp: prune_tick_def intro!: world_invI [OF assms] split: prod.split)
  show "world_inv (persistPresence fault w)"
    using e presence_config by (auto simp: persistPresence_def intro!: world_invI [OF assms])
  show "engine_ok e \<Longrightarrow> world_inv (w\<lparr>w_engine := e\<rparr>)" by (auto intro: world_invI [OF assms])
qed

lemma world_writers:
  assumes "world_inv w"
  shows "(\<And>ow db. same_config db (snd (f (ow, db)))) \<Longrightarrow> world_inv (write_obs f w)"
    "(\<And>rw db. same_config db (snd (g (rw, db)))) \<Longrightarrow> world_inv (write_raw g w)"
proof -
  have e: "engine_ok (w_engine w)" using assms by (simp add: world_inv_def)
  show "world_inv (write_obs f w)" if "\<And>ow db. same_config db (snd (f (ow, db)))"
    using that [of "w_db w" "w_obs w"] e by (auto simp: write_obs_def intro!: world_invI [OF assms] split: prod.split)
  show "world_inv (write_raw g w)" if "\<And>rw db. same_config db (snd (g (rw, db)))"
    using that [of "w_db w" "w_raw w"] e by (auto simp: write_raw_def intro!: world_invI [OF assms] split: prod.split)
qed

lemma world_admin:
  assumes "world_inv w" "adm_Routes opts src en r (admin_view w) = (resp, a)"
  shows "world_inv (put_admin a w)"
proof -
  let ?v = "\<lparr>v_req = r, v_env = en, v_src = src\<rparr>"
  have a: "a = serve_admin opts ?v (admin_view w)" using assms(2) by (simp add: serve_admin_def)
  have "engine_ok (aw_engine a)" "tables_ok (aw_db a)" "settings_live a" "tunables_stored a"
    unfolding a
    using assms(1) engine.keeps [of "admin_view w" opts ?v] tables.keeps [of "admin_view w" opts ?v] live.keeps [of "admin_view w" opts ?v]
      stored.keeps [of "admin_view w" opts ?v]
    by (simp_all add: world_inv_def) (simp_all add: admin_view_def)
  then show ?thesis by (auto simp: world_inv_def put_admin_def admin_view_def settings_live_def tunables_stored_def)
qed

lemma world_ingest:
  assumes "world_inv w" "only_sightings w w'"
  shows "world_inv w'"
proof -
  obtain ss where ss: "w_engine w' = fold Submit ss (w_engine w)" using assms(2) by (auto simp: only_sightings_def)
  have "engine_ok (w_engine w')" unfolding ss using assms(1) by (intro engine_ok_steps(1)) (simp add: world_inv_def)
  then show ?thesis using assms(2) by (intro world_invI [OF assms(1)]) (simp_all add: only_sightings_def)
qed

lemma bstep_inv: "bstep b b' \<Longrightarrow> bridge_inv b \<Longrightarrow> bridge_inv b'"
proof (induction rule: bstep.induct)
  case (ingest ce cod now r b status s' w')
  then obtain ce0 where w0: "wired ce0 (bridge_ingest b)" by (auto simp: bridge_inv_def)
  note eff = Routes_effect [OF wired_meeting [OF w0] ingest(1,2)]
  have "wired ce s'" using wired_meeting [OF w0, of ce] eff(2) by (simp add: wired_def)
  with eff(1) ingest(3) world_ingest show ?case by (auto simp: bridge_inv_def)
next
  case (ingest_cut ce r b accepts cod now s' w')
  then obtain ce0 where w0: "wired ce0 (bridge_ingest b)" by (auto simp: bridge_inv_def)
  note eff = handleIngest_cut [OF wired_meeting [OF w0] ingest_cut(1,4)]
  have "wired ce s'" using wired_meeting [OF w0, of ce] eff by (simp add: wired_def)
  with eff ingest_cut(5) world_ingest show ?case by (auto simp: bridge_inv_def)
next
  case (obs_row copy b)
  then show ?case by (simp add: bridge_inv_def world_writers receive_config inserts_config)
next
  case (obs_flush copy b)
  then show ?case by (simp add: bridge_inv_def world_writers flush_config inserts_config)
next
  case (raw_row copy b now)
  then show ?case by (simp add: bridge_inv_def world_writers receive_config inserts_config)
next
  case (raw_flush copy b now)
  then show ?case by (simp add: bridge_inv_def world_writers raw_flush_config inserts_config)
next
  case (tick b)
  then have "engine_ok (w_engine (bridge_world b))" by (simp add: bridge_inv_def world_inv_def)
  with tick show ?case by (simp add: bridge_inv_def world_steps engine_ok_steps)
next
  case (clock b t)
  then have "engine_ok (w_engine (bridge_world b))" by (simp add: bridge_inv_def world_inv_def)
  with clock show ?case by (simp add: bridge_inv_def world_steps engine_ok_steps)
next
  case (reorder m b)
  then have "engine_ok (w_engine (bridge_world b))" by (simp add: bridge_inv_def world_inv_def)
  with reorder show ?case by (simp add: bridge_inv_def world_steps engine_ok_steps)
qed (simp_all add: bridge_inv_def world_steps world_admin)

lemma bsteps_inv: "bstep\<^sup>*\<^sup>* b b' \<Longrightarrow> bridge_inv b \<Longrightarrow> bridge_inv b'"
  by (induction rule: rtranclp_induct) (auto intro: bstep_inv)

subsection \<open>A start establishes the invariant, and is always possible\<close>

lemma load_topology_known:
  assumes "loadTopologyFromStore bf bo zf zo db = Inr tp"
  shows "\<exists>zs. NewTopology zs (beacons tp) = Inr tp" "\<forall>k \<in> tb_key ` set (beacons tp). known_key k"
proof -
  let ?en = "sample_env\<lparr>ae_beaconsFault := bf, ae_beaconOrder := bo, ae_zonesFault := zf, ae_zoneOrder := zo\<rparr>"
  have "read_topology ?en db = Inr tp" using assms loadTopology_read [of ?en db tp] by simp
  then show "\<exists>zs. NewTopology zs (beacons tp) = Inr tp" "\<forall>k \<in> tb_key ` set (beacons tp). known_key k"
    by (rule read_topology_known)+
qed

lemma restore_keys: "map fst (e_beacons (fst (RestoreState sns e))) = map fst (e_beacons e)"
proof -
  have one: "map fst (e_beacons (fst (restore_one now sn en))) = map fst (e_beacons (fst en))" for now sn en
    by (auto simp: restore_one_def mput_keys_present split: prod.split option.split)
  have "map fst (e_beacons (fst (fold (restore_one now) sns en))) = map fst (e_beacons (fst en))" for now en
    by (induction sns arbitrary: en) (simp_all add: one)
  then show ?thesis by (simp add: RestoreState_def)
qed

lemma rehydrate_ok:
  assumes "loadTopologyFromStore bf bo zf zo db = Inr tp"
  shows "engine_ok (rehydrate fault db (NewEngine (Some tp) tun now cap))"
proof -
  let ?e = "NewEngine (Some tp) tun now cap"
  obtain zs where nt: "NewTopology zs (beacons tp) = Inr tp" using load_topology_known(1) [OF assms] by blast
  have inv: "engine_inv ?e" by (rule NewEngine_inv [OF nt])
  have "known_key k" if "snd (IsTracked k ?e)" for k
    using that load_topology_known(2) [OF assms] NewEngine_get [OF nt, of tun now cap k]
    by (cases "find (\<lambda>tb. tb_key tb = k) (beacons tp)") (auto simp: IsTracked_def find_Some_iff)
  then have "known_keys ?e" by (simp add: known_keys_iff)
  then have "engine_ok (fst (RestoreState sns ?e))" for sns
    using RestoreState_inv [OF inv] known_keys_fst [OF restore_keys] by (simp add: engine_ok_def)
  moreover have "engine_ok ?e" using inv \<open>known_keys ?e\<close> by (simp add: engine_ok_def)
  ultimately show ?thesis by (simp add: rehydrate_def split: sum.split)
qed

lemma LoadSettings_row:
  assumes "LoadSettings fault db = Inr st"
  shows "settings_ok st \<and> db_settings db = Some (settings_row_of st)"
  using assms by (auto simp: LoadSettings_def NewSettings_def settings_row_of_def settings_ok_def retentionMin_def retentionMax_def
      split: if_splits option.splits)

text \<open>A YAML mapping has every key once.\<close>

definition yaml_maps :: "(bytes \<Rightarrow> Tunables option) \<Rightarrow> bool" where
  "yaml_maps yaml \<longleftrightarrow> (\<forall>raw t. yaml raw = Some t \<longrightarrow> mwf (Tun_Beacons t))"

lemma seeded_tunables:
  assumes "SeedFromYAMLIfEmpty f1 f2 f yaml seed db = (Inr tun, db1)" "yaml_maps yaml"
  shows "db_defaults db1 = Some (Defaults tun) \<and> db_overrides db1 = Tun_Beacons tun"
proof (cases "LoadAll f1 f2 db")
  case (Inr t)
  with assms(1) show ?thesis
    by (auto simp: SeedFromYAMLIfEmpty_def LoadAll_def loadDefaults_def loadOverrides_def split: if_splits option.splits)
next
  case (Inl e)
  with assms(1) have p: "ParseTunables yaml seed = Inr tun" and s: "SaveAll f (Some tun) db = (None, db1)"
    by (auto simp: SeedFromYAMLIfEmpty_def Let_def split: if_splits sum.splits prod.splits option.splits)
  have "mwf (Tun_Beacons tun)"
    using p assms(2) by (auto simp: ParseTunables_def yaml_maps_def split: option.splits)
  from SaveAll_None(2) [OF s this] show ?thesis by simp
qed

lemma boot_inv:
  assumes "boot bt db = (Inr b, db1)" "tables_ok db" "yaml_maps (bt_yaml bt)"
  shows "bridge_inv b"
proof -
  obtain tun tp st p where l: "load_config bt db = (Inr (tun, tp, st), db1)" and w: "bridge_world b = wire_world bt tun tp st p db1"
    and wi: "wired (bt_call bt) (bridge_ingest b)"
    by (rule boot_cases [OF assms(1)])
  obtain seed db0 where sd: "SeedFromYAMLIfEmpty (fst (bt_loadFaults bt)) (snd (bt_loadFaults bt)) (bt_saveFault bt) (bt_yaml bt) seed db0
      = (Inr tun, db1)" by (rule load_config_steps [OF l])
  have "engine_ok (w_engine (bridge_world b))"
    using rehydrate_ok [OF load_config_cases(2) [OF l]] by (simp add: w wire_world_def)
  moreover have "tables_ok (w_db (bridge_world b))"
    using load_config_cases(1) [OF l] assms(2) SaveAll_tables by (auto simp: w wire_world_def tables_ok_def applySchema_fields)
  moreover have "settings_live (admin_view (bridge_world b))" "tunables_stored (admin_view (bridge_world b))"
    using LoadSettings_row [OF load_config_cases(3) [OF l]] seeded_tunables [OF sd assms(3)]
    by (simp_all add: w wire_world_def admin_view_def settings_live_def tunables_stored_def NewSettingsSnapshot_def snap_Get_def)
  ultimately show ?thesis using wi by (auto simp: bridge_inv_def world_inv_def)
qed

end
