(* ===== verification/Bridge_Restart.thy ===== *)
theory Bridge_Restart
  imports Bridge_Run
begin

section \<open>The bridge can always start again\<close>

text \<open>
  A start succeeds in healthy circumstances on every database that a running bridge can leave behind. The sample process at the
  end is the instance on which the theorems about the bridge are applied.
\<close>

subsection \<open>Healthy circumstances\<close>

text \<open>
  The credentials are set, the database answers and returns every row once in some order, the seed file can be read, and the list of
  networks parses.
\<close>

definition healthy :: "BootEnv \<Rightarrow> bool" where
  "healthy bt \<longleftrightarrow>
     bt_getenv bt ''INGEST_SHARED_SECRET'' \<noteq> [] \<and> bt_getenv bt ''MQTT_USER'' \<noteq> [] \<and> bt_getenv bt ''MQTT_PASS'' \<noteq> []
     \<and> bt_getenv bt ''BRIIHASS_POSTGRES_DSN'' \<noteq> [] \<and> bt_up bt 1 \<and> \<not> bt_schemaFault bt \<and> bt_seedFile bt \<noteq> None
     \<and> bt_loadFaults bt = (False, False) \<and> \<not> bt_beaconsFault bt \<and> \<not> bt_zonesFault bt \<and> \<not> bt_settingsFault bt
     \<and> (\<forall>rs. mset (bt_beaconOrder bt rs) = mset rs) \<and> (\<forall>rs. mset (bt_zoneOrder bt rs) = mset rs)
     \<and> is_ok (parse_cidrs (splitCSV (bt_getenv bt ''INGEST_ALLOWED_CIDRS'')) [])"

lemma connects_at_once: "up 1 \<Longrightarrow> NewPostgres up cancelled 10 = Connected_at 1"
  by (simp add: NewPostgres_def)

lemma load_topology_succeeds:
  assumes "healthy bt" "tables_ok db"
  shows "\<exists>tp. loadTopologyFromStore (bt_beaconsFault bt) (bt_beaconOrder bt) (bt_zonesFault bt) (bt_zoneOrder bt) db = Inr tp"
proof -
  let ?en = "sample_env\<lparr>ae_beaconsFault := bt_beaconsFault bt, ae_beaconOrder := bt_beaconOrder bt, ae_zonesFault := bt_zonesFault bt,
      ae_zoneOrder := bt_zoneOrder bt\<rparr>"
  have "fair_reads ?en db" using assms(1) by (simp add: fair_reads_def healthy_def)
  then obtain tp where "read_topology ?en db = Inr tp" using read_topology_ok [OF assms(2)] by blast
  then show ?thesis using loadTopology_read [of ?en db tp] by auto
qed

lemma load_config_seeded:
  assumes "healthy bt" "bt_seedFile bt = Some seed" "LoadSettings False db1 = Inr st" "tables_ok db1"
    "SeedFromYAMLIfEmpty False False (bt_saveFault bt) (bt_yaml bt) seed (snd (applySchema False db)) = (Inr tun, db1)"
  shows "\<exists>tp. load_config bt db = (Inr (tun, tp, st), db1)"
proof -
  obtain tp where tp: "loadTopologyFromStore (bt_beaconsFault bt) (bt_beaconOrder bt) (bt_zonesFault bt) (bt_zoneOrder bt) db1 = Inr tp"
    using load_topology_succeeds [OF assms(1,4)] by blast
  obtain db0 where db0: "applySchema False db = (None, db0)" by (simp add: applySchema_def)
  have "NewPostgres (bt_up bt) (bt_cancelled bt) 10 = Connected_at 1" "bt_loadFaults bt = (False, False)" "\<not> bt_settingsFault bt"
    "\<not> bt_schemaFault bt"
    using assms(1) connects_at_once by (simp_all add: healthy_def)
  then show ?thesis
    using assms(2,3,5) tp by (simp add: load_config_def db0 CrossValidate_def Let_def)
qed

lemma load_config_succeeds:
  assumes "healthy bt" "tables_ok db" "db_defaults db = Some (Defaults tun)" "db_overrides db = Tun_Beacons tun"
    "settings_ok st" "db_settings db = Some (settings_row_of st)"
  shows "\<exists>tp. load_config bt db = (Inr (tun, tp, st), db)"
proof -
  obtain seed where seed: "bt_seedFile bt = Some seed" using assms(1) by (auto simp: healthy_def)
  have "LoadAll False False db = Inr tun"
    by (simp add: LoadAll_def loadDefaults_def loadOverrides_def assms(3,4))
  moreover have "LoadSettings False db = Inr st"
    using assms(5) by (simp add: LoadSettings_def assms(6) settings_row_of_def NewSettings_def settings_ok_def retentionMin_def
        retentionMax_def)
  ultimately show ?thesis
    using applySchema_settled [OF assms(6)] by (intro load_config_seeded [OF assms(1) seed _ assms(2)]) (simp_all add: SeedFromYAMLIfEmpty_def)
qed

lemma find_member: "find P xs = Some x \<Longrightarrow> x \<in> set xs"
  by (auto simp: find_Some_iff)

lemma topology_keys:
  assumes "healthy bt" "tables_ok db"
    "loadTopologyFromStore (bt_beaconsFault bt) (bt_beaconOrder bt) (bt_zonesFault bt) (bt_zoneOrder bt) db = Inr tp"
  shows "tb_key ` set (beacons tp) = (\<lambda>r. mk_key (br_kind r) (br_key r)) ` set (db_beacons db)"
proof -
  let ?en = "sample_env\<lparr>ae_beaconsFault := bt_beaconsFault bt, ae_beaconOrder := bt_beaconOrder bt, ae_zonesFault := bt_zonesFault bt,
      ae_zoneOrder := bt_zoneOrder bt\<rparr>"
  have m: "mset (bt_beaconOrder bt (db_beacons db)) = mset (db_beacons db)" and "fair_reads ?en db"
    using assms(1) by (simp_all add: fair_reads_def healthy_def)
  moreover have "read_topology ?en db = Inr tp" using assms(3) loadTopology_read [of ?en db tp] by simp
  ultimately have "beacons tp = map tracked_row (bt_beaconOrder bt (db_beacons db))"
    using read_topology_ok [OF assms(2), of ?en] by auto
  with mset_eq_setD [OF m] show ?thesis by (simp add: image_image tracked_row_def)
qed

lemma New_mqtt_succeeds:
  assumes "healthy bt"
  shows "\<exists>p. New (mqtt_options (bt_getenv bt)) = Inr p"
  using assms by (simp add: New_def mqtt_options_def applyDefaults_def healthy_def envOr_def Let_def)

lemma ing_New_succeeds:
  assumes "healthy bt"
  shows "\<exists>srv. ing_New (ingest_options (bt_call bt) (bt_getenv bt ''INGEST_SHARED_SECRET'')
      (splitCSV (bt_getenv bt ''INGEST_ALLOWED_CIDRS''))) = Inr srv"
proof -
  obtain nets where "parse_cidrs (splitCSV (bt_getenv bt ''INGEST_ALLOWED_CIDRS'')) [] = Inr nets"
    using assms by (auto simp: healthy_def is_ok_iff)
  with assms show ?thesis by (simp add: ing_New_def ing_applyDefaults_def ingest_options_def healthy_def Let_def)
qed

lemma boot_loaded:
  assumes "healthy bt" "load_config bt db = (Inr (tun, tp, st), db1)"
  shows "\<exists>b p. boot bt db = (Inr b, db1) \<and> bridge_world b = wire_world bt tun tp st p db1"
proof -
  obtain p where p: "New (mqtt_options (bt_getenv bt)) = Inr p" using New_mqtt_succeeds [OF assms(1)] by blast
  obtain srv where s: "ing_New (ingest_options (bt_call bt) (bt_getenv bt ''INGEST_SHARED_SECRET'')
      (splitCSV (bt_getenv bt ''INGEST_ALLOWED_CIDRS''))) = Inr srv" using ing_New_succeeds [OF assms(1)] by blast
  have a: "\<exists>t. adm_New (admin_options u q tun) = Inr t" if "u \<noteq> []" "q \<noteq> []" for u q
    using that by (simp add: adm_New_def admin_options_def Let_def)
  have env: "bt_getenv bt ''INGEST_SHARED_SECRET'' \<noteq> []" "bt_getenv bt ''MQTT_USER'' \<noteq> []" "bt_getenv bt ''MQTT_PASS'' \<noteq> []"
    "bt_getenv bt ''BRIIHASS_POSTGRES_DSN'' \<noteq> []"
    using assms(1) by (simp_all add: healthy_def)
  have "\<exists>b. boot bt db = (Inr b, db1) \<and> bridge_world b = wire_world bt tun tp st p db1"
  proof (cases "bt_getenv bt ''ADMIN_USER'' \<noteq> [] \<and> bt_getenv bt ''ADMIN_PASS'' \<noteq> []")
    case True
    then obtain t where "adm_New (admin_options (bt_getenv bt ''ADMIN_USER'') (bt_getenv bt ''ADMIN_PASS'') tun) = Inr t"
      using a by blast
    with True env assms(2) p s show ?thesis by (simp add: boot_def Let_def)
  next
    case False
    with env assms(2) p s show ?thesis by (auto simp: boot_def Let_def)
  qed
  then show ?thesis by blast
qed

lemma boot_succeeds:
  assumes "healthy bt" "tables_ok db" "db_defaults db = Some (Defaults tun)" "db_overrides db = Tun_Beacons tun"
    "settings_ok st" "db_settings db = Some (settings_row_of st)"
  shows "\<exists>b tp p. boot bt db = (Inr b, db) \<and> bridge_world b = wire_world bt tun tp st p db"
  using load_config_succeeds [OF assms] boot_loaded [OF assms(1)] by blast

text \<open>
  C29: the first start works. On tables without tunables and settings, with a seed file that parses to valid tunables, a new process
  starts: the seed is stored and in force, the settings are the shipped ones, and exactly the beacons of the allowlist are tracked, all
  of them away when no presence is stored.
\<close>

theorem first_start:
  assumes "healthy bt" "tables_ok db" "db_defaults db = None" "db_settings db = None" "db_presence db = []"
    and "bt_seedFile bt = Some seed" "ParseTunables (bt_yaml bt) seed = Inr tun" "yaml_maps (bt_yaml bt)" "\<forall>i. \<not> bt_saveFault bt i"
  shows "\<exists>b db1. boot bt db = (Inr b, db1) \<and> LoadAll False False db1 = Inr tun \<and> w_current (bridge_world b) = tun
    \<and> snap_Get (w_snap (bridge_world b)) = \<lparr>retentionDays = 7, capturePerEventHex = True, captureFullPosts = False\<rparr>
    \<and> LoadSettings False db1 = Inr (snap_Get (w_snap (bridge_world b)))
    \<and> (\<forall>k. snd (IsTracked k (w_engine (bridge_world b))) \<longleftrightarrow> (\<exists>r \<in> set (db_beacons db). k = mk_key (br_kind r) (br_key r)))
    \<and> (\<forall>k bs. mget (e_beacons (w_engine (bridge_world b))) k = Some bs \<longrightarrow> currentZone bs = [])"
proof -
  let ?st = "\<lparr>retentionDays = 7, capturePerEventHex = True, captureFullPosts = False\<rparr>" and ?db0 = "snd (applySchema False db)"
  have v: "Validate (Some tun) = None" "mwf (Tun_Beacons tun)"
    using assms(7,8) by (auto simp: ParseTunables_def yaml_maps_def split: option.splits)
  define db1 where "db1 = snd (SaveAll (bt_saveFault bt) (Some tun) ?db0)"
  have f: "bt_saveFault bt = (\<lambda>_. False)" using assms(9) by auto
  have s: "SaveAll (bt_saveFault bt) (Some tun) ?db0 = (None, db1)"
    unfolding db1_def f by (simp add: SaveAll_ok [OF v])
  have la: "LoadAll False False ?db0 = Inl ErrEmpty"
    by (simp add: LoadAll_def loadDefaults_def applySchema_fields assms(3))
  have seed: "SeedFromYAMLIfEmpty False False (bt_saveFault bt) (bt_yaml bt) seed ?db0 = (Inr tun, db1)"
    by (simp add: SeedFromYAMLIfEmpty_def la assms(7) s)
  have db1: "db_beacons db1 = db_beacons db" "db_zones db1 = db_zones db" "db_presence db1 = []" "db_settings db1 = db_settings ?db0"
    unfolding db1_def f by (simp_all add: SaveAll_ok [OF v] applySchema_fields assms(5))
  then have tab: "tables_ok db1" using assms(2) by (simp add: tables_ok_def)
  have ls: "LoadSettings False db1 = Inr ?st"
    by (simp add: LoadSettings_def db1 applySchema_def assms(4) default_settings_row_def NewSettings_def retentionMin_def retentionMax_def)
  obtain tp where l: "load_config bt db = (Inr (tun, tp, ?st), db1)"
    using load_config_seeded [OF assms(1,6) ls tab seed] by blast
  from boot_loaded [OF assms(1) l] obtain b p where b: "boot bt db = (Inr b, db1)"
    and w: "bridge_world b = wire_world bt tun tp ?st p db1" by blast
  have lt: "loadTopologyFromStore (bt_beaconsFault bt) (bt_beaconOrder bt) (bt_zonesFault bt) (bt_zoneOrder bt) db1 = Inr tp"
    by (rule load_config_cases(2) [OF l])
  then obtain zs bl where nt: "NewTopology zs bl = Inr tp" using loadTopology_NewTopology by blast
  have e: "w_engine (bridge_world b) = NewEngine (Some tp) tun (bt_now bt) (Some 1024)"
    by (simp add: w wire_world_def rehydrate_def LoadPresenceState_def db1 RestoreState_def List.map_filter_simps)
  have bs: "tb_key ` set (beacons tp) = (\<lambda>r. mk_key (br_kind r) (br_key r)) ` set (db_beacons db)"
    using topology_keys [OF assms(1) tab lt] by (simp add: db1)
  have "snd (IsTracked k (w_engine (bridge_world b))) \<longleftrightarrow> k \<in> tb_key ` set (beacons tp)" for k
    unfolding e IsTracked_def NewEngine_get [OF nt]
    by (auto simp: find_None_iff newBeaconState_def split: option.split dest: find_key find_member)
  moreover have "currentZone bs = []" if "mget (e_beacons (w_engine (bridge_world b))) k = Some bs" for k bs
    using that unfolding e NewEngine_get [OF nt] by (auto simp: newBeaconState_def)
  moreover have "LoadAll False False db1 = Inr tun"
    unfolding db1_def f by (simp add: SaveAll_ok [OF v] LoadAll_def loadDefaults_def loadOverrides_def)
  ultimately show ?thesis
    using b ls bs by (intro exI [of _ b] exI [of _ db1]) (auto simp: w wire_world_def NewSettingsSnapshot_def snap_Get_def image_iff)
qed



end
