(* ===== verification/Bridge_Samples.thy ===== *)
theory Bridge_Samples
  imports Bridge_Restart
begin

section \<open>The theorems of the bridge on a concrete process\<close>

text \<open>
  A database with one beacon and the shipped defaults, healthy circumstances for a start, and a running process whose engine is the
  sample engine of \<open>Presence_Run\<close>: the theorems of \<open>Bridge_Guarantees\<close> and \<open>Bridge_Restart\<close> applied there.
\<close>

subsection \<open>A start\<close>

definition sample_boot :: BootEnv where
  "sample_boot =
     \<lparr>bt_getenv = (\<lambda>v. if v \<in> {''INGEST_SHARED_SECRET'', ''MQTT_USER'', ''MQTT_PASS'', ''BRIIHASS_POSTGRES_DSN''} then ''x'' else []),
      bt_up = (\<lambda>n. True), bt_cancelled = (\<lambda>n. False), bt_schemaFault = False, bt_seedFile = Some [], bt_yaml = (\<lambda>b. None), bt_loadFaults = (False, False),
      bt_saveFault = (\<lambda>i. False), bt_beaconsFault = False, bt_beaconOrder = rev, bt_zonesFault = False, bt_zoneOrder = id,
      bt_settingsFault = False, bt_presenceFault = False, bt_now = 500 * second,
      bt_call = \<lparr>ce_obs = (id, id), ce_raw = (id, id), ce_nextval = (\<lambda>db. (Some 7, db))\<rparr>\<rparr>"

definition fob_row :: beacon_row where
  "fob_row = \<lparr>br_kind = KindName, br_key = ''Fob'', br_name = ''fob'', br_notes = None\<rparr>"

definition sample_store :: Database where
  "sample_store = empty_db\<lparr>db_defaults := Some sample_defaults, db_beacons := [fob_row], db_settings := Some week\<rparr>"

definition week_settings :: Settings where
  "week_settings = \<lparr>retentionDays = 7, capturePerEventHex = True, captureFullPosts = False\<rparr>"

lemma sample_healthy: "healthy sample_boot"
  by (simp add: healthy_def sample_boot_def splitCSV_def)

lemma sample_yaml: "yaml_maps (bt_yaml sample_boot)"
  by (simp add: yaml_maps_def sample_boot_def)

lemma sample_store_ok:
  "tables_ok sample_store" "db_defaults sample_store = Some (Defaults sample_tun)" "db_overrides sample_store = Tun_Beacons sample_tun"
  "settings_ok week_settings" "db_settings sample_store = Some (settings_row_of week_settings)"
proof -
  have "\<not> blank ''fob''" by (rule not_blank_plain) (simp_all add: plain_eval)
  then show "tables_ok sample_store"
    by (simp add: tables_ok_def beacons_ok_def zones_ok_def sample_store_def empty_db_def fob_row_def knownKinds_def kind_defs)
  show "db_defaults sample_store = Some (Defaults sample_tun)" "db_overrides sample_store = Tun_Beacons sample_tun"
    by (simp_all add: sample_store_def sample_tun_def empty_db_def)
  show "settings_ok week_settings" "db_settings sample_store = Some (settings_row_of week_settings)"
    by (simp_all add: settings_ok_def week_settings_def settings_row_of_def sample_store_def week_def retentionMin_def retentionMax_def)
qed

lemma sample_boots: obtains b where "boot sample_boot sample_store = (Inr b, sample_store)"
  using boot_succeeds [OF sample_healthy sample_store_ok] by blast



definition fresh_store :: Database where
  "fresh_store = empty_db\<lparr>db_beacons := [fob_row]\<rparr>"

theorem first_start_witness:
  "let bt = sample_boot\<lparr>bt_yaml := \<lambda>b. Some sample_tunables\<rparr> in
   \<exists>b db1. boot bt fresh_store = (Inr b, db1) \<and> w_current (bridge_world b) = sample_tunables
     \<and> snd (IsTracked sample_beacon (w_engine (bridge_world b)))"
proof -
  let ?bt = "sample_boot\<lparr>bt_yaml := \<lambda>b. Some sample_tunables\<rparr>"
  have h: "healthy ?bt" "yaml_maps (bt_yaml ?bt)"
    using sample_healthy sample_tunables_valid by (simp_all add: healthy_def yaml_maps_def)
  have s: "tables_ok fresh_store" "db_defaults fresh_store = None" "db_settings fresh_store = None" "db_presence fresh_store = []"
    "db_beacons fresh_store = [fob_row]"
    using sample_store_ok(1) by (simp_all add: fresh_store_def sample_store_def tables_ok_def empty_db_def)
  have p: "bt_seedFile ?bt = Some []" "ParseTunables (bt_yaml ?bt) [] = Inr sample_tunables" "\<forall>i. \<not> bt_saveFault ?bt i"
    using sample_tunables_valid by (simp_all add: sample_boot_def ParseTunables_def)
  have "sample_beacon = mk_key (br_kind fob_row) (br_key fob_row)" by (simp add: sample_beacon_def fob_row_def)
  with first_start [OF h(1) s(1-4) p(1,2) h(2) p(3)] s(5) show ?thesis unfolding Let_def by auto
qed

subsection \<open>A running process\<close>

definition running :: "Engine \<Rightarrow> World" where
  "running e =
     \<lparr>w_db = sample_store, w_engine = e, w_pub = Mqtt_Guarantees.sample_publisher, w_snap = NewSettingsSnapshot week_settings,
      w_current = sample_tun, w_obs = NewObservationsWriter obs_options, w_raw = NewRawPostsWriter raw_options,
      w_hb = newHeartbeatState, w_retention = NewRetentionRunner hour\<rparr>"

lemma running_sel [simp]:
  "w_engine (running e) = e" "w_pub (running e) = Mqtt_Guarantees.sample_publisher" "w_db (running e) = sample_store"
  by (simp_all add: running_def)

lemma sample_known: "known_keys sample_arrived"
proof -
  have "known_keys sample_engine"
    by (simp add: known_keys_def sample_engine_sel known_key_def sample_beacon_def knownKinds_def kind_defs)
  then show ?thesis using known_keys_Submits [of "[sample_sighting]" sample_engine] by (simp add: sample_arrived_def)
qed

text \<open>The fob is in the kitchen; the process ends, and the next one has it in the kitchen from the start on.\<close>

theorem warm_restart_witness:
  "\<exists>old b nb. mget (e_beacons sample_arrived) sample_beacon = Some old \<and> currentZone old \<noteq> []
    \<and> fst (boot sample_boot (w_db (persistPresence (\<lambda>_. False) (running sample_arrived)))) = Inr b
    \<and> mget (e_beacons (w_engine (bridge_world b))) sample_beacon = Some nb
    \<and> currentZone nb = currentZone old \<and> lastArrivalTs nb = 500 * second"
proof -
  let ?w = "running sample_arrived" and ?db = "w_db (persistPresence (\<lambda>_. False) (running sample_arrived))"
  obtain old where old: "mget (e_beacons sample_arrived) sample_beacon = Some old" "currentZone old \<noteq> []"
    using sample_arrived_state(2) by (auto simp: holding_def)
  have c: "same_config sample_store ?db" using presence_config by (simp add: persistPresence_def)
  then have ok: "tables_ok ?db" "db_defaults ?db = Some (Defaults sample_tun)" "db_overrides ?db = Tun_Beacons sample_tun"
    "db_settings ?db = Some (settings_row_of week_settings)" and bs: "db_beacons ?db = [fob_row]"
    using sample_store_ok by (auto simp: same_config_def tables_ok_def sample_store_def)
  obtain b where b: "boot sample_boot ?db = (Inr b, ?db)"
    using boot_succeeds [OF sample_healthy ok(1-3) sample_store_ok(4) ok(4)] by blast
  obtain tun tp st p where l: "load_config sample_boot ?db = (Inr (tun, tp, st), ?db)"
    and w: "bridge_world b = wire_world sample_boot tun tp st p ?db"
    by (rule boot_cases [OF b])
  have tr: "IsTracked sample_beacon (w_engine (bridge_world b)) = (''fob'', True)"
  proof -
    let ?n = "NewEngine (Some tp) tun (bt_now sample_boot) (Some 1024)"
    have lt: "loadTopologyFromStore (bt_beaconsFault sample_boot) (bt_beaconOrder sample_boot) (bt_zonesFault sample_boot)
        (bt_zoneOrder sample_boot) ?db = Inr tp" by (rule load_config_cases(2) [OF l])
    obtain zs bl where nt: "NewTopology zs bl = Inr tp" using loadTopology_NewTopology [OF lt] by blast
    have "read_topology (sample_env\<lparr>ae_beaconOrder := rev\<rparr>) ?db = Inr tp"
      using lt loadTopology_read [of "sample_env\<lparr>ae_beaconOrder := rev\<rparr>" ?db tp] by (simp add: sample_boot_def sample_env_def)
    with read_topology_ok [OF ok(1), of "sample_env\<lparr>ae_beaconOrder := rev\<rparr>"]
    have "beacons tp = [tracked_row fob_row]" by (simp add: fair_reads_def sample_env_def bs)
    then have "mget (e_beacons ?n) sample_beacon = Some (newBeaconState sample_beacon ''fob'')"
      by (simp add: NewEngine_get [OF nt] tracked_row_def fob_row_def sample_beacon_def)
    with rehydrated [OF persisted [OF _ _ l] _ _ NewEngine_clk [OF nt]] old sample_known engine_inv_mwf [OF sample_arrived_state(1)]
    show ?thesis
      by (simp add: IsTracked_def w wire_world_def sample_boot_def restored_def newBeaconState_def)
  qed
  from warm_restart [OF _ _ b _ tr] old sample_arrived_state(1) sample_known b show ?thesis
    by (simp add: sample_boot_def)
qed

subsection \<open>A post\<close>

definition fob_event :: ingestEvent where
  "fob_event = \<lparr>ie_Data = ''0409466F62'', ie_DeviceEUID = ''c1:c2'', ie_RSSI = - 60, ie_Timestamp = 0\<rparr>"

definition fob_parse :: "Advert \<times> parse_error option" where
  "fob_parse = parse_loop [4, 9, 0x46, 0x6F, 0x62] 0 (empty_advert\<lparr>Raw := [4, 9, 0x46, 0x6F, 0x62]\<rparr>)"

lemma Parse_fob: "Parse ''0409466F62'' = fob_parse"
proof -
  have "hex_decode ''0409466F62'' = Some [4, 9, 0x46, 0x6F, 0x62]" by code_simp
  then show ?thesis by (simp add: Parse_def fob_parse_def del: hex_decode.simps)
qed

lemma fob_parse_fields:
  "snd fob_parse = None" "adv_IBeacon (fst fob_parse) = None" "Eddystone (fst fob_parse) = None" "Mfg (fst fob_parse) = []"
  "LocalName (fst fob_parse) = ''Fob''" "adv_TxPower (fst fob_parse) = None"
  by code_simp+

lemma fob_identity: "Identify (fst fob_parse) = Some sample_beacon"
proof -
  have "TrimSpace ''Fob'' = concat (map snd (trim_both (\<lambda>(r, bs). is_space_rune r) (map (\<lambda>c. (code c, [c])) ''Fob'')))"
    unfolding TrimSpace_def by (subst utf8_segs_ascii) (auto simp: is_ascii_def plain_eval)
  then have "TrimSpace ''Fob'' = ''Fob''" by (simp add: trim_both_def plain_eval)
  then show ?thesis
    by (simp add: Identify_def ibeacon_stage_def eddystone_stage_def name_stage_def fob_parse_fields NewNameKey_def mk_key_def
        sample_beacon_def)
qed

lemma fob_reports: "\<exists>rp. reports 7 [fob_event] = [rp] \<and> rp_key rp = sample_beacon"
proof -
  have p: "Parse (ie_Data fob_event) = fob_parse" by (simp only: fob_event_def Parse_fob ingestEvent.simps)
  have "decodes fob_event" "identity_of fob_event = Some sample_beacon"
    by (simp_all only: decodes_def identity_of_def advert_of_def p fob_parse_fields fob_identity)
  then have "\<exists>rp. report_of 7 [fob_event] fob_event = Some rp \<and> rp_key rp = sample_beacon" by (simp add: report_of_def)
  then show ?thesis by (auto simp: reports_def List.map_filter_simps)
qed

lemma sample_wired:
  obtains s where "wired (bt_call sample_boot) s"
    "\<And>evs. readBody (sample_codecs evs) (sample_request ''/ingest'' ''x'') s = (Some ([0x7B, 0x7D], [0x7B, 0x7D]), s)"
proof -
  let ?ce = "bt_call sample_boot"
  obtain s where s: "ing_New (ingest_options ?ce ''x'' []) = Inr s"
    using ing_New_succeeds [OF sample_healthy] by (auto simp: sample_boot_def splitCSV_def)
  then have so: "srv_opts s = ing_applyDefaults (ingest_options ?ce ''x'' [])" by (auto simp: ing_New_def Let_def split: if_splits sum.splits)
  then have w: "wired ?ce s" unfolding wired_def by blast
  have m: "MaxBodyBytes (srv_opts s) = 2 ^ 20" by (simp add: so ing_applyDefaults_def ingest_options_def)
  have "readBody (sample_codecs evs) (sample_request ''/ingest'' ''x'') s = (Some ([0x7B, 0x7D], [0x7B, 0x7D]), s)" for evs
    by (simp add: readBody_def m sample_request_def s64_def EqualFold_ascii_def Let_def)
  with w show thesis by (rule that)
qed

lemma sample_payload:
  obtains p where "unmarshalIngest (sample_codecs evs) [0x7B, 0x7D] = Some p" "ip_Events p = evs" "ip_GatewayEUID p = ''AA:BB''"
  by (simp add: sample_codecs_def)

lemma fob_tracked: "IsTracked sample_beacon sample_engine = (''fob'', True)"
  by (simp add: IsTracked_def sample_engine_sel newBeaconState_def)


subsection \<open>An arrival and a birth\<close>

lemma sample_pub_inv: "pub_inv sample_marshal Mqtt_Guarantees.sample_publisher (\<lambda>_. None)"
  by (intro pub_inv_empty) (simp_all add: Mqtt_Guarantees.sample_publisher_def)

lemma sample_zones: "Zone (Some sample_top) ap \<noteq> StateNotHome"
  by (auto simp: Zone_def sample_top_def StateNotHome_def mget_zero_def)

lemma sample_queues: "out_cap sample_engine = Some 2" "out_queue sample_engine = []"
  by (simp_all add: sample_engine_def NewEngine_def Beacons_def sample_top_def register_def)

theorem arrival_reaches_broker_witness:
  "let w1 = submit_sighting sample_sighting (running sample_engine); w2 = (quiet_pump ^^ length (out_queue (w_engine w1))) w1;
       (p', s') = (turn sample_marshal sample_broker ^^ length (queue (w_pub w2))) (w_pub w2, \<lambda>_. None)
   in queue p' = [] \<and> s' (stateTopic sample_beacon) = Some ''home''"
proof -
  have b: "s_Beacon sample_sighting = sample_beacon" by (simp add: sample_sighting_def)
  note h = sample_arrival_hyps
  have "queue_cap Mqtt_Guarantees.sample_publisher = 2" "queue Mqtt_Guarantees.sample_publisher = []"
    by (simp_all add: Mqtt_Guarantees.sample_publisher_def)
  with arrival_reaches_broker [of "running sample_engine" sample_sighting "newBeaconState sample_beacon ''fob''" 2 sample_marshal "\<lambda>_. None"
      sample_broker] h sample_inv sample_pub_inv sample_zones sample_queues sample_engine_sel(4) b
  show ?thesis by (simp add: sample_broker_ok split_beta Let_def)
qed

theorem birth_restores_all_witness:
  "let w1 = birth ''online'' (running sample_engine); w2 = (quiet_pump ^^ length (out_queue (w_engine w1))) w1;
       (p', s') = (turn sample_marshal sample_broker ^^ length (queue (w_pub w2))) (w_pub w2, \<lambda>_. None)
   in queue p' = [] \<and> s' (stateTopic sample_beacon) = Some ''not_home''"
proof -
  have t: "TrimSpace ''online'' = payloadOnline"
    unfolding payloadOnline_def by (rule TrimSpace_plain) (auto simp: plain_eval)
  have "queue_cap Mqtt_Guarantees.sample_publisher = 2" "queue Mqtt_Guarantees.sample_publisher = []"
    by (simp_all add: Mqtt_Guarantees.sample_publisher_def)
  moreover have "valid_key sample_beacon" by (simp add: sample_beacon_def valid_key_def knownKinds_def kind_defs)
  ultimately show ?thesis
    using birth_restores_all [of "''online''" "running sample_engine" 2 sample_marshal sample_broker sample_beacon
      "newBeaconState sample_beacon ''fob''" "\<lambda>_. None"] t sample_inv sample_queues
    by (simp add: sample_engine_sel sample_broker_ok split_beta Let_def published_def newBeaconState_def)
qed

end
