(* ===== verification/Ingest_Panics.thy ===== *)
theory Ingest_Panics
  imports Bridge_Samples
begin

section \<open>When a metric call panics\<close>

text \<open>
  When the ingest handler with the panics of the metrics library agrees with the handler without them, and what a post with a name
  that is not UTF-8 does to the bridge.
\<close>

text \<open>An item panics if its beacon is not tracked and its key is not UTF-8.\<close>

definition printable_item :: "Engine \<Rightarrow> parsedEvent \<Rightarrow> bool" where
  "printable_item e it \<longleftrightarrow> (case pe_key it of None \<Rightarrow> True | Some k \<Rightarrow> snd (IsTracked k e) \<or> utf8_Valid (key k))"

lemma known_kind_valid: "kd \<in> set knownKinds \<Longrightarrow> utf8_Valid kd"
  by (rule utf8_Valid_ascii) (auto simp: knownKinds_def kind_defs is_ascii_def)

lemma identity_kind: "identity_of ev = Some k \<Longrightarrow> utf8_Valid (kind k)"
  using Identify_valid by (auto simp: identity_of_def valid_key_def intro: known_kind_valid)

lemma parsed_kinds: "it \<in> set (parsed evs) \<Longrightarrow> pe_key it = Some k \<Longrightarrow> utf8_Valid (kind k)"
  by (auto simp: parsed_def intro: identity_kind)

lemma second_call_ok:
  assumes "documented accepts" "utf8_Valid ap" "BeaconLookup (srv_opts s) = Some (\<lambda>k w. IsTracked k (w_engine w))"
    "\<And>k. pe_key it = Some k \<Longrightarrow> utf8_Valid (kind k)"
  shows "list_all (call_ok accepts) (drop (length (metrics s)) (metrics (fst (second_pass now ap gw tel cfg rid it (s, w)))))
    \<longleftrightarrow> printable_item (w_engine w) it"
proof -
  obtain logs where l: "metrics (fst (second_pass now ap gw tel cfg rid it (s, w))) = metrics s
      @ (case pe_key it of
           None \<Rightarrow> [AnonymousAdverts ap]
         | Some k \<Rightarrow> AdvertsByKind (kind k) ap # (if snd (IsTracked k (w_engine w)) then [] else [UnknownBeacons (kind k) (key k) ap])
             @ (if ie_Timestamp (pe_ev it) \<le> 0 then IngestBadTimestamp ap # logs else []))" "\<forall>m \<in> set logs. metric_use m = None"
    using second_pass_calls [OF assms(3), of now ap gw tel cfg rid it w] by blast
  have "list_all (call_ok accepts) logs" using l(2) by (simp add: list_all_iff call_ok_def)
  then show ?thesis
    unfolding l(1) using assms(2,4) by (auto simp: call_ok_iff [OF assms(1)] printable_item_def split: option.split)
qed

text \<open>The world after a report decides nothing new about which keys are tracked.\<close>

lemma take_report_tracked:
  "IsTracked k (w_engine (take_report (\<lambda>k w. IsTracked k (w_engine w)) (record_observation ce) submit_sighting ap gw hexOn rid rp w))
    = IsTracked k (w_engine w)"
  by (simp add: take_report_def record_observation_def submit_sighting_def Submit_tracked split_beta Let_def)

lemma second_checked:
  assumes "documented accepts" "utf8_Valid ap" "wired ce s" "\<forall>euid. mget tel euid = reported_telemetry evs euid"
    "\<forall>it \<in> set (parsed xs). printable_item (w_engine w) it"
  shows "checked_fold (call_ok accepts) (\<lambda>(s :: World Server, w :: World). metrics s) set_calls (second_pass now ap gw tel cfg rid) (parsed xs) (s, w)
    = (True, fold (second_pass now ap gw tel cfg rid) (parsed xs) (s, w))"
proof -
  let ?P = "\<lambda>(s' :: World Server, w' :: World). srv_opts s' = srv_opts s \<and> (\<forall>k. IsTracked k (w_engine w') = IsTracked k (w_engine w))"
  note cb = wired_callbacks(1-3) [OF assms(3)]
  show ?thesis
  proof (rule checked_fold_all [where P = ?P])
    fix it sw assume it: "it \<in> set (parsed xs)" and P: "?P sw"
    obtain s' :: "World Server" and w' :: World where sw: "sw = (s', w')" "srv_opts s' = srv_opts s" "\<forall>k. IsTracked k (w_engine w') = IsTracked k (w_engine w)"
      using P by (cases sw) auto
    obtain ev where ev: "it = \<lparr>pe_ev = ev, pe_adv = advert_of ev, pe_key = identity_of ev\<rparr>" "decodes ev"
      using it by (auto simp: parsed_def)
    have "printable_item (w_engine w') it" using assms(5) it sw(3) by (auto simp: printable_item_def split: option.splits)
    then have "list_all (call_ok accepts) (drop (length (metrics s')) (metrics (fst (second_pass now ap gw tel cfg rid it (s', w')))))"
      using second_call_ok [OF assms(1,2), of s' it] cb(1) sw(2) parsed_kinds [OF it] by simp
    moreover obtain s2 where "second_pass now ap gw tel cfg rid it (s', w') = (s2, case report_of now evs ev of None \<Rightarrow> w'
         | Some rp \<Rightarrow> take_report (\<lambda>k w. IsTracked k (w_engine w)) (record_observation ce) submit_sighting ap gw
             (cs_CapturePerEventHex cfg) rid rp w')" "srv_opts s2 = srv_opts s'"
      using second_pass_step [of s', OF _ _ _ assms(4) ev(2)] cb sw(2) ev(1) by metis
    ultimately show "list_all (call_ok accepts) (drop (length (case sw of (s :: World Server, w :: World) \<Rightarrow> metrics s))
        (case second_pass now ap gw tel cfg rid it sw of (s, w) \<Rightarrow> metrics s)) \<and> ?P (second_pass now ap gw tel cfg rid it sw)"
      using sw by (auto simp: take_report_tracked split: option.split)
  qed simp
qed

lemma first_checked:
  assumes "documented accepts" "utf8_Valid ap"
  shows "checked_fold (call_ok accepts) (\<lambda>(s :: 'w Server, items, tel). metrics s) set_calls (first_pass now ap) evs st = (True, fold (first_pass now ap) evs st)"
proof (rule checked_fold_all [where P = "\<lambda>_. True"])
  fix ev and st :: "'w Server \<times> parsedEvent list \<times> (string, advertEnrichment) gmap"
  obtain s items tel where st: "st = (s, items, tel)" by (cases st)
  have "list_all (call_ok accepts) (first_calls now ap ev s)"
    using assms(2) by (simp add: first_calls_def call_ok_iff [OF assms(1)])
  then show "list_all (call_ok accepts) (drop (length (case st of (s, items, tel) \<Rightarrow> metrics s))
      (case first_pass now ap ev st of (s, items, tel) \<Rightarrow> metrics s)) \<and> True"
    using first_pass_calls [of now ap ev s items tel] by (cases "first_pass now ap ev (s, items, tel)") (simp add: st)
qed simp

lemma map_filter_split:
  "List.map_filter f evs = pre @ rp # post \<Longrightarrow> \<exists>xs ev ys. evs = xs @ ev # ys \<and> List.map_filter f xs = pre \<and> f ev = Some rp"
proof (induction evs arbitrary: pre)
  case (Cons e evs)
  show ?case
  proof (cases "f e")
    case None
    with Cons.prems have "List.map_filter f evs = pre @ rp # post" by (simp add: List.map_filter_simps)
    from Cons.IH [OF this] obtain xs ev ys where "evs = xs @ ev # ys" "List.map_filter f xs = pre" "f ev = Some rp" by blast
    with None show ?thesis by (intro exI [of _ "e # xs"]) (auto simp: List.map_filter_simps)
  next
    case (Some r)
    show ?thesis
    proof (cases pre)
      case Nil
      with Cons.prems Some show ?thesis by (intro exI [of _ "[]"]) (auto simp: List.map_filter_simps)
    next
      case (Cons q pre')
      with \<open>List.map_filter f (e # evs) = pre @ rp # post\<close> Some have q: "q = r" "List.map_filter f evs = pre' @ rp # post"
        by (simp_all add: List.map_filter_simps)
      from Cons.IH [OF q(2)] obtain xs ev ys where "evs = xs @ ev # ys" "List.map_filter f xs = pre'" "f ev = Some rp" by blast
      with Some q(1) Cons show ?thesis by (intro exI [of _ "e # xs"]) (auto simp: List.map_filter_simps)
    qed
  qed
qed (simp add: List.map_filter_simps)

subsection \<open>What a post does\<close>

lemma checked_start:
  assumes "wired ce s" "documented accepts" "utf8_Valid (ToLower (ip_GatewayEUID p))"
    and "readBody cod r s = (Some (plain, raw), s1)" "unmarshalIngest cod plain = Some p"
  obtains rid s2 w1 s3 tel where "maybeRecordRawPost ''/ingest'' r raw (capture s w) (s, w) = (rid, s2, w1)"
    "wired ce s3" "\<forall>euid. mget tel euid = reported_telemetry (ip_Events p) euid" "w_engine w1 = w_engine w"
    "handleIngest cod now r (s, w) =
      (let (s4, w2) = fold (second_pass now (ToLower (ip_GatewayEUID p)) (ip_APName p) tel (capture s w) rid) (parsed (ip_Events p)) (s3, w1)
       in (200, bump (IngestRequests ''/ingest'' 200) s4, w2))"
    "handleIngest_checked accepts cod now r (s, w) =
      (case checked_fold (call_ok accepts) (\<lambda>(s, w). metrics s) (\<lambda>ms (s, w). (s\<lparr>metrics := ms\<rparr>, w))
          (second_pass now (ToLower (ip_GatewayEUID p)) (ip_APName p) tel (capture s w) rid) (parsed (ip_Events p)) (s3, w1) of
         (False, s4, w2) \<Rightarrow> (None, s4, w2)
       | (True, s4, w2) \<Rightarrow> (Some 200, bump (IngestRequests ''/ingest'' 200) s4, w2))"
proof -
  let ?ap = "ToLower (ip_GatewayEUID p)"
  obtain rid s2 w1 where m: "maybeRecordRawPost ''/ingest'' r raw (capture s w) (s, w) = (rid, s2, w1)"
    by (cases "maybeRecordRawPost ''/ingest'' r raw (capture s w) (s, w)")
  note fr = raw_post_frame [OF m assms(1)]
  obtain s3 tel where f: "fold (first_pass now ?ap) (ip_Events p) (s2, [], []) = (s3, parsed (ip_Events p), tel)"
    "srv_opts s3 = srv_opts s2" "\<forall>euid. mget tel euid = reported_telemetry (ip_Events p) euid"
    using first_pass_fold by blast
  have s1: "s1 = s" using readBody_some [OF assms(4)] by simp
  have "wired ce s3" using assms(1) f(2) fr(9) by (simp add: wired_def)
  moreover have "handleIngest cod now r (s, w) =
      (let (s4, w2) = fold (second_pass now ?ap (ip_APName p) tel (capture s w) rid) (parsed (ip_Events p)) (s3, w1)
       in (200, bump (IngestRequests ''/ingest'' 200) s4, w2))"
    by (simp add: handleIngest_def assms(4,5) s1 m f(1) Let_def)
  moreover have "handleIngest_checked accepts cod now r (s, w) =
      (case checked_fold (call_ok accepts) (\<lambda>(s, w). metrics s) (\<lambda>ms (s, w). (s\<lparr>metrics := ms\<rparr>, w))
          (second_pass now ?ap (ip_APName p) tel (capture s w) rid) (parsed (ip_Events p)) (s3, w1) of
         (False, s4, w2) \<Rightarrow> (None, s4, w2)
       | (True, s4, w2) \<Rightarrow> (Some 200, bump (IngestRequests ''/ingest'' 200) s4, w2))"
    by (simp add: handleIngest_checked_def assms(4,5) s1 m first_checked [OF assms(2,3)] f(1) Let_def)
  ultimately show thesis using m fr(1) f(3) by (intro that)
qed

lemma reports_printable:
  assumes "\<forall>rp \<in> set (List.map_filter (report_of now evs) xs). snd (IsTracked (rp_key rp) e) \<or> utf8_Valid (key (rp_key rp))"
    "it \<in> set (parsed xs)"
  shows "printable_item e it"
proof (cases "pe_key it")
  case (Some k)
  then obtain ev where ev: "ev \<in> set xs" "decodes ev" "identity_of ev = Some k" using assms(2) by (auto simp: parsed_def)
  then obtain rp where "report_of now evs ev = Some rp" "rp_key rp = k" by (auto simp: report_of_def)
  moreover then have "rp \<in> set (List.map_filter (report_of now evs) xs)" using ev(1) by (force simp: List.map_filter_def)
  ultimately show ?thesis using assms(1) Some by (auto simp: printable_item_def)
qed (simp add: printable_item_def)

text \<open>
  If every untracked device in a post has a UTF-8 key, and the name of the gateway is UTF-8, then no metric call of the handler
  panics and the handler with panics does what the handler without them does.
\<close>

theorem ingest_runs_through:
  assumes "wired ce s" "documented accepts" "utf8_Valid (ToLower (ip_GatewayEUID p))"
    and "readBody cod r s = (Some (plain, raw), s1)" "unmarshalIngest cod plain = Some p"
    and "\<forall>rp \<in> set (reports now (ip_Events p)). snd (IsTracked (rp_key rp) (w_engine w)) \<or> utf8_Valid (key (rp_key rp))"
  shows "handleIngest_checked accepts cod now r (s, w) =
    (let (status, s', w') = handleIngest cod now r (s, w) in (Some status, s', w'))"
proof -
  obtain rid s2 w1 s3 tel where h: "wired ce s3" "\<forall>euid. mget tel euid = reported_telemetry (ip_Events p) euid" "w_engine w1 = w_engine w"
    "handleIngest cod now r (s, w) =
      (let (s4, w2) = fold (second_pass now (ToLower (ip_GatewayEUID p)) (ip_APName p) tel (capture s w) rid) (parsed (ip_Events p)) (s3, w1)
       in (200, bump (IngestRequests ''/ingest'' 200) s4, w2))"
    "handleIngest_checked accepts cod now r (s, w) =
      (case checked_fold (call_ok accepts) (\<lambda>(s, w). metrics s) (\<lambda>ms (s, w). (s\<lparr>metrics := ms\<rparr>, w))
          (second_pass now (ToLower (ip_GatewayEUID p)) (ip_APName p) tel (capture s w) rid) (parsed (ip_Events p)) (s3, w1) of
         (False, s4, w2) \<Rightarrow> (None, s4, w2)
       | (True, s4, w2) \<Rightarrow> (Some 200, bump (IngestRequests ''/ingest'' 200) s4, w2))"
    by (rule checked_start [OF assms(1-5)])
  have "\<forall>it \<in> set (parsed (ip_Events p)). printable_item (w_engine w1) it"
    using reports_printable assms(6) unfolding reports_def h(3) by blast
  from second_checked [OF assms(2,3) h(1,2) this] show ?thesis unfolding h(4,5) by (simp add: Let_def split_beta)
qed

text \<open>
  C11: one device with a name that is not UTF-8 cuts a post off. If a post has an event of an untracked device whose key is not UTF-8,
  then the handler panics at that event: the sender gets no answer, and of the post exactly the sightings before that event reach the
  engine. Whatever comes after it is lost, arrivals of tracked beacons included.
\<close>

theorem unprintable_name_cuts_post:
  assumes "wired ce s" "documented accepts" "utf8_Valid (ToLower (ip_GatewayEUID p))"
    and "readBody cod r s = (Some (plain, raw), s1)" "unmarshalIngest cod plain = Some p"
    and "reports now (ip_Events p) = pre @ rp # post" "\<not> snd (IsTracked (rp_key rp) (w_engine w))" "\<not> utf8_Valid (key (rp_key rp))"
    and "\<forall>q \<in> set pre. snd (IsTracked (rp_key q) (w_engine w)) \<or> utf8_Valid (key (rp_key q))"
  shows "\<exists>s' w'. handleIngest_checked accepts cod now r (s, w) = (None, s', w')
    \<and> w_engine w' = fold Submit (tracked_sightings (ToLower (ip_GatewayEUID p)) (ip_APName p) (w_engine w) pre) (w_engine w)"
proof -
  let ?ap = "ToLower (ip_GatewayEUID p)" and ?evs = "ip_Events p"
  obtain rid s2 w1 s3 tel where h: "wired ce s3" "\<forall>euid. mget tel euid = reported_telemetry ?evs euid" "w_engine w1 = w_engine w"
    "handleIngest_checked accepts cod now r (s, w) =
      (case checked_fold (call_ok accepts) (\<lambda>(s, w). metrics s) (\<lambda>ms (s, w). (s\<lparr>metrics := ms\<rparr>, w))
          (second_pass now ?ap (ip_APName p) tel (capture s w) rid) (parsed ?evs) (s3, w1) of
         (False, s4, w2) \<Rightarrow> (None, s4, w2)
       | (True, s4, w2) \<Rightarrow> (Some 200, bump (IngestRequests ''/ingest'' 200) s4, w2))"
    by (rule checked_start [OF assms(1-5)])
  let ?step = "second_pass now ?ap (ip_APName p) tel (capture s w) rid"
  obtain xs ev ys where sp: "?evs = xs @ ev # ys" "List.map_filter (report_of now ?evs) xs = pre" "report_of now ?evs ev = Some rp"
    using map_filter_split [OF assms(6) [unfolded reports_def]] by blast
  let ?it = "\<lparr>pe_ev = ev, pe_adv = advert_of ev, pe_key = identity_of ev\<rparr>"
  have d: "decodes ev" "identity_of ev = Some (rp_key rp)" using sp(3) by (auto simp: report_of_def split: if_splits)
  have pe: "parsed ?evs = parsed xs @ ?it # parsed ys" using d(1) by (simp add: sp(1) parsed_def)
  have "\<forall>it \<in> set (parsed xs). printable_item (w_engine w1) it"
    using reports_printable [of now ?evs xs] assms(9) unfolding sp(2) h(3) by blast
  from second_checked [OF assms(2,3) h(1,2) this]
  have c: "checked_fold (call_ok accepts) (\<lambda>(s, w). metrics s) (\<lambda>ms (s, w). (s\<lparr>metrics := ms\<rparr>, w)) ?step (parsed xs) (s3, w1)
    = (True, fold ?step (parsed xs) (s3, w1))" .
  obtain s' where f: "fold ?step (parsed xs) (s3, w1) =
      (s', fold (take_report (\<lambda>k w. IsTracked k (w_engine w)) (record_observation ce) submit_sighting ?ap (ip_APName p)
            (cs_CapturePerEventHex (capture s w)) rid) pre w1)" and so: "srv_opts s' = srv_opts s3"
    using second_pass_fold [OF wired_callbacks(1-3) [OF h(1)] h(2), of now ?ap "ip_APName p" "capture s w" rid xs w1] unfolding sp(2) by blast
  define w' where "w' = fold (take_report (\<lambda>k w. IsTracked k (w_engine w)) (record_observation ce) submit_sighting ?ap (ip_APName p)
            (cs_CapturePerEventHex (capture s w)) rid) pre w1"
  have e: "w_engine w' = fold Submit (tracked_sightings ?ap (ip_APName p) (w_engine w) pre) (w_engine w)"
    unfolding w'_def take_reports by (simp add: h(3))
  have "\<not> printable_item (w_engine w') ?it"
    using assms(7,8) by (simp add: printable_item_def d(2) e Submits_tracked)
  moreover have "BeaconLookup (srv_opts s') = Some (\<lambda>k w. IsTracked k (w_engine w))" using wired_callbacks(1) [OF h(1)] so by simp
  ultimately have bad: "\<not> list_all (call_ok accepts) (drop (length (metrics s')) (metrics (fst (?step ?it (s', w')))))"
    using second_call_ok [OF assms(2,3), of s' ?it now "ip_APName p" tel "capture s w" rid w'] identity_kind [OF d(2)] d(2) by simp
  have "checked_fold (call_ok accepts) (\<lambda>(s, w). metrics s) (\<lambda>ms (s, w). (s\<lparr>metrics := ms\<rparr>, w)) ?step (parsed ?evs) (s3, w1)
    = (False, s'\<lparr>metrics := metrics s' @ takeWhile (call_ok accepts) (drop (length (metrics s')) (metrics (fst (?step ?it (s', w')))))\<rparr>, w')"
    using bad unfolding pe checked_fold_append c f w'_def [symmetric]
    by (cases "?step ?it (s', w')") (simp add: Let_def)
  then show ?thesis unfolding h(4) using e by simp
qed

subsection \<open>Instances\<close>

definition library_accepts :: "string \<Rightarrow> string list \<Rightarrow> bool" where
  "library_accepts field vals \<longleftrightarrow> arity field = Some (length vals) \<and> list_all utf8_Valid vals"

lemma library_documented: "documented library_accepts"
  by (simp add: documented_def library_accepts_def)

lemma sample_gateway: "utf8_Valid (ToLower ''AA:BB'')"
  by (rule utf8_Valid_ascii) (auto simp: ToLower_def is_ascii_def ascii_lower_def in_range_def)

theorem ingest_runs_through_witness:
  "\<exists>s s' w'. handleIngest_checked library_accepts (sample_codecs [fob_event]) 7 (sample_request ''/ingest'' ''x'') (s, running sample_engine)
    = (Some 200, s', w')"
proof -
  let ?cod = "sample_codecs [fob_event]" and ?r = "sample_request ''/ingest'' ''x''"
  obtain s where w: "wired (bt_call sample_boot) s" and rb: "readBody ?cod ?r s = (Some ([0x7B, 0x7D], [0x7B, 0x7D]), s)"
    using sample_wired by blast
  obtain p where p: "unmarshalIngest ?cod [0x7B, 0x7D] = Some p" "ip_Events p = [fob_event]" "ip_GatewayEUID p = ''AA:BB''"
    using sample_payload by blast
  obtain rp where rp: "reports 7 [fob_event] = [rp]" "rp_key rp = sample_beacon" using fob_reports by blast
  obtain status s' w' where h: "handleIngest ?cod 7 ?r (s, running sample_engine) = (status, s', w')"
    by (cases "handleIngest ?cod 7 ?r (s, running sample_engine)")
  have st: "status = 200" using ingest_effect [OF w rb p(1) h] by (simp add: Let_def)
  have "handleIngest_checked library_accepts ?cod 7 ?r (s, running sample_engine)
      = (let (status, s', w') = handleIngest ?cod 7 ?r (s, running sample_engine) in (Some status, s', w'))"
    by (rule ingest_runs_through [OF w library_documented _ rb p(1)])
       (simp_all only: p(2,3) sample_gateway rp running_sel fob_tracked list.set ball_simps snd_conv simp_thms)
  then show ?thesis unfolding h st by auto
qed

text \<open>A local name of the single byte \<open>0xFF\<close>, in front of the fob.\<close>

definition bad_event :: ingestEvent where
  "bad_event = \<lparr>ie_Data = ''0209FF'', ie_DeviceEUID = ''c1:c3'', ie_RSSI = - 70, ie_Timestamp = 0\<rparr>"

definition bad_parse :: "Advert \<times> parse_error option" where
  "bad_parse = parse_loop [2, 9, 0xFF] 0 (empty_advert\<lparr>Raw := [2, 9, 0xFF]\<rparr>)"

definition bad_key :: BeaconKey where
  "bad_key = mk_key KindName [CHR 0xFF]"

lemma bad_parse_fields:
  "snd bad_parse = None" "adv_IBeacon (fst bad_parse) = None" "Eddystone (fst bad_parse) = None" "Mfg (fst bad_parse) = []"
  "LocalName (fst bad_parse) = [CHR 0xFF]"
  by code_simp+

lemma bad_segs: "utf8_segs [CHR 0xFF] = [(rune_error, [CHR 0xFF])]"
  by simp

lemma bad_identity: "decodes bad_event" "identity_of bad_event = Some bad_key"
proof -
  have "hex_decode ''0209FF'' = Some [2, 9, 0xFF]" by code_simp
  then have p: "Parse (ie_Data bad_event) = bad_parse"
    by (simp add: Parse_def bad_parse_def bad_event_def del: hex_decode.simps)
  have "TrimSpace [CHR 0xFF] = [CHR 0xFF]"
    by (simp add: TrimSpace_def bad_segs trim_both_def rune_error_def is_space_rune_def in_range_def del: utf8_segs.simps)
  then show "decodes bad_event" "identity_of bad_event = Some bad_key"
    by (simp_all add: decodes_def identity_of_def advert_of_def p bad_parse_fields Identify_def ibeacon_stage_def eddystone_stage_def
        name_stage_def NewNameKey_def bad_key_def)
qed

lemma bad_key_invalid: "\<not> utf8_Valid (key bad_key)"
  by (simp add: utf8_Valid_def bad_key_def mk_key_def bad_segs del: utf8_segs.simps)

theorem unprintable_name_cuts_post_witness:
  "\<exists>s s' w'. handleIngest_checked library_accepts (sample_codecs [bad_event, fob_event]) 7 (sample_request ''/ingest'' ''x'')
      (s, running sample_engine) = (None, s', w') \<and> w_engine w' = sample_engine"
proof -
  let ?cod = "sample_codecs [bad_event, fob_event]" and ?r = "sample_request ''/ingest'' ''x''"
  obtain s where w: "wired (bt_call sample_boot) s" and rb: "readBody ?cod ?r s = (Some ([0x7B, 0x7D], [0x7B, 0x7D]), s)"
    using sample_wired by blast
  obtain p where p: "unmarshalIngest ?cod [0x7B, 0x7D] = Some p" "ip_Events p = [bad_event, fob_event]" "ip_GatewayEUID p = ''AA:BB''"
    using sample_payload by blast
  obtain rp post where rp: "reports 7 [bad_event, fob_event] = [] @ rp # post" "rp_key rp = bad_key"
    using bad_identity by (auto simp: reports_def report_of_def List.map_filter_simps)
  have "\<not> snd (IsTracked bad_key sample_engine)"
    by (simp add: IsTracked_def sample_engine_sel bad_key_def sample_beacon_def mk_key_def)
  with unprintable_name_cuts_post [OF w library_documented _ rb p(1), of 7 "[]" rp post "running sample_engine"] rp bad_key_invalid
  show ?thesis by (auto simp: p(2,3) sample_gateway tracked_sightings_def simp del: ToLower_def)
qed

end
