(* ===== verification/Bridge_Probes.thy ===== *)
theory Bridge_Probes
  imports Bridge
begin

section \<open>The helpers of main.go\<close>

text \<open>The decimal printer against the verb \<open>%d\<close>, the readiness probe, and the rate of the log lines of a drop hook.\<close>

lemma digit_char: "m < 10 \<Longrightarrow> ''0123456789'' ! m = char_of (48 + m)"
proof -
  have "list_all (\<lambda>m. ''0123456789'' ! m = char_of (48 + m)) [0..<10]" by code_simp
  then show "m < 10 \<Longrightarrow> ''0123456789'' ! m = char_of (48 + m)" by (simp add: list_all_iff)
qed

lemma fmt_loop_show: "0 < n \<Longrightarrow> fmt_loop n buf = show_nat (nat n) @ buf"
proof (induction n buf rule: fmt_loop.induct)
  case (1 n buf)
  have digit: "''0123456789'' ! nat (grem n 10) = char_of (48 + nat n mod 10)"
  proof -
    have "grem n 10 = int (nat n mod 10)" using 1(2) by (simp add: grem_nonneg nat_mod_distrib of_nat_mod)
    then have "nat (grem n 10) = nat n mod 10" by simp
    then show ?thesis using digit_char [of "nat n mod 10"] by simp
  qed
  have q: "gquot n 10 = n div 10" using 1(2) by (simp add: gquot_nonneg)
  show ?case
  proof (cases "n div 10 = 0")
    case True
    then have "nat n < 10" using 1(2) by linarith
    with 1(2) True show ?thesis by (subst fmt_loop.simps, subst show_nat.simps) (simp add: q digit fmt_loop.simps [of 0])
  next
    case False
    then have "0 < n div 10" "\<not> nat n < 10" using 1(2) by linarith+
    moreover from this have "fmt_loop (n div 10) (''0123456789'' ! nat (grem n 10) # buf)
        = show_nat (nat n div 10) @ ''0123456789'' ! nat (grem n 10) # buf"
      using 1 q by (simp add: nat_div_distrib)
    ultimately show ?thesis
      using 1(2) by (subst fmt_loop.simps, subst show_nat.simps) (simp add: q digit)
  qed
qed

text \<open>
  The decimal printer agrees with the verb \<open>%d\<close> on every 64-bit integer but the smallest, whose negation wraps: it prints a
  lone minus sign for that one.
\<close>

lemma fmtInt_decimal:
  assumes "in_s64 n"
  shows "fmtInt n = (if n = - (2 ^ 63) then ''-'' else show_int n)"
proof -
  have loop0: "fmt_loop (- (2 ^ 63)) [] = []" by (subst fmt_loop.simps) (simp del: fmt_loop.simps)
  consider "n = - (2 ^ 63)" | "n = 0" | "0 < n" | "n < 0" "- (2 ^ 63) < n" using assms by (force simp: in_s64_def)
  then show ?thesis
  proof cases
    case 1
    have s: "s64 (- n) = n" unfolding 1 by (simp add: s64_def)
    have n: "n < 0" "n \<noteq> 0" using 1 by simp_all
    show ?thesis unfolding fmtInt_def Let_def s using n loop0 1 by (simp del: fmt_loop.simps)
  next
    case 2
    then show ?thesis using digit_char [of 0] by (simp add: fmtInt_def show_int_def show_nat.simps del: fmt_loop.simps)
  next
    case 3
    then show ?thesis by (simp add: fmtInt_def fmt_loop_show show_int_def del: fmt_loop.simps)
  next
    case 4
    then have "s64 (- n) = - n" by (intro s64_id) (simp add: in_s64_def)
    with 4 show ?thesis by (simp add: fmtInt_def fmt_loop_show show_int_def del: fmt_loop.simps)
  qed
qed

lemma fmtUint_decimal: "fmtUint n = show_nat (unat n)"
proof -
  have "(- (2 ^ 63) :: int) < 0" "0 \<le> uint n" by simp_all
  then have l: "- (2 ^ 63) < uint n" by (rule less_le_trans)
  have "uint n < 2 ^ 16" using unsigned_less [of n] by simp
  then have "uint n < 2 ^ 63" by simp
  with l have "in_s64 (uint n)" "uint n \<noteq> - (2 ^ 63)" unfolding in_s64_def by (metis less_imp_le, metis less_irrefl)
  then show ?thesis by (simp add: fmtUint_def fmtInt_decimal show_int_def)
qed

text \<open>The readiness probe fails exactly when the grace period is over and the publisher is not connected; the liveness probe never.\<close>

lemma readiness:
  "metricsHandler startedAt now conn ''/ready'' = 503 \<longleftrightarrow> 60 * second \<le> time_sub now startedAt \<and> \<not> conn"
  "metricsHandler startedAt now conn ''/health'' = 200"
  by (auto simp: metricsHandler_def readyAfter_def)

text \<open>Two log lines of a drop hook are at least a second apart.\<close>

lemma drop_log_rate:
  assumes "drop_log now prev = (True, t)" "drop_log now' t = (True, t')" "0 \<le> unix_nano now" "unix_nano now \<le> unix_nano now'"
  shows "unix_nano now + second \<le> unix_nano now'"
proof -
  have "t = unix_nano now" "s64 (unix_nano now' - unix_nano now) \<ge> second"
    using assms(1,2) by (auto simp: drop_log_def Let_def split: if_splits)
  moreover have "in_s64 (unix_nano now' - unix_nano now)"
    using assms(3,4) in_s64_s64 [of "now' - 62135596800 * second"] by (simp add: unix_nano_def in_s64_def)
  ultimately show ?thesis by (simp add: s64_id)
qed

end
