(* ===== verification/Bridge_Mirror.thy ===== *)
theory Bridge_Mirror
  imports Bridge_Samples
begin

section \<open>The broker mirrors the engine\<close>

text \<open>
  What Home Assistant reads is two channels away from what the engine decides. The specification is a table: for every tracked
  beacon the state that was last said about it (\<open>published\<close>), and the broker retains the table once the channels are empty. The
  events are the news that update the table; \<open>news\<close> folds a list of them, the channels hold news that has not arrived, and the
  invariant \<open>mirror\<close> says that the news under way leads from what the broker retains to what the engine publishes.
\<close>

subsection \<open>News\<close>

definition news :: "BeaconKey \<Rightarrow> PresenceEvent list \<Rightarrow> PresenceState option \<Rightarrow> PresenceState option" where
  "news k evs x = fold (\<lambda>ev x. if ev_Beacon ev = k then Some (ev_State ev) else x) evs x"

lemma news_simps [simp]:
  "news k [] x = x"
  "news k (ev # evs) x = news k evs (if ev_Beacon ev = k then Some (ev_State ev) else x)"
  "news k (evs @ evs') x = news k evs' (news k evs x)"
  by (simp_all add: news_def)

lemma news_other: "k \<notin> ev_Beacon ` set evs \<Longrightarrow> news k evs x = x"
  by (induction evs arbitrary: x) auto

lemma news_indifferent: "k \<in> ev_Beacon ` set evs \<Longrightarrow> news k evs x = news k evs y"
  by (induction evs arbitrary: x y) (auto simp: image_iff)

lemma news_agreed: "(\<And>ev. ev \<in> set evs \<Longrightarrow> ev_Beacon ev = k \<Longrightarrow> x = Some (ev_State ev)) \<Longrightarrow> news k evs x = x"
  by (induction evs) auto

text \<open>What the engine holds to be the published state of a beacon.\<close>

definition claims :: "Engine \<Rightarrow> BeaconKey \<Rightarrow> PresenceState option" where
  "claims e k = map_option published (mget (e_beacons e) k)"

lemma claims_None: "claims e k = None \<longleftrightarrow> k \<notin> fst ` set (e_beacons e)"
  using map_of_eq_None_iff [of "e_beacons e" k] by (simp add: claims_def)

text \<open>An operation that says exactly what changes: its events lead from the old table to the new one, for the same beacons.\<close>

definition speaks :: "Engine \<Rightarrow> Engine \<Rightarrow> bool" where
  "speaks e e' \<longleftrightarrow> (\<forall>k. claims e' k = None \<longleftrightarrow> claims e k = None) \<and>
     (\<exists>evs. emitted (trace e') = emitted (trace e) @ evs \<and> (\<forall>ev \<in> set evs. claims e (ev_Beacon ev) \<noteq> None)
        \<and> (\<forall>k. news k evs (claims e k) = claims e' k))"

lemma speaks_refl: "claims e' = claims e \<Longrightarrow> emitted (trace e') = emitted (trace e) \<Longrightarrow> speaks e e'"
  by (auto simp: speaks_def intro: exI [of _ "[]"])

lemma speaks_trans:
  assumes "speaks e e1" "speaks e1 e2"
  shows "speaks e e2"
proof -
  obtain xs where 1: "\<forall>k. claims e1 k = None \<longleftrightarrow> claims e k = None" "emitted (trace e1) = emitted (trace e) @ xs"
    "\<forall>ev \<in> set xs. claims e (ev_Beacon ev) \<noteq> None" "\<forall>k. news k xs (claims e k) = claims e1 k"
    using assms(1) unfolding speaks_def by blast
  obtain ys where 2: "\<forall>k. claims e2 k = None \<longleftrightarrow> claims e1 k = None" "emitted (trace e2) = emitted (trace e1) @ ys"
    "\<forall>ev \<in> set ys. claims e1 (ev_Beacon ev) \<noteq> None" "\<forall>k. news k ys (claims e1 k) = claims e2 k"
    using assms(2) unfolding speaks_def by blast
  have "emitted (trace e2) = emitted (trace e) @ (xs @ ys)" "\<forall>ev \<in> set (xs @ ys). claims e (ev_Beacon ev) \<noteq> None"
    "\<forall>k. news k (xs @ ys) (claims e k) = claims e2 k" using 1 2 by auto
  with 1(1) 2(1) show ?thesis unfolding speaks_def by blast
qed

lemma speaks_fold: "(\<And>e x. I e \<Longrightarrow> speaks e (f x e) \<and> I (f x e)) \<Longrightarrow> I e \<Longrightarrow> speaks e (fold f xs e)"
  by (induction xs arbitrary: e) (auto intro: speaks_refl speaks_trans)

subsection \<open>The operations of the engine\<close>

lemma performs_silent: "\<forall>ev. Emit ev \<notin> set acts \<Longrightarrow> emitted (trace (fold perform acts e)) = emitted (trace e)"
proof (induction acts arbitrary: e)
  case (Cons a acts)
  then have "emitted (trace (perform a e)) = emitted (trace e)" by (cases a) (auto simp: logged_def emitted_append)
  with Cons show ?case by simp
qed simp

lemma recompute_speaks:
  assumes "engine_inv e"
  shows "speaks e (recompute_at now fa k e)"
proof (cases "mget (e_beacons e) k")
  case None
  then show ?thesis by (simp add: recompute_at_eq apply_at_def speaks_refl)
next
  case (Some bs)
  obtain bs' acts where r: "recomputeOne (e_top e) (tun_of e bs) bs now fa = (bs', acts)" by fastforce
  have id: "bs_id bs' = k" using recomputeOne_keeps(1) [of "e_top e" "tun_of e bs" bs now fa] r engine_invD(1) [OF assms Some] by simp
  let ?e' = "fold perform acts (put_beacon k bs' e)"
  have e': "recompute_at now fa k e = ?e'" using Some r by (simp add: recompute_at_eq apply_at_def)
  have c: "claims ?e' = (claims e)(k := Some (published bs'))" by (auto simp: claims_def mget_mput)
  have c0: "claims e k = Some (published bs)" using Some by (simp add: claims_def)
  have dom: "\<forall>k. claims ?e' k = None \<longleftrightarrow> claims e k = None" using c c0 by simp
  from recompute_publishes [OF r] engine_inv_safe [OF assms]
  consider "currentZone bs' = currentZone bs" "\<forall>ev. Emit ev \<notin> set acts"
    | ev where "acts = [Emit ev]" "ev_State ev = published bs'" "ev_Beacon ev = bs_id bs'" by blast
  then show ?thesis
  proof cases
    case 1
    have "claims ?e' = claims e" using c c0 1(1) by (auto simp: published_def)
    with performs_silent [OF 1(2), of "put_beacon k bs' e"] show ?thesis by (simp add: e' speaks_refl)
  next
    case 2
    then have "emitted (trace ?e') = emitted (trace e) @ [ev]" by (simp add: emitted_emit)
    moreover have "\<forall>k. news k [ev] (claims e k) = claims ?e' k" using 2(2,3) c id by simp
    moreover have "\<forall>ev \<in> set [ev]. claims e (ev_Beacon ev) \<noteq> None" using 2(3) id c0 by simp
    ultimately show ?thesis unfolding e' speaks_def using dom by blast
  qed
qed

lemma Submit_speaks:
  assumes "engine_inv e"
  shows "speaks e (Submit sg e)"
proof (cases "mget (e_beacons e) (s_Beacon sg)")
  case None
  then show ?thesis
    by (simp add: Submit_def handleSighting_def speaks_refl logged_def emitted_append claims_def fun_eq_iff)
next
  case (Some bs)
  let ?bs = "note_sighting (tun_of e bs) sg (clk e) bs"
  let ?e1 = "put_beacon (s_Beacon sg) ?bs e"
  have "engine_inv ?e1"
    using assms Some engine_invD(2) [OF assms Some] by (intro put_beacon_inv) (simp_all add: note_sighting_inv)
  moreover have "speaks e ?e1" using Some by (auto simp: claims_def mget_mput published_def intro!: speaks_refl)
  ultimately show ?thesis
    using Some speaks_trans [OF _ recompute_speaks, of e ?e1] by (simp add: Submit_def handleSighting_def)
qed

lemma Submits_speak: "engine_inv e \<Longrightarrow> speaks e (fold Submit ss e)"
  by (rule speaks_fold [where I = engine_inv]) (simp_all add: Submit_speaks Submit_inv)

lemma Tick_speaks: "engine_inv e \<Longrightarrow> speaks e (Tick e)"
  unfolding Tick_def recomputeAll_def
  by (rule speaks_fold [where I = engine_inv]) (simp_all add: recompute_speaks, simp add: recompute_at_eq recompute.apply_at_inv)

text \<open>A round of \<open>RepublishAll\<close> says the whole table.\<close>

lemma RepublishAll_claims: "claims (RepublishAll e) = claims e"
  using RepublishAll_core [of e] by (simp add: same_core_def claims_def fun_eq_iff)

lemma RepublishAll_says:
  assumes "engine_inv e" "emitted (trace (RepublishAll e)) = emitted (trace e) @ evs"
  shows "ev_Beacon ` set evs = fst ` set (e_beacons e)" "claims e k \<noteq> None \<Longrightarrow> news k evs x = claims e k"
proof -
  let ?f = "\<lambda>kb. republish_event (tun_of e (snd kb)) (snd kb) (clk e)"
  have evs: "evs = map ?f (e_beacons e)" using assms(2) by (simp add: RepublishAll_fold emitted_fold)
  have b: "ev_Beacon (?f kb) = fst kb" "claims e (fst kb) = Some (ev_State (?f kb))" if "kb \<in> set (e_beacons e)" for kb
    using engine_invD(1) [OF assms(1)] in_mget_Some [OF engine_inv_mwf [OF assms(1)], of "fst kb" "snd kb"] that
    by (simp_all add: republish_event_state claims_def)
  show dom: "ev_Beacon ` set evs = fst ` set (e_beacons e)"
    by (simp add: evs image_image b(1) cong: image_cong)
  assume "claims e k \<noteq> None"
  then have "k \<in> ev_Beacon ` set evs" by (simp add: dom claims_None)
  then have "news k evs x = news k evs (claims e k)" by (rule news_indifferent)
  also have "\<dots> = claims e k"
  proof (rule news_agreed)
    fix ev assume "ev \<in> set evs" "ev_Beacon ev = k"
    then obtain kb where "kb \<in> set (e_beacons e)" "ev = ?f kb" unfolding evs by auto
    with b \<open>ev_Beacon ev = k\<close> show "claims e k = Some (ev_State ev)" by metis
  qed
  finally show "news k evs x = claims e k" .
qed

subsection \<open>Steps without loss\<close>

text \<open>Every event that is emitted has found room in the engine's channel.\<close>

definition kept :: "Engine \<Rightarrow> Engine \<Rightarrow> bool" where
  "kept e e' \<longleftrightarrow> (\<exists>evs. emitted (trace e') = emitted (trace e) @ evs \<and> out_queue e' = out_queue e @ evs)"

text \<open>
  The steps of the running process that lose nothing, together with the broker's store: whatever does not concern the presence of a
  beacon, sightings, ticks, telemetry and births whose events all find room, a transfer into a publisher's queue with room, a turn of
  the publisher, and a reconnect. Steps of the administrator that change what is tracked are left out.
\<close>

inductive flow :: "marshal_fn \<Rightarrow> broker_fn \<Rightarrow> Bridge \<times> store \<Rightarrow> Bridge \<times> store \<Rightarrow> bool" for marshal broker where
  aside: "bstep b b' \<Longrightarrow> w_pub (bridge_world b') = w_pub (bridge_world b) \<Longrightarrow>
    out_queue (w_engine (bridge_world b')) = out_queue (w_engine (bridge_world b)) \<Longrightarrow>
    mset (e_beacons (w_engine (bridge_world b'))) = mset (e_beacons (w_engine (bridge_world b))) \<Longrightarrow>
    flow marshal broker (b, s) (b', s)"
| sightings: "bstep b b' \<Longrightarrow> only_sightings (bridge_world b) (bridge_world b') \<Longrightarrow>
    kept (w_engine (bridge_world b)) (w_engine (bridge_world b')) \<Longrightarrow> flow marshal broker (b, s) (b', s)"
| ticks: "kept (w_engine (bridge_world b)) (Tick (w_engine (bridge_world b))) \<Longrightarrow>
    flow marshal broker (b, s) (in_world (\<lambda>w. w\<lparr>w_engine := Tick (w_engine w)\<rparr>) b, s)"
| heartbeat: "kept (w_engine (bridge_world b)) (RepublishAll (w_engine (bridge_world b))) \<Longrightarrow>
    flow marshal broker (b, s) (in_world telemetry_tick b, s)"
| births: "kept (w_engine (bridge_world b)) (RepublishAll (w_engine (bridge_world b))) \<Longrightarrow>
    flow marshal broker (b, s) (in_world (birth body) b, s)"
| transfer: "length (queue (w_pub (bridge_world b))) < queue_cap (w_pub (bridge_world b)) \<Longrightarrow>
    flow marshal broker (b, s) (in_world quiet_pump b, s)"
| sends: "w_pub (bridge_world b') = p' \<Longrightarrow> b' = in_world (publish_next marshal broker) b \<Longrightarrow>
    turn marshal broker (w_pub (bridge_world b), s) = (p', s') \<Longrightarrow> flow marshal broker (b, s) (b', s')"
| reconnect: "b' = in_world (\<lambda>w. w\<lparr>w_pub := onConnect (w_pub w)\<rparr>) b \<Longrightarrow>
    s' = broker_store broker (w_pub (bridge_world b)) (w_pub (bridge_world b')) s \<Longrightarrow> flow marshal broker (b, s) (b', s')"

text \<open>Each is a step of the bridge.\<close>

lemma flow_bstep: "flow marshal broker bs bs' \<Longrightarrow> bstep (fst bs) (fst bs')"
  by (induction rule: flow.induct) (auto intro: bstep.intros)

lemma flow_inv: "flow marshal broker bs bs' \<Longrightarrow> bridge_inv (fst bs) \<Longrightarrow> bridge_inv (fst bs')"
  by (rule bstep_inv [OF flow_bstep])

lemma bridge_inv_engine: "bridge_inv b \<Longrightarrow> engine_inv (w_engine (bridge_world b))"
  by (simp add: bridge_inv_def world_inv_def engine_ok_def)

subsection \<open>The invariant\<close>

text \<open>What the broker retains for a beacon when it knows its state \<open>st\<close>.\<close>

definition told :: "marshal_fn \<Rightarrow> string \<Rightarrow> store \<Rightarrow> BeaconKey \<Rightarrow> PresenceState \<Rightarrow> bool" where
  "told marshal pre s k st \<longleftrightarrow>
     s (stateTopic k) = Some (if st = StateNotHome then ''not_home'' else ''home'') \<and> s (deviceConfigTopic pre k) \<noteq> None
     \<and> (\<exists>ev. ev_Beacon ev = k \<and> ev_State ev = st \<and> s (telemetryTopic k) = marshal (DocState (BuildState ev)))"

lemma told_cong:
  "\<forall>t \<in> set (entity_topics pre k). s' t = s t \<Longrightarrow> told marshal pre s' k st = told marshal pre s k st"
  by (simp add: told_def entity_topics_def)

text \<open>What the broker retains for a beacon, if anything, becomes \<open>y\<close> once the news have arrived.\<close>

definition leads :: "marshal_fn \<Rightarrow> string \<Rightarrow> store \<Rightarrow> BeaconKey \<Rightarrow> PresenceEvent list \<Rightarrow> PresenceState option \<Rightarrow> bool" where
  "leads marshal pre s k evs y \<longleftrightarrow> (\<exists>x. (\<forall>st. x = Some st \<longrightarrow> told marshal pre s k st) \<and> news k evs x = y)"

lemma leads_Nil [simp]: "leads marshal pre s k [] (Some st) \<longleftrightarrow> told marshal pre s k st"
  by (simp add: leads_def)

lemma leads_append: "leads marshal pre s k evs y \<Longrightarrow> leads marshal pre s k (evs @ evs') (news k evs' y)"
  by (auto simp: leads_def)

lemma leads_all: "news k evs None = y \<Longrightarrow> leads marshal pre s k evs y"
  by (auto simp: leads_def)

lemma leads_cong:
  "\<forall>t \<in> set (entity_topics pre k). s' t = s t \<Longrightarrow> leads marshal pre s' k evs y = leads marshal pre s k evs y"
  unfolding leads_def by (subst told_cong [of pre k s' s marshal]) simp_all

definition pending :: "World \<Rightarrow> PresenceEvent list \<Rightarrow> PresenceEvent list" where
  "pending w sent = sent @ out_queue (w_engine w)"

text \<open>The news under way, \<open>sent\<close> in the publisher's queue and the rest in the engine's channel, are about tracked beacons.\<close>

definition orderly :: "marshal_fn \<Rightarrow> BeaconKey set \<Rightarrow> World \<Rightarrow> store \<Rightarrow> PresenceEvent list \<Rightarrow> bool" where
  "orderly marshal K w s sent \<longleftrightarrow>
     fst ` set (e_beacons (w_engine w)) = K \<and> pub_inv marshal (w_pub w) s
     \<and> queue (w_pub w) = map QueueEvent sent \<and> ev_Beacon ` set (pending w sent) \<subseteq> K"

text \<open>For the beacons of \<open>H\<close> they lead from what the broker retains to what the engine claims.\<close>

definition mirror :: "marshal_fn \<Rightarrow> string \<Rightarrow> BeaconKey set \<Rightarrow> BeaconKey set \<Rightarrow> World \<Rightarrow> store \<Rightarrow> bool" where
  "mirror marshal pre K H w s \<longleftrightarrow> DiscoveryPrefix (p_opts (w_pub w)) = pre \<and>
     (\<exists>sent. orderly marshal K w s sent \<and>
        (\<forall>k \<in> H. leads marshal pre s k (pending w sent) (claims (w_engine w) k)))"

lemma mirrorI:
  assumes "DiscoveryPrefix (p_opts (w_pub w)) = pre" "orderly marshal K w s sent"
    and "\<And>k. k \<in> H \<Longrightarrow> leads marshal pre s k (pending w sent) (claims (w_engine w) k)"
  shows "mirror marshal pre K H w s"
  using assms unfolding mirror_def by blast

lemma mirrorE:
  assumes "mirror marshal pre K H w s"
  obtains sent where "DiscoveryPrefix (p_opts (w_pub w)) = pre" "fst ` set (e_beacons (w_engine w)) = K"
    "pub_inv marshal (w_pub w) s" "queue (w_pub w) = map QueueEvent sent" "ev_Beacon ` set (pending w sent) \<subseteq> K"
    "\<And>k. k \<in> H \<Longrightarrow> leads marshal pre s k (pending w sent) (claims (w_engine w) k)"
  using assms unfolding mirror_def orderly_def by blast

lemma mirror_weaken: "mirror marshal pre K K w s \<Longrightarrow> H \<subseteq> K \<Longrightarrow> mirror marshal pre K H w s"
  unfolding mirror_def by blast

lemma speaks_keys: "speaks e e' \<Longrightarrow> fst ` set (e_beacons e') = fst ` set (e_beacons e)"
  unfolding speaks_def claims_None by blast

lemma mirror_speaks:
  assumes "mirror marshal pre K H w s" "w_pub w' = w_pub w" "speaks (w_engine w) (w_engine w')" "kept (w_engine w) (w_engine w')"
  shows "mirror marshal pre K H w' s"
  using assms(1)
proof (rule mirrorE)
  fix sent
  assume m: "DiscoveryPrefix (p_opts (w_pub w)) = pre" "fst ` set (e_beacons (w_engine w)) = K"
    "pub_inv marshal (w_pub w) s" "queue (w_pub w) = map QueueEvent sent" "ev_Beacon ` set (pending w sent) \<subseteq> K"
    "\<And>k. k \<in> H \<Longrightarrow> leads marshal pre s k (pending w sent) (claims (w_engine w) k)"
  obtain evs where evs: "emitted (trace (w_engine w')) = emitted (trace (w_engine w)) @ evs"
    "\<forall>ev \<in> set evs. claims (w_engine w) (ev_Beacon ev) \<noteq> None" "\<forall>k. news k evs (claims (w_engine w) k) = claims (w_engine w') k"
    using assms(3) unfolding speaks_def by blast
  have "out_queue (w_engine w') = out_queue (w_engine w) @ evs" using assms(4) evs(1) by (auto simp: kept_def)
  then have p: "pending w' sent = pending w sent @ evs" by (simp add: pending_def)
  have "ev_Beacon ` set evs \<subseteq> K" using evs(2) m(2) by (auto simp: claims_None)
  then have "orderly marshal K w' s sent"
    using m(2-5) speaks_keys [OF assms(3)] by (simp add: orderly_def p assms(2) image_Un)
  then show ?thesis
  proof (rule mirrorI [rotated])
    show "leads marshal pre s k (pending w' sent) (claims (w_engine w') k)" if "k \<in> H" for k
      using leads_append [OF m(6) [OF that], of evs] evs(3) by (simp add: p)
  qed (simp add: assms(2) m(1))
qed

text \<open>A round of \<open>RepublishAll\<close> extends the mirror to all beacons.\<close>

lemma mirror_republish:
  assumes "mirror marshal pre K H w s" "engine_inv (w_engine w)" "w_engine w' = RepublishAll (w_engine w)"
    and "kept (w_engine w) (RepublishAll (w_engine w))"
    and "pub_inv marshal (w_pub w') s" "queue (w_pub w') = queue (w_pub w)" "p_opts (w_pub w') = p_opts (w_pub w)"
  shows "mirror marshal pre K K w' s"
  using assms(1)
proof (rule mirrorE)
  fix sent
  assume m: "DiscoveryPrefix (p_opts (w_pub w)) = pre" "fst ` set (e_beacons (w_engine w)) = K"
    "queue (w_pub w) = map QueueEvent sent" "ev_Beacon ` set (pending w sent) \<subseteq> K"
  obtain evs where evs: "emitted (trace (RepublishAll (w_engine w))) = emitted (trace (w_engine w)) @ evs"
    "out_queue (RepublishAll (w_engine w)) = out_queue (w_engine w) @ evs"
    using assms(4) by (auto simp: kept_def)
  note says = RepublishAll_says [OF assms(2) evs(1)]
  have p: "pending w' sent = pending w sent @ evs" by (simp add: pending_def assms(3) evs(2))
  have c: "claims (w_engine w') = claims (w_engine w)" by (simp add: assms(3) RepublishAll_claims)
  have "fst ` set (e_beacons (w_engine w')) = K"
    using m(2) RepublishAll_core [of "w_engine w"] by (simp add: assms(3) same_core_def)
  then have "orderly marshal K w' s sent" using m says(1) assms(5,6) by (simp add: orderly_def p image_Un)
  then show ?thesis
  proof (rule mirrorI [rotated])
    fix k assume "k \<in> K"
    then have "claims (w_engine w) k \<noteq> None" by (simp add: claims_None m(2))
    then have "news k (pending w' sent) None = claims (w_engine w') k" by (simp add: p c says(2))
    then show "leads marshal pre s k (pending w' sent) (claims (w_engine w') k)" by (rule leads_all)
  qed (simp add: assms(7) m(1))
qed

text \<open>The publisher and the store may change as long as neither the queue nor what is retained for a beacon does.\<close>

lemma mirror_retained:
  assumes "mirror marshal pre K H w s" "w_engine w' = w_engine w" "pub_inv marshal (w_pub w') s'"
    and "queue (w_pub w') = queue (w_pub w)" "p_opts (w_pub w') = p_opts (w_pub w)"
    and "\<And>k t. t \<in> set (entity_topics pre k) \<Longrightarrow> s' t = s t"
  shows "mirror marshal pre K H w' s'"
proof -
  have "leads marshal pre s' k evs y = leads marshal pre s k evs y" for k evs y by (rule leads_cong) (simp add: assms(6))
  then show ?thesis using assms(1-5) by (simp add: mirror_def orderly_def pending_def)
qed

lemma mirror_aside:
  assumes "mirror marshal pre K H w s" "engine_inv (w_engine w)" "w_pub w' = w_pub w" "out_queue (w_engine w') = out_queue (w_engine w)"
    and "mset (e_beacons (w_engine w')) = mset (e_beacons (w_engine w))"
  shows "mirror marshal pre K H w' s"
proof -
  have "mget (e_beacons (w_engine w')) = mget (e_beacons (w_engine w))"
    using mset_eq_setD [OF assms(5)] mwf_perm [OF assms(5) engine_inv_mwf [OF assms(2)]] engine_inv_mwf [OF assms(2)]
    by (intro map_of_inject_set [THEN iffD2]) simp_all
  then have "claims (w_engine w') = claims (w_engine w)" by (simp add: claims_def fun_eq_iff)
  then show ?thesis using assms(1,3,4) mset_eq_setD [OF assms(5)] by (simp add: mirror_def orderly_def pending_def)
qed

lemma mirror_transfer:
  assumes "mirror marshal pre K H w s" "length (queue (w_pub w)) < queue_cap (w_pub w)"
  shows "mirror marshal pre K H (quiet_pump w) s"
proof (cases "out_queue (w_engine w)")
  case Nil
  then show ?thesis using assms(1) by (simp add: pump_def)
next
  case (Cons ev q)
  let ?w' = "w\<lparr>w_engine := (w_engine w)\<lparr>out_queue := q\<rparr>, w_pub := (w_pub w)\<lparr>queue := queue (w_pub w) @ [QueueEvent ev]\<rparr>\<rparr>"
  have w': "quiet_pump w = ?w'" using Cons assms(2) by (simp add: pump_def Publish_def enqueue_room)
  show ?thesis using assms(1)
  proof (rule mirrorE)
    fix sent
    assume m: "DiscoveryPrefix (p_opts (w_pub w)) = pre" "fst ` set (e_beacons (w_engine w)) = K"
      "pub_inv marshal (w_pub w) s" "queue (w_pub w) = map QueueEvent sent" "ev_Beacon ` set (pending w sent) \<subseteq> K"
      "\<And>k. k \<in> H \<Longrightarrow> leads marshal pre s k (pending w sent) (claims (w_engine w) k)"
    have p: "pending ?w' (sent @ [ev]) = pending w sent" by (simp add: pending_def Cons)
    have "pub_inv marshal (w_pub ?w') s" using assms(2) by (intro pub_inv_queue [OF m(3)]) simp_all
    then have "orderly marshal K ?w' s (sent @ [ev])" using m(2,4,5) unfolding orderly_def p by simp
    then show ?thesis unfolding w'
      by (rule mirrorI [rotated]) (use m(1) m(6) p in \<open>simp_all add: claims_def\<close>)
  qed
qed

lemma mirror_sends:
  assumes "mirror marshal pre K H w s" "marshals marshal" "\<And>h m. broker h m = PubOK" "\<forall>k \<in> K. valid_key k" "inj_on EntityID K" "H \<subseteq> K"
    and "turn marshal broker (w_pub w, s) = (w_pub w', s')" "w_engine w' = w_engine w"
  shows "mirror marshal pre K H w' s'"
  using assms(1)
proof (rule mirrorE)
  fix sent
  assume m: "DiscoveryPrefix (p_opts (w_pub w)) = pre" "fst ` set (e_beacons (w_engine w)) = K"
    "pub_inv marshal (w_pub w) s" "queue (w_pub w) = map QueueEvent sent" "ev_Beacon ` set (pending w sent) \<subseteq> K"
    "\<And>k. k \<in> H \<Longrightarrow> leads marshal pre s k (pending w sent) (claims (w_engine w) k)"
  show ?thesis
  proof (cases sent)
    case Nil
    then have "w_pub w' = w_pub w" "s' = s"
      using assms(7) m(4) by (auto simp: turn_def Let_def drain_step_def broker_store_def)
    then show ?thesis using assms(1,8) by (simp add: mirror_def orderly_def pending_def)
  next
    case (Cons ev rest)
    have q: "queue (w_pub w) = QueueEvent ev # map QueueEvent rest" using m(4) Cons by simp
    note st = turn_step [OF m(3) assms(2,3) q assms(7)]
    have p: "pending w sent = ev # pending w' rest" by (simp add: pending_def Cons assms(8))
    have evK: "ev_Beacon ev \<in> K" using m(5) unfolding p by simp
    have "orderly marshal K w' s' rest" using m(2,5) st(1,2) unfolding orderly_def p assms(8) by simp
    then show ?thesis
    proof (rule mirrorI [rotated])
      fix k assume "k \<in> H"
      then obtain x where x: "\<forall>st. x = Some st \<longrightarrow> told marshal pre s k st" "news k (pending w sent) x = claims (w_engine w) k"
        using m(6) unfolding leads_def by blast
      let ?y = "if ev_Beacon ev = k then Some (ev_State ev) else x"
      have "told marshal pre s' k st" if "?y = Some st" for st
      proof (cases "ev_Beacon ev = k")
        case True
        have "asserts marshal (w_pub w') s' ev" by (rule st(6) [OF refl])
        from asserts_simps [OF this] True that show ?thesis by (auto simp: told_def st(3) m(1))
      next
        case False
        then have "EntityID (ev_Beacon ev) \<noteq> EntityID k"
          using inj_onD [OF assms(5)] evK \<open>k \<in> H\<close> assms(6) by blast
        then have "\<forall>t \<in> set (entity_topics pre k). s' t = s t"
          using st(5) entity_topics_disjoint [of k "ev_Beacon ev"] assms(4,6) evK \<open>k \<in> H\<close> m(1) by (auto simp: subset_iff)
        from told_cong [OF this] x(1) that False show ?thesis by simp
      qed
      moreover have "news k (pending w' rest) ?y = claims (w_engine w') k" using x(2) by (simp add: p assms(8))
      ultimately show "leads marshal pre s' k (pending w' rest) (claims (w_engine w') k)"
        unfolding leads_def by blast
    qed (simp add: st(3) m(1))
  qed
qed

subsection \<open>The mirror along a run\<close>

lemma flow_mirror:
  assumes "flow marshal broker (b, s) (b', s')" "bridge_inv b" "mirror marshal pre K H (bridge_world b) s"
    and "marshals marshal" "\<And>h m. broker h m = PubOK" "\<forall>k \<in> K. valid_key k" "inj_on EntityID K" "H \<subseteq> K"
  shows "mirror marshal pre K H (bridge_world b') s'"
proof -
  let ?w = "bridge_world b" and ?w' = "bridge_world b'"
  have inv: "engine_inv (w_engine ?w)" by (rule bridge_inv_engine [OF assms(2)])
  have pub: "pub_inv marshal (w_pub ?w) s" using assms(3) by (auto elim: mirrorE)
  note cap = pub_inv_simps(1,2) [OF pub]
  from assms(1) show ?thesis
  proof (cases rule: flow.cases)
    case aside
    with mirror_aside [OF assms(3) inv, of ?w'] show ?thesis by simp
  next
    case sightings
    then have "speaks (w_engine ?w) (w_engine ?w')" "w_pub ?w' = w_pub ?w"
      using Submits_speak [OF inv] by (auto simp: only_sightings_def)
    with sightings mirror_speaks [OF assms(3), of ?w'] show ?thesis by simp
  next
    case ticks
    with mirror_speaks [OF assms(3), of ?w'] Tick_speaks [OF inv] show ?thesis by simp
  next
    case heartbeat
    with mirror_republish [OF assms(3) inv, of ?w'] pub assms(8) show ?thesis
      by (simp add: telemetry_tick_def mirror_weaken)
  next
    case (births body)
    show ?thesis
    proof (cases "TrimSpace body = payloadOnline")
      case True
      have "pub_inv marshal (onBirthMessage body (w_pub ?w)) s"
        using cap True by (intro pub_inv_empty) (simp_all add: onBirthMessage_def)
      with mirror_republish [OF assms(3) inv, of ?w'] births assms(8) True show ?thesis
        by (simp add: birth_def onBirthMessage_def call_hook_def clearSeen_def mirror_weaken)
    next
      case False
      with births assms(3) show ?thesis by (simp add: birth_def)
    qed
  next
    case transfer
    with assms(3) show ?thesis by (simp add: mirror_transfer)
  next
    case (sends p')
    then have "turn marshal broker (w_pub ?w, s) = (w_pub ?w', s')" "w_engine ?w' = w_engine ?w"
      by (simp_all add: publish_next_def)
    from mirror_sends [OF assms(3-8) this] show ?thesis .
  next
    case reconnect
    let ?m = "\<lparr>msg_topic = bridgeAvailabilityTopic, msg_qos = 1, msg_retained = True, msg_payload = payloadOnline\<rparr>"
    have p': "w_pub ?w' = onConnect (w_pub ?w)" "w_engine ?w' = w_engine ?w" using reconnect(1) by simp_all
    have "pub_inv marshal (w_pub ?w') s'" unfolding p' using cap by (intro pub_inv_empty) (simp_all add: onConnect_def)
    moreover have "s' = deliver ?m s" using reconnect(2) assms(5) by (simp add: p' broker_store_def onConnect_def)
    then have "s' t = s t" if "t \<in> set (entity_topics pre k)" for t k
      using that availability_no_entity by (auto simp: deliver_def)
    ultimately show ?thesis
      using mirror_retained [OF assms(3), of ?w' s'] p' by (simp add: onConnect_def clearSeen_def)
  qed
qed

lemma flows_mirror:
  assumes "(flow marshal broker)\<^sup>*\<^sup>* bs bs'" "bridge_inv (fst bs)" "mirror marshal pre K H (bridge_world (fst bs)) (snd bs)"
    and "marshals marshal" "\<And>h m. broker h m = PubOK" "\<forall>k \<in> K. valid_key k" "inj_on EntityID K" "H \<subseteq> K"
  shows "bridge_inv (fst bs') \<and> mirror marshal pre K H (bridge_world (fst bs')) (snd bs')"
  using assms(1)
proof (induction rule: rtranclp_induct)
  case (step bs1 bs2)
  have "flow marshal broker (fst bs1, snd bs1) (fst bs2, snd bs2)" using step(2) by simp
  from flow_mirror [OF this _ _ assms(4-8)] flow_inv [OF step(2)] step(3) show ?case by blast
qed (simp add: assms(2,3))

lemma RestoreState_queue: "out_queue (fst (RestoreState sns e)) = out_queue e"
proof -
  have "out_queue (fst (restore_one now sn en)) = out_queue (fst en)" for now sn en
    by (auto simp: restore_one_def split: prod.split option.split)
  then have "out_queue (fst (fold (restore_one now) sns en)) = out_queue (fst en)" for now en
    by (induction sns arbitrary: en) simp_all
  then show ?thesis by (simp add: RestoreState_def)
qed

lemma boot_mirror:
  assumes "boot bt db = (Inr b, db1)" "K = fst ` set (e_beacons (w_engine (bridge_world b)))"
  shows "mirror marshal (DiscoveryPrefix (p_opts (w_pub (bridge_world b)))) K {} (bridge_world b) s"
proof -
  obtain tun tp st p where l: "load_config bt db = (Inr (tun, tp, st), db1)" and p: "New (mqtt_options (bt_getenv bt)) = Inr p"
    and w: "bridge_world b = wire_world bt tun tp st p db1"
    by (rule boot_cases [OF assms(1)])
  have "out_queue (fold (register tun) bs e) = out_queue e" for bs e
    by (induction bs arbitrary: e) (simp_all add: register_def)
  then have "out_queue (w_engine (bridge_world b)) = []"
    by (simp add: w wire_world_def rehydrate_def RestoreState_queue NewEngine_def split: sum.split)
  moreover have "queue (w_pub (bridge_world b)) = []" "pub_inv marshal (w_pub (bridge_world b)) s"
    using p New_inv [OF p] by (auto simp: w wire_world_def New_def Let_def split: if_splits)
  ultimately have "orderly marshal K (bridge_world b) s []" by (simp add: orderly_def assms(2) pending_def)
  then show ?thesis by (rule mirrorI [OF refl]) simp
qed

text \<open>
  C4: the broker mirrors the engine. From a successful start on, along any interleaving of steps that lose no event, as soon as one
  telemetry round has been emitted and whenever both channels are empty, the broker retains for every tracked beacon the state that
  the engine publishes for it at this moment, a telemetry document of this state, and a discovery document. This holds whatever the broker
  retained at the start, whatever sightings, ticks, births and reconnects came in between, and in whatever order the pump and
  the publisher worked. Two tracked beacons must not share an entity id.
\<close>

theorem broker_mirrors_engine:
  assumes "tables_ok db" "yaml_maps (bt_yaml bt)" "boot bt db = (Inr b0, db0)"
    and "(flow marshal broker)\<^sup>*\<^sup>* (b0, s0) (b1, s1)"
    and "kept (w_engine (bridge_world b1)) (RepublishAll (w_engine (bridge_world b1)))"
    and "(flow marshal broker)\<^sup>*\<^sup>* (in_world telemetry_tick b1, s1) (b, s)"
    and "out_queue (w_engine (bridge_world b)) = []" "queue (w_pub (bridge_world b)) = []"
    and "marshals marshal" "\<And>h m. broker h m = PubOK"
    and "\<forall>k \<in> fst ` set (e_beacons (w_engine (bridge_world b0))). valid_key k"
      "inj_on EntityID (fst ` set (e_beacons (w_engine (bridge_world b0))))"
    and "mget (e_beacons (w_engine (bridge_world b))) k = Some bs"
  shows "s (stateTopic k) = Some (if published bs = StateNotHome then ''not_home'' else ''home'')
    \<and> (\<exists>ev. ev_Beacon ev = k \<and> ev_State ev = published bs \<and> s (telemetryTopic k) = marshal (DocState (BuildState ev)))
    \<and> s (deviceConfigTopic (DiscoveryPrefix (p_opts (w_pub (bridge_world b)))) k) \<noteq> None"
proof -
  let ?K = "fst ` set (e_beacons (w_engine (bridge_world b0)))" and ?pre = "DiscoveryPrefix (p_opts (w_pub (bridge_world b0)))"
  note run = flows_mirror [OF _ _ _ assms(9-12)]
  have 1: "bridge_inv b1" "mirror marshal ?pre ?K {} (bridge_world b1) s1"
    using run [OF assms(4)] boot_inv [OF assms(3,1,2)] boot_mirror [OF assms(3) refl] by auto
  have "flow marshal broker (b1, s1) (in_world telemetry_tick b1, s1)" by (rule heartbeat [OF assms(5)])
  from flow_inv [OF this] 1(1) have 2: "bridge_inv (in_world telemetry_tick b1)" by simp
  have "pub_inv marshal (w_pub (bridge_world b1)) s1" using 1(2) by (auto elim: mirrorE)
  then have 3: "mirror marshal ?pre ?K ?K (telemetry_tick (bridge_world b1)) s1"
    using mirror_republish [OF 1(2) bridge_inv_engine [OF 1(1)] _ assms(5)] by (simp add: telemetry_tick_def)
  from run [OF assms(6), of ?pre ?K] 2 3 have "mirror marshal ?pre ?K ?K (bridge_world b) s" by simp
  then show ?thesis
  proof (rule mirrorE)
    fix sent
    assume m: "DiscoveryPrefix (p_opts (w_pub (bridge_world b))) = ?pre" "fst ` set (e_beacons (w_engine (bridge_world b))) = ?K"
      "queue (w_pub (bridge_world b)) = map QueueEvent sent"
      "\<And>k. k \<in> ?K \<Longrightarrow> leads marshal ?pre s k (pending (bridge_world b) sent) (claims (w_engine (bridge_world b)) k)"
    have c: "claims (w_engine (bridge_world b)) k = Some (published bs)" using assms(13) by (simp add: claims_def)
    then have "k \<in> ?K" using claims_None [of "w_engine (bridge_world b)" k] m(2) by simp
    with m(4) [of k] c m(3) assms(7,8) have "told marshal ?pre s k (published bs)" by (auto simp: pending_def)
    then show ?thesis by (auto simp: told_def m(1))
  qed
qed

lemma fob_boot_engine:
  assumes "boot sample_boot sample_store = (Inr b, db1)"
  shows "e_beacons (w_engine (bridge_world b)) = [(sample_beacon, newBeaconState sample_beacon ''fob'')]"
    "out_cap (w_engine (bridge_world b)) = Some 1024" "out_queue (w_engine (bridge_world b)) = []"
    "queue (w_pub (bridge_world b)) = []" "pub_inv marshal (w_pub (bridge_world b)) s"
proof -
  obtain tun tp st p where l: "load_config sample_boot sample_store = (Inr (tun, tp, st), db1)"
    and p: "New (mqtt_options (bt_getenv sample_boot)) = Inr p" and w: "bridge_world b = wire_world sample_boot tun tp st p db1"
    by (rule boot_cases [OF assms])
  obtain b' where "boot sample_boot sample_store = (Inr b', sample_store)" by (rule sample_boots)
  with assms have db1: "db1 = sample_store" by simp
  have "loadTopologyFromStore (bt_beaconsFault sample_boot) (bt_beaconOrder sample_boot) (bt_zonesFault sample_boot)
      (bt_zoneOrder sample_boot) sample_store = Inr tp" using load_config_cases(2) [OF l] db1 by simp
  then have "read_topology (sample_env\<lparr>ae_beaconOrder := rev\<rparr>) sample_store = Inr tp"
    using loadTopology_read [of "sample_env\<lparr>ae_beaconOrder := rev\<rparr>" sample_store tp] by (simp add: sample_boot_def sample_env_def)
  with read_topology_ok [OF sample_store_ok(1), of "sample_env\<lparr>ae_beaconOrder := rev\<rparr>"]
  have bs: "beacons tp = [tracked_row fob_row]" by (simp add: fair_reads_def sample_env_def sample_store_def)
  have e: "w_engine (bridge_world b) = NewEngine (Some tp) tun (500 * second) (Some 1024)"
    by (simp add: w wire_world_def rehydrate_def LoadPresenceState_def db1 sample_store_def empty_db_def RestoreState_def
        sample_boot_def List.map_filter_simps)
  show "e_beacons (w_engine (bridge_world b)) = [(sample_beacon, newBeaconState sample_beacon ''fob'')]"
    "out_cap (w_engine (bridge_world b)) = Some 1024" "out_queue (w_engine (bridge_world b)) = []"
    by (simp_all add: e NewEngine_def Beacons_def bs register_def tracked_row_def fob_row_def sample_beacon_def)
  show "queue (w_pub (bridge_world b)) = []" "pub_inv marshal (w_pub (bridge_world b)) s"
    using p New_inv [OF p] by (auto simp: w wire_world_def New_def Let_def split: if_splits)
qed

theorem broker_mirrors_engine_witness:
  "\<exists>b0 b s. boot sample_boot sample_store = (Inr b0, sample_store)
    \<and> (flow sample_marshal sample_broker)\<^sup>*\<^sup>* (b0, \<lambda>_. None) (b, s) \<and> s (stateTopic sample_beacon) = Some ''not_home''"
proof -
  obtain b0 where b0: "boot sample_boot sample_store = (Inr b0, sample_store)" by (rule sample_boots)
  note fob = fob_boot_engine [OF b0]
  let ?R = "flow sample_marshal sample_broker" and ?s0 = "\<lambda>_. None :: string option" and ?bs = "newBeaconState sample_beacon ''fob''"
  let ?e = "w_engine (bridge_world b0)" and ?b1 = "in_world telemetry_tick b0"
  let ?ev = "republish_event (tun_of ?e ?bs) ?bs (clk ?e)"
  have e1: "RepublishAll ?e = emit ?ev ?e" by (simp add: RepublishAll_fold fob(1))
  have q1: "out_queue (RepublishAll ?e) = [?ev]" using fob(2,3) by (simp add: e1 emit_queue)
  have k: "kept ?e (RepublishAll ?e)" unfolding kept_def q1 by (simp add: e1 emitted_emit fob(3))
  let ?b2 = "in_world quiet_pump ?b1"
  have room: "length (queue (w_pub (bridge_world ?b1))) < queue_cap (w_pub (bridge_world ?b1))"
    using fob(4) pub_inv_simps(1) [OF fob(5) [of sample_marshal ?s0]] by (simp add: telemetry_tick_def)
  have 2: "?R (?b1, ?s0) (?b2, ?s0)" by (rule transfer [OF room])
  let ?p = "w_pub (bridge_world b0)"
  have w2: "w_pub (bridge_world ?b2) = ?p\<lparr>queue := [QueueEvent ?ev]\<rparr>" "out_queue (w_engine (bridge_world ?b2)) = []"
    "e_beacons (w_engine (bridge_world ?b2)) = e_beacons ?e"
    using room fob(4) q1 RepublishAll_core [of ?e] by (simp_all add: pump_def telemetry_tick_def Publish_def enqueue_room same_core_def)
  let ?b3 = "in_world (publish_next sample_marshal sample_broker) ?b2"
  obtain p3 s3 where t: "turn sample_marshal sample_broker (w_pub (bridge_world ?b2), ?s0) = (p3, s3)" by fastforce
  then have p3: "w_pub (bridge_world ?b3) = p3" by (simp add: publish_next_def turn_def Let_def)
  have 3: "?R (?b2, ?s0) (?b3, s3)" by (rule sends [OF p3 refl t])
  have "pub_inv sample_marshal (w_pub (bridge_world ?b2)) ?s0"
    unfolding w2 using pub_inv_simps(1) [OF fob(5) [of sample_marshal ?s0]] by (intro pub_inv_queue [OF fob(5)]) simp_all
  moreover have "queue (w_pub (bridge_world ?b2)) = QueueEvent ?ev # []" unfolding w2 by simp
  ultimately have "queue p3 = []" by (rule turn_step(2) [OF _ sample_marshals sample_broker_ok _ t])
  then have q3: "queue (w_pub (bridge_world ?b3)) = []" "out_queue (w_engine (bridge_world ?b3)) = []"
    "e_beacons (w_engine (bridge_world ?b3)) = [(sample_beacon, ?bs)]"
    using p3 w2 fob(1) by (simp_all add: publish_next_def)
  have run: "?R\<^sup>*\<^sup>* (?b1, ?s0) (?b3, s3)" using 2 3 by (meson converse_rtranclp_into_rtranclp r_into_rtranclp)
  have "valid_key sample_beacon" by (simp add: sample_beacon_def valid_key_def knownKinds_def kind_defs)
  then have K: "\<forall>k \<in> fst ` set (e_beacons ?e). valid_key k" "inj_on EntityID (fst ` set (e_beacons ?e))" by (simp_all add: fob(1))
  have g: "mget (e_beacons (w_engine (bridge_world ?b3))) sample_beacon = Some ?bs" unfolding q3(3) by simp
  have "published ?bs = StateNotHome" by (simp add: published_def newBeaconState_def)
  with broker_mirrors_engine [OF sample_store_ok(1) sample_yaml b0 rtranclp.rtrancl_refl k run q3(2,1) sample_marshals sample_broker_ok
      K g]
  have "s3 (stateTopic sample_beacon) = Some ''not_home''" by simp
  moreover have "?R\<^sup>*\<^sup>* (b0, ?s0) (?b3, s3)" by (rule converse_rtranclp_into_rtranclp [OF heartbeat [OF k] run])
  ultimately show ?thesis using b0 by blast
qed

end
