(* ===== verification/Captured.thy ===== *)
theory Captured
  imports Sha256 Go_Net Go_Time Go_Utf8
begin

section \<open>The capture tool (cmd/captured/main.go)\<close>

text \<open>
  \<open>captured\<close> records every request it gets as a JSON file. The directory is a map from paths to contents; gzip and the JSON
  encoder are parameters, and base64, the cleaning of paths and the time stamp are modelled. A note is a constructor instead of its
  text. The reader returns an error only after the bytes before it.
\<close>

subsection \<open>Base64\<close>

definition b64_alphabet :: string where
  "b64_alphabet = ''ABCDEFGHIJKLMNOPQRSTUVWXYZabcdefghijklmnopqrstuvwxyz0123456789+/''"

definition b64_char :: "nat \<Rightarrow> char" where
  "b64_char n = b64_alphabet ! n"

text \<open>\<open>base64.StdEncoding.EncodeToString\<close>.\<close>

fun EncodeToString :: "bytes \<Rightarrow> string" where
  "EncodeToString [] = []"
| "EncodeToString [a] = [b64_char (unat a div 4), b64_char (unat a mod 4 * 16), CHR ''='', CHR ''='']"
| "EncodeToString [a, b] =
     [b64_char (unat a div 4), b64_char (unat a mod 4 * 16 + unat b div 16), b64_char (unat b mod 16 * 4), CHR ''='']"
| "EncodeToString (a # b # c # bs) =
     b64_char (unat a div 4) # b64_char (unat a mod 4 * 16 + unat b div 16) # b64_char (unat b mod 16 * 4 + unat c div 64)
       # b64_char (unat c mod 64) # EncodeToString bs"

subsection \<open>Paths\<close>

text \<open>\<open>filepath.Clean\<close> on the components of a path; \<open>acc\<close> holds the components so far, the last one first.\<close>

fun clean_parts :: "bool \<Rightarrow> string list \<Rightarrow> string list \<Rightarrow> string list" where
  "clean_parts rooted acc [] = rev acc"
| "clean_parts rooted acc (p # ps) =
     (if p = [] \<or> p = ''.'' then clean_parts rooted acc ps
      else if p = ''..'' then
        (if acc \<noteq> [] \<and> hd acc \<noteq> ''..'' then clean_parts rooted (tl acc) ps
         else if rooted then clean_parts rooted acc ps
         else clean_parts rooted (p # acc) ps)
      else clean_parts rooted (p # acc) ps)"

fun join_parts :: "string list \<Rightarrow> string" where
  "join_parts [] = []"
| "join_parts [p] = p"
| "join_parts (p # q # ps) = p @ CHR ''/'' # join_parts (q # ps)"

definition is_rooted :: "string \<Rightarrow> bool" where
  "is_rooted path \<longleftrightarrow> path \<noteq> [] \<and> hd path = CHR ''/''"

definition Clean :: "string \<Rightarrow> string" where
  "Clean path =
     (let out = (if is_rooted path then ''/'' else []) @ join_parts (clean_parts (is_rooted path) [] (split_on (CHR ''/'') path))
      in if out = [] then ''.'' else out)"

text \<open>\<open>filepath.Join(dir, name)\<close> for a non-empty name.\<close>

definition Join :: "string \<Rightarrow> string \<Rightarrow> string" where
  "Join dir nm = Clean (if dir = [] then nm else dir @ CHR ''/'' # nm)"

subsection \<open>The record of a request\<close>

record cap_request =
  cr_Method :: string
  cr_RemoteAddr :: string
  cr_URL :: string
  cr_Host :: string
  cr_Headers :: "(string, string list) gmap"
  cr_Query :: "(string, string list) gmap"
  cr_Body :: "bytes \<times> bool"

datatype decode_note =
    NoNote
  | RawNotUtf8
  | GzipDecodeFailed string
  | GzipReadFailed string
  | GzipDecompressed
  | UnknownEncoding string
  | NonUtf8AfterDecode decode_note

record captureRecord =
  cap_Timestamp :: gtime
  cap_RemoteAddr :: string
  cap_Method :: string
  cap_URL :: string
  cap_Host :: string
  cap_ContentType :: string
  cap_ContentEncoding :: string
  cap_Headers :: "(string, string list) gmap"
  cap_Query :: "(string, string list) gmap"
  cap_BodyLen :: nat
  cap_BodyRawBase64 :: string
  cap_BodyDecodedText :: string
  cap_BodyDecodedLen :: nat
  cap_DecodeNote :: decode_note
  cap_Truncated :: bool

definition Header_Get :: "(string, string list) gmap \<Rightarrow> string \<Rightarrow> string" where
  "Header_Get h field = (case mget_zero [] h field of [] \<Rightarrow> [] | v # vs \<Rightarrow> v)"

text \<open>Reading the body: the bytes that arrive, and whether the stream ends without an error.\<close>

datatype read_result = ReadFailed | ReadPanics | ReadOK bytes bool

definition cap_readBody :: "bytes \<times> bool \<Rightarrow> int \<Rightarrow> read_result" where
  "cap_readBody rc maxb =
     (let (data, ends_well) = rc; n = s64 (maxb + 1); buf = take (nat n) data in
      if int (length data) < n \<and> \<not> ends_well then ReadFailed
      else if int (length buf) > maxb then (if maxb < 0 then ReadPanics else ReadOK (take (nat maxb) buf) True)
      else ReadOK buf False)"

text \<open>gzip: the header is bad, the stream is bad, or the decoded bytes.\<close>

datatype gunzip_result = BadHeader string | BadStream string | Decoded bytes

definition decodeBody :: "(bytes \<Rightarrow> gunzip_result) \<Rightarrow> string \<Rightarrow> bytes \<Rightarrow> bytes option \<times> decode_note" where
  "decodeBody gunzip contentEncoding body =
     (let enc = ToLower (TrimSpace contentEncoding) in
      if enc = [] \<or> enc = ''identity'' then
        (if utf8_Valid (string_of_bytes body) then (Some body, NoNote) else (None, RawNotUtf8))
      else if enc = ''gzip'' \<or> enc = ''x-gzip'' then
        (case gunzip body of
           BadHeader e \<Rightarrow> (None, GzipDecodeFailed e)
         | BadStream e \<Rightarrow> (None, GzipReadFailed e)
         | Decoded out \<Rightarrow> (Some out, GzipDecompressed))
      else (None, UnknownEncoding contentEncoding))"

fun sanitize_byte :: "char \<Rightarrow> char" where
  "sanitize_byte c =
     (if in_range 97 122 (code c) \<or> in_range 65 90 (code c) \<or> in_range 48 57 (code c) then c else CHR ''_'')"

definition sanitize :: "string \<Rightarrow> string" where
  "sanitize s = (let out = map sanitize_byte s in if out = [] then ''_'' else out)"

text \<open>The layout \<open>20060102T150405.000\<close>.\<close>

definition capture_stamp :: "gtime \<Rightarrow> string" where
  "capture_stamp t =
     (let (y, m, d) = civil (t div day_len); s = t mod day_len div second
      in pad_year y @ pad2 m @ pad2 d @ ''T'' @ pad2 (s div 3600) @ pad2 (s div 60 mod 60) @ pad2 (s mod 60) @ ''.''
           @ zeros 3 (show_nat (nat (t mod second div 1000000))))"

definition record_name :: "captureRecord \<Rightarrow> string \<Rightarrow> string" where
  "record_name rc data =
     capture_stamp (cap_Timestamp rc) @ ''-'' @ sanitize (cap_Method rc) @ ''-''
       @ hex_encode (take 4 (sha256 (bytes_of_string data))) @ ''.json''"

type_synonym disk = "(string, string) gmap"

text \<open>A failed write leaves the file as it was, or with the content it got to.\<close>

datatype write_outcome = Written | WriteFailed "string option"

definition writeRecord :: "(captureRecord \<Rightarrow> string option) \<Rightarrow> write_outcome \<Rightarrow> string \<Rightarrow> captureRecord \<Rightarrow> disk \<Rightarrow> string \<times> bool \<times> disk" where
  "writeRecord json outcome dir rc disk =
     (case json rc of
        None \<Rightarrow> ([], False, disk)
      | Some data \<Rightarrow>
          (let path = Join dir (record_name rc data) in
           case outcome of
             Written \<Rightarrow> (path, True, mput path data disk)
           | WriteFailed None \<Rightarrow> (path, False, disk)
           | WriteFailed (Some part) \<Rightarrow> (path, False, mput path part disk)))"

record CaptureEnv =
  cap_now :: gtime
  cap_gunzip :: "bytes \<Rightarrow> gunzip_result"
  cap_json :: "captureRecord \<Rightarrow> string option"
  cap_outcome :: write_outcome

definition capture_record :: "CaptureEnv \<Rightarrow> cap_request \<Rightarrow> bytes \<Rightarrow> bool \<Rightarrow> captureRecord" where
  "capture_record en r body truncated =
     (let enc = Header_Get (cr_Headers r) ''Content-Encoding'';
          (decoded, note0) = decodeBody (cap_gunzip en) enc body;
          ok = (case decoded of None \<Rightarrow> False | Some d \<Rightarrow> utf8_Valid (string_of_bytes d))
      in \<lparr>cap_Timestamp = cap_now en, cap_RemoteAddr = cr_RemoteAddr r, cap_Method = cr_Method r, cap_URL = cr_URL r,
          cap_Host = cr_Host r, cap_ContentType = Header_Get (cr_Headers r) ''Content-Type'', cap_ContentEncoding = enc,
          cap_Headers = cr_Headers r, cap_Query = cr_Query r, cap_BodyLen = length body, cap_BodyRawBase64 = EncodeToString body,
          cap_BodyDecodedText = (case decoded of None \<Rightarrow> [] | Some d \<Rightarrow> if ok then string_of_bytes d else []),
          cap_BodyDecodedLen = (case decoded of None \<Rightarrow> 0 | Some d \<Rightarrow> length d),
          cap_DecodeNote = (if decoded = None \<or> ok then note0 else NonUtf8AfterDecode note0),
          cap_Truncated = truncated\<rparr>)"

text \<open>\<open>ServeHTTP\<close>: the status and the disk; a panic of the handler is \<open>None\<close>.\<close>

definition capture_ServeHTTP :: "CaptureEnv \<Rightarrow> string \<Rightarrow> int \<Rightarrow> cap_request \<Rightarrow> disk \<Rightarrow> nat option \<times> disk" where
  "capture_ServeHTTP en dir maxBody r disk =
     (case cap_readBody (cr_Body r) maxBody of
        ReadFailed \<Rightarrow> (Some 400, disk)
      | ReadPanics \<Rightarrow> (None, disk)
      | ReadOK body truncated \<Rightarrow>
          (let (path, ok, disk1) = writeRecord (cap_json en) (cap_outcome en) dir (capture_record en r body truncated) disk
           in (Some 200, disk1)))"

subsection \<open>The banner\<close>

definition banner_port :: "string \<Rightarrow> string" where
  "banner_port addr =
     (if CHR '':'' \<in> set addr then rev (takeWhile (\<lambda>c. c \<noteq> CHR '':'') (rev addr)) else addr)"

datatype net_addr = AddrIPNet bytes | AddrOther

definition IsLoopback :: "bytes \<Rightarrow> bool" where
  "IsLoopback ip \<longleftrightarrow> (case To4 ip of Some q \<Rightarrow> hd q = 127 | None \<Rightarrow> ip = replicate 15 0 @ [1])"

definition show_v4 :: "bytes \<Rightarrow> string" where
  "show_v4 q = show_nat (unat (q ! 0)) @ ''.'' @ show_nat (unat (q ! 1)) @ ''.'' @ show_nat (unat (q ! 2)) @ ''.'' @ show_nat (unat (q ! 3))"

fun lan_ip :: "net_addr \<Rightarrow> string option" where
  "lan_ip AddrOther = None"
| "lan_ip (AddrIPNet ip) = (if IsLoopback ip then None else map_option show_v4 (To4 ip))"

definition lanIPs :: "net_addr list option \<Rightarrow> string list" where
  "lanIPs addrs = (case addrs of None \<Rightarrow> [] | Some xs \<Rightarrow> List.map_filter lan_ip xs)"

definition banner_urls :: "string \<Rightarrow> net_addr list option \<Rightarrow> string list" where
  "banner_urls addr addrs = map (\<lambda>ip. ''http://'' @ ip @ '':'' @ banner_port addr @ ''/ingest'') (lanIPs addrs)"

subsection \<open>A capture is lossless\<close>

text \<open>A decoder for the encoding, as the reader of a capture uses it.\<close>

definition b64_value :: "char \<Rightarrow> nat option" where
  "b64_value c = map_option fst (List.find (\<lambda>(i, d). d = c) (enumerate 0 b64_alphabet))"

fun b64_decode :: "string \<Rightarrow> bytes option" where
  "b64_decode [] = Some []"
| "b64_decode (p # q # r # s # cs) =
     (case (b64_value p, b64_value q) of
        (Some v, Some w) \<Rightarrow>
          if r = CHR ''='' then (if s = CHR ''='' \<and> cs = [] then Some [word_of_nat (v * 4 + w div 16)] else None)
          else (case b64_value r of
              None \<Rightarrow> None
            | Some x \<Rightarrow>
                if s = CHR ''='' then
                  (if cs = [] then Some [word_of_nat (v * 4 + w div 16), word_of_nat (w mod 16 * 16 + x div 4)] else None)
                else (case b64_value s of
                    None \<Rightarrow> None
                  | Some y \<Rightarrow> map_option (\<lambda>bs. word_of_nat (v * 4 + w div 16) # word_of_nat (w mod 16 * 16 + x div 4)
                        # word_of_nat (x mod 4 * 64 + y) # bs) (b64_decode cs)))
      | _ \<Rightarrow> None)"
| "b64_decode _ = None"

lemma b64_values: "n < 64 \<Longrightarrow> b64_value (b64_char n) = Some n \<and> b64_char n \<noteq> CHR ''=''"
proof -
  have "list_all (\<lambda>n. b64_value (b64_char n) = Some n \<and> b64_char n \<noteq> CHR ''='') [0..<64]" by code_simp
  then show "n < 64 \<Longrightarrow> b64_value (b64_char n) = Some n \<and> b64_char n \<noteq> CHR ''=''" by (simp add: list_all_iff)
qed

lemma byte_halves:
  fixes a b :: byte
  shows "unat a div 4 < 64" "unat a mod 4 * 16 + unat b div 16 < 64" "unat b mod 16 * 4 + unat a div 64 < 64" "unat a mod 64 < 64"
    "unat a mod 4 * 16 < 64" "unat b mod 16 * 4 < 64"
    "(unat a mod 4 * 16 + unat b div 16) div 16 = unat a mod 4" "(unat a mod 4 * 16 + unat b div 16) mod 16 = unat b div 16"
    "(unat b mod 16 * 4 + unat a div 64) div 4 = unat b mod 16" "(unat b mod 16 * 4 + unat a div 64) mod 4 = unat a div 64"
    "unat a div 4 * 4 + unat a mod 4 = unat a" "unat a div 16 * 16 + unat a mod 16 = unat a" "unat a div 64 * 64 + unat a mod 64 = unat a"
    "unat a div 16 mod 16 = unat a div 16" "unat a div 64 mod 4 = unat a div 64"
proof -
  have "unat a < 256" "unat b < 256" using unsigned_less [of a] unsigned_less [of b] by simp_all
  then have d: "unat a div 4 < 64" "unat b div 16 < 16" "unat a div 16 < 16" "unat a div 64 < 4" by (simp_all add: less_mult_imp_div_less)
  have m: "unat a mod 4 < 4" "unat b mod 16 < 16" "unat a mod 64 < 64" by simp_all
  show "unat a div 4 < 64" "unat a mod 4 * 16 + unat b div 16 < 64" "unat b mod 16 * 4 + unat a div 64 < 64" "unat a mod 64 < 64"
    "unat a mod 4 * 16 < 64" "unat b mod 16 * 4 < 64"
    using d m by linarith+
  show "(unat a mod 4 * 16 + unat b div 16) div 16 = unat a mod 4" "(unat a mod 4 * 16 + unat b div 16) mod 16 = unat b div 16"
    "(unat b mod 16 * 4 + unat a div 64) div 4 = unat b mod 16" "(unat b mod 16 * 4 + unat a div 64) mod 4 = unat a div 64"
    "unat a div 4 * 4 + unat a mod 4 = unat a" "unat a div 16 * 16 + unat a mod 16 = unat a" "unat a div 64 * 64 + unat a mod 64 = unat a"
    "unat a div 16 mod 16 = unat a div 16" "unat a div 64 mod 4 = unat a div 64"
    using d by simp_all
qed

lemma b64_roundtrip: "b64_decode (EncodeToString bs) = Some bs"
  by (induction bs rule: EncodeToString.induct) (simp_all add: b64_values byte_halves del: of_nat_add of_nat_mult)

lemma cap_readBody_ok:
  assumes "0 \<le> maxb" "maxb < 2 ^ 63 - 1" "ends_well \<or> maxb < int (length data)"
  shows "cap_readBody (data, ends_well) maxb = ReadOK (take (nat maxb) data) (maxb < int (length data))"
proof -
  have s: "s64 (maxb + 1) = maxb + 1" using assms(1,2) by (intro s64_id) (simp add: in_s64_def)
  show ?thesis
  proof (cases "maxb < int (length data)")
    case True
    then have "length (take (nat (maxb + 1)) data) = nat (maxb + 1)" using assms(1) by simp
    with True assms(1) show ?thesis by (simp add: cap_readBody_def s min_def Let_def)
  next
    case False
    with assms show ?thesis by (simp add: cap_readBody_def s Let_def)
  qed
qed

text \<open>
  C40: a capture loses nothing. With a limit below the largest integer, a request whose body arrives (or exceeds the limit) is answered
  with 200 and leaves one document on the disk, made from a record whose base64 field decodes to the body, cut at the limit exactly if
  the record says so, with the method, the address and every header of the request; and where the record has a text, that is valid UTF-8
  and, for a body without content encoding, the body itself.
\<close>

theorem capture_is_lossless:
  assumes "0 \<le> maxBody" "maxBody < 2 ^ 63 - 1" "cr_Body r = (data, ends_well)" "ends_well \<or> maxBody < int (length data)"
    and "\<And>rc. cap_json en rc \<noteq> None" "cap_outcome en = Written"
  shows "\<exists>rc path. capture_ServeHTTP en dir maxBody r disk = (Some 200, mput path (the (cap_json en rc)) disk)
    \<and> b64_decode (cap_BodyRawBase64 rc) = Some (take (nat maxBody) data) \<and> (cap_Truncated rc \<longleftrightarrow> maxBody < int (length data))
    \<and> cap_Method rc = cr_Method r \<and> cap_RemoteAddr rc = cr_RemoteAddr r \<and> cap_Headers rc = cr_Headers r
    \<and> (cap_BodyDecodedText rc \<noteq> [] \<longrightarrow> utf8_Valid (cap_BodyDecodedText rc)
         \<and> (cap_ContentEncoding rc = [] \<longrightarrow> cap_BodyDecodedText rc = string_of_bytes (take (nat maxBody) data)))"
proof -
  let ?body = "take (nat maxBody) data"
  let ?rc = "capture_record en r ?body (maxBody < int (length data))"
  have rb: "cap_readBody (cr_Body r) maxBody = ReadOK ?body (maxBody < int (length data))"
    unfolding assms(3) by (rule cap_readBody_ok [OF assms(1,2,4)])
  obtain doc where doc: "cap_json en ?rc = Some doc" using assms(5) by blast
  have "capture_ServeHTTP en dir maxBody r disk = (Some 200, mput (Join dir (record_name ?rc doc)) (the (cap_json en ?rc)) disk)"
    by (simp add: capture_ServeHTTP_def rb writeRecord_def doc assms(6) Let_def)
  moreover have "b64_decode (cap_BodyRawBase64 ?rc) = Some ?body" "cap_Truncated ?rc \<longleftrightarrow> maxBody < int (length data)"
    "cap_Method ?rc = cr_Method r" "cap_RemoteAddr ?rc = cr_RemoteAddr r" "cap_Headers ?rc = cr_Headers r"
    by (simp_all add: capture_record_def Let_def split_beta b64_roundtrip)
  moreover have "utf8_Valid (cap_BodyDecodedText ?rc) \<and> (cap_ContentEncoding ?rc = [] \<longrightarrow> cap_BodyDecodedText ?rc = string_of_bytes ?body)"
    if "cap_BodyDecodedText ?rc \<noteq> []"
    using that by (auto simp: capture_record_def Let_def split_beta decodeBody_def split: option.splits if_splits)
  ultimately show ?thesis by blast
qed

text \<open>A post of two bytes, and a write in a directory with dots.\<close>

definition sample_capture :: CaptureEnv where
  "sample_capture =
     \<lparr>cap_now = 0, cap_gunzip = (\<lambda>b. BadHeader []), cap_json = (\<lambda>rc. Some (cap_BodyRawBase64 rc)), cap_outcome = Written\<rparr>"

definition sample_cap_request :: cap_request where
  "sample_cap_request =
     \<lparr>cr_Method = ''../POST'', cr_RemoteAddr = ''10.0.0.7:1'', cr_URL = ''/ingest'', cr_Host = ''h'', cr_Headers = [], cr_Query = [],
      cr_Body = ([0x7B, 0xFF, 0x7D], True)\<rparr>"

theorem capture_is_lossless_witness:
  "\<exists>path doc. capture_ServeHTTP sample_capture ''./captures'' 2 sample_cap_request [] = (Some 200, [(path, doc)])
    \<and> b64_decode doc = Some [0x7B, 0xFF]"
proof -
  have "cr_Body sample_cap_request = ([0x7B, 0xFF, 0x7D], True)" by (simp add: sample_cap_request_def)
  from capture_is_lossless [OF _ _ this, of 2 sample_capture "''./captures''" "[]"] show ?thesis
    by (auto simp: sample_capture_def)
qed

subsection \<open>A capture stays in its directory\<close>

lemma split_on_nonempty: "split_on c s \<noteq> []"
  by (induction s) (auto split: list.splits)

lemma split_on_append: "split_on c (a @ c # b) = split_on c a @ split_on c b"
proof (induction a)
  case (Cons x a)
  then show ?case using split_on_nonempty [of c a] by (auto split: list.splits)
qed simp

lemma split_on_none: "c \<notin> set a \<Longrightarrow> split_on c a = [a]"
  by (induction a) auto

lemma clean_parts_last:
  "n \<notin> {[], ''.'', ''..''} \<Longrightarrow> clean_parts rooted acc (ps @ [n]) = clean_parts rooted acc ps @ [n]"
  by (induction rooted acc ps rule: clean_parts.induct) auto

definition path_parts :: "string \<Rightarrow> string list" where
  "path_parts path = clean_parts (is_rooted path) [] (split_on (CHR ''/'') path)"

lemma Join_parts:
  assumes "dir \<noteq> []" "CHR ''/'' \<notin> set nm" "nm \<notin> {[], ''.'', ''..''}"
  shows "Join dir nm = Clean (dir @ CHR ''/'' # nm)" "path_parts (dir @ CHR ''/'' # nm) = path_parts dir @ [nm]"
proof -
  have r: "is_rooted (dir @ CHR ''/'' # nm) = is_rooted dir" using assms(1) by (simp add: is_rooted_def)
  show "Join dir nm = Clean (dir @ CHR ''/'' # nm)" using assms(1) by (simp add: Join_def)
  show "path_parts (dir @ CHR ''/'' # nm) = path_parts dir @ [nm]"
    by (simp add: path_parts_def r split_on_append split_on_none [OF assms(2)] clean_parts_last [OF assms(3)])
qed

lemma number_no_slash: "CHR ''/'' \<notin> set (show_nat n)" "CHR ''/'' \<notin> set (zeros k (show_nat n))"
proof -
  show s: "CHR ''/'' \<notin> set (show_nat n)" using show_nat_digits [of "CHR ''/''" n] by (auto simp: is_digit_def in_range_def)
  show "CHR ''/'' \<notin> set (zeros k (show_nat n))" using s by auto
qed

lemma record_name_plain: "CHR ''/'' \<notin> set (record_name rc data)" "record_name rc data \<notin> {[], ''.'', ''..''}"
proof -
  have "CHR ''/'' \<notin> set (capture_stamp t)" for t
    using number_no_slash by (auto simp: capture_stamp_def Let_def split_beta pad2_def pad_year_def simp del: zeros.simps)
  moreover have "CHR ''/'' \<notin> set (sanitize s)" for s by (auto simp: sanitize_def Let_def in_range_def split: if_splits)
  moreover have "CHR ''/'' \<notin> set (hex_encode bs)" for bs
    using hex_encode_lhex [of "CHR ''/''" bs] by (auto simp: is_lhex_def is_digit_def in_range_def)
  ultimately show "CHR ''/'' \<notin> set (record_name rc data)" by (simp add: record_name_def)
  have "CHR ''-'' \<in> set (record_name rc data)" by (simp add: record_name_def)
  then show "record_name rc data \<notin> {[], ''.'', ''..''}" by auto
qed

text \<open>
  A capture stays in its directory. Whatever the method, the headers and the body of a request are, at most one file is written,
  and the path of that file has the components of the directory followed by one name, in which there is no slash and which is
  neither \<open>.\<close> nor \<open>..\<close>.
\<close>

theorem capture_stays_in_dir:
  assumes "dir \<noteq> []" "capture_ServeHTTP en dir maxBody r disk = (status, disk')"
  shows "disk' = disk \<or> (\<exists>nm content. disk' = mput (Clean (dir @ CHR ''/'' # nm)) content disk
    \<and> path_parts (dir @ CHR ''/'' # nm) = path_parts dir @ [nm] \<and> CHR ''/'' \<notin> set nm \<and> nm \<notin> {[], ''.'', ''..''})"
proof -
  have w: "snd (snd (writeRecord json outcome dir rc disk)) = disk
      \<or> (\<exists>data content. snd (snd (writeRecord json outcome dir rc disk)) = mput (Join dir (record_name rc data)) content disk)"
    for json outcome rc
    by (auto simp: writeRecord_def Let_def split: option.split write_outcome.split)
  have "disk' = disk \<or> (\<exists>rc data content. disk' = mput (Join dir (record_name rc data)) content disk)"
    using assms(2) w by (auto simp: capture_ServeHTTP_def split_beta Let_def split: read_result.splits) metis
  moreover have "Join dir (record_name rc data) = Clean (dir @ CHR ''/'' # record_name rc data)"
    "path_parts (dir @ CHR ''/'' # record_name rc data) = path_parts dir @ [record_name rc data]" for rc data
    by (rule Join_parts [OF assms(1) record_name_plain])+
  ultimately show ?thesis using record_name_plain by metis
qed

theorem capture_stays_in_dir_witness:
  "snd (capture_ServeHTTP sample_capture ''./captures'' 2 sample_cap_request []) = []
    \<or> (\<exists>nm content. snd (capture_ServeHTTP sample_capture ''./captures'' 2 sample_cap_request [])
          = [(Clean (''./captures'' @ CHR ''/'' # nm), content)] \<and> path_parts (''./captures'' @ CHR ''/'' # nm) = [''captures'', nm])"
proof -
  have p: "path_parts ''./captures'' = [''captures'']" by (simp add: path_parts_def is_rooted_def)
  obtain st d where h: "capture_ServeHTTP sample_capture ''./captures'' 2 sample_cap_request [] = (st, d)"
    by (cases "capture_ServeHTTP sample_capture ''./captures'' 2 sample_cap_request []")
  from capture_stays_in_dir [OF _ h] show ?thesis unfolding h p by auto
qed

subsection \<open>The limit\<close>

text \<open>
  The largest limit captures nothing. \<open>maxBody + 1\<close> wraps to the smallest integer, the limited reader returns the end at once, and
  the body is taken to be empty and complete.
\<close>

theorem capture_limit_wraps:
  "cap_readBody rc (2 ^ 63 - 1) = ReadOK [] False"
  by (cases rc) (simp add: cap_readBody_def s64_def)

lemma negative_limit_panics:
  "maxb < 0 \<Longrightarrow> - (2 ^ 63) \<le> maxb \<Longrightarrow> cap_readBody rc maxb = ReadPanics"
proof -
  assume "maxb < 0" "- (2 ^ 63) \<le> maxb"
  then have "s64 (maxb + 1) = maxb + 1" by (intro s64_id) (simp add: in_s64_def)
  with \<open>maxb < 0\<close> show "cap_readBody rc maxb = ReadPanics" by (cases rc) (simp add: cap_readBody_def)
qed

end
