(* ===== verification/Clock.thy ===== *)
theory Clock
  imports Prelude
begin

section \<open>The clocks (internal/clock)\<close>

text \<open>
  The clock of the tests. The wall clock \<open>Real\<close> is an argument of every operation that reads it, or the field \<open>clk\<close> of the engine.
\<close>

record Fake =
  fake_now :: gtime

definition NewFake :: "gtime \<Rightarrow> Fake" where
  "NewFake t = \<lparr>fake_now = t\<rparr>"

definition Fake_Now :: "Fake \<Rightarrow> gtime" where
  "Fake_Now f = fake_now f"

definition Fake_Set :: "gtime \<Rightarrow> Fake \<Rightarrow> Fake" where
  "Fake_Set t f = f\<lparr>fake_now := t\<rparr>"

definition Advance :: "duration \<Rightarrow> Fake \<Rightarrow> Fake" where
  "Advance d f = f\<lparr>fake_now := fake_now f + d\<rparr>"

lemma Advance_sum: "Fake_Now (fold Advance ds f) = Fake_Now f + sum_list ds"
  by (induction ds arbitrary: f) (simp_all add: Fake_Now_def Advance_def)

lemma Set_wins: "Fake_Now (fold Advance ds (Fake_Set t f)) = t + sum_list ds"
  by (simp add: Advance_sum) (simp add: Fake_Now_def Fake_Set_def)

end
