(* ===== verification/Spec2Isabelle.thy ===== *)
theory Spec2Isabelle
  imports Advert_Parser Presence_Guarantees Mqtt_Guarantees Mqtt_Race Store_Guarantees Ingest_Guarantees Admin_Form Ingest_Panics
    Bridge_Probes Bridge_Mirror Captured Clock
begin

text \<open>
  \<^bold>\<open>A verification library of briihass\<close>, the bridge that turns the Bluetooth adverts which wireless access points report into the
  presence of people and things in Home Assistant.

  \<^bold>\<open>The program.\<close> Access points post batches of adverts to \<open>/ingest\<close>. The ingest server (\<open>internal/ingest\<close>) decodes each advert
  (\<open>internal/parser\<close>), derives a stable identity from it (\<open>internal/ids\<close>), hands a row to the observations writer
  (\<open>internal/store\<close>), and submits a sighting to the presence engine (\<open>internal/presence\<close>) if the identity is on the allowlist. The
  engine smooths the signal per access point, ranks the access points, and decides zones with hysteresis, confirmation, a sticky
  window after an arrival and a timeout; its parameters and topology come from \<open>internal/config\<close>. Its events go through a bounded
  channel and a pump to the publisher (\<open>internal/mqtt\<close>), which announces devices and keeps their state at the broker. The admin server
  (\<open>internal/admin\<close>) changes tables, topology, tunables and settings while everything runs. \<open>cmd/briihass/main.go\<close> starts, wires,
  persists and stops all of it. \<open>cmd/captured\<close> is a separate tool that records requests.

  \<^bold>\<open>Theories and sources.\<close>

  \<^item> \<open>Prelude\<close>: 64-bit integers, times, durations, Go maps as association lists, the collections of lemmas.
    \<open>Go_Float\<close>: \<open>float64\<close> with rounding, infinities and NaN. \<open>Go_Strings\<close>, \<open>Go_Utf8\<close>, \<open>Go_Strconv\<close>, \<open>Go_Format\<close>, \<open>Go_Time\<close>, \<open>Go_Net\<close>, \<open>Sha256\<close>:
    what the source uses of \<open>strings\<close>, \<open>unicode/utf8\<close>, \<open>strconv\<close>, \<open>fmt\<close>, \<open>time\<close>, \<open>net\<close> and \<open>crypto/sha256\<close>.
  \<^item> \<open>Ids\<close>: \<open>internal/ids\<close> (all files). \<open>Advert_Parser\<close>: \<open>internal/parser\<close> (\<open>advert.go\<close>, \<open>decode.go\<close>, \<open>debug.go\<close>).
    \<open>Config\<close>: \<open>internal/config\<close> (\<open>tunables.go\<close>, \<open>resolved.go\<close>, \<open>topology.go\<close>).
  \<^item> \<open>Presence\<close>: \<open>state.go\<close> and \<open>engine.go\<close> of \<open>internal/presence\<close>, the engine as the record \<open>Engine\<close>, one definition per method.
    \<open>Presence_Rank\<close>: the ranking of access points. \<open>Presence_Engine\<close>: one recomputation. \<open>Presence_Run\<close>: executions as the relation \<open>estep\<close>,
    the invariant \<open>engine_inv\<close>. \<open>Presence_Guarantees\<close>: switching, timeouts, topology changes, restarts.
  \<^item> \<open>Bounded_Queue\<close>: the contract of a channel that drops, as a locale. \<open>Mqtt\<close>: \<open>publisher.go\<close> and \<open>discovery.go\<close>. \<open>Mqtt_Broker\<close>: the
    retained messages at the broker and the invariant \<open>pub_inv\<close> between publisher and broker. \<open>Mqtt_Guarantees\<close>: its theorems.
    \<open>Mqtt_Race\<close>: a handler of the client in the middle of \<open>handle\<close>.
  \<^item> \<open>Batch_Writer\<close>: the contract of a batching writer, as a locale. \<open>Store_Writers\<close>: \<open>writer.go\<close>, \<open>raw_posts_writer.go\<close>, the rows of
    \<open>observations.go\<close> and \<open>raw_posts.go\<close>. \<open>Store\<close>: the tables and queries (\<open>postgres.go\<close>, \<open>topology.go\<close>, \<open>presence_state.go\<close>, \<open>settings.go\<close>,
    \<open>seed.go\<close>, \<open>retention.go\<close>). \<open>Store_Guarantees\<close>: its theorems.
  \<^item> \<open>Ingest\<close>: \<open>handler.go\<close>. \<open>Ingest_Guarantees\<close>: its theorems over any world. \<open>Metrics\<close>: \<open>internal/metrics\<close>. \<open>Ingest_Checked\<close>: the handler
    with the panics of the metrics library. \<open>Ingest_Panics\<close>: when they happen and what they cost.
  \<^item> \<open>Admin_Pages\<close>: the pages of \<open>internal/admin\<close>. \<open>Admin\<close>: the handlers that write, and \<open>Routes\<close>. \<open>Admin_Guarantees\<close>: the contract
    \<open>request_invariant\<close> and its instances. \<open>Admin_Limits\<close>: authentication, links, and two failures. \<open>Admin_Form\<close>:
    \<open>funcs.go\<close>, \<open>render.go\<close>, and the form of \<open>templates/tunables.html\<close>, shown and sent back.
  \<^item> \<open>Bridge\<close>: \<open>main.go\<close>, the process as the record \<open>World\<close>. \<open>Bridge_Guarantees\<close>: the paths through several components. \<open>Bridge_Run\<close>: all
    interleavings as the relation \<open>bstep\<close>, and its invariant. \<open>Bridge_Restart\<close>: starts. \<open>Bridge_Samples\<close>: a concrete process.
    \<open>Bridge_Mirror\<close>: engine and broker agree, over the runs \<open>flow\<close> without loss. \<open>Bridge_Probes\<close>: the helpers.
  \<^item> \<open>Captured\<close>: \<open>cmd/captured/main.go\<close>. \<open>Clock\<close>: \<open>internal/clock\<close>.

  \<^bold>\<open>What is shown.\<close> For the data: keys, slugs, addresses and adverts round-trip, entity ids collide only on a hash collision, validated
  tunables resolve within their ranges. For the engine: an invariant of every reachable state; the closest access point is maximal; a
  recomputation publishes exactly the changes; an arrival is published at once, a switch takes confirmation, silence ends in
  \<open>not_home\<close>, and nothing does while the sticky window is open. For the publisher: what it believes to be announced is retained at the
  broker, an event, a removal and a reconciliation leave exactly the intended messages, and a saturated queue keeps the newest. For the
  store: every row is accounted for, pruning is exact, the connection loop ends. For the servers: requests without credentials change nothing,
  no sequence of admin requests makes the topology unreadable, posted tunables take effect everywhere or nowhere, and a form that is sent back
  the way it was shown changes no value. For the whole: a post
  drives the engine with exactly the tracked sightings, whenever the channels are empty the broker retains what the engine publishes
  (in every interleaving that loses no event), an arrival reaches the broker, a birth message restores all entities, a restart
  keeps the zones, and in every interleaving of requests and goroutines, with any faults, the invariant holds and a new process can start.
  Some theorems show what the program does wrong: see \<open>unprintable_name_cuts_post\<close>, \<open>poison_row_drops_batch\<close>,
  \<open>overlapping_rebuilds_lose_beacon\<close>, \<open>long_window_hides_devices\<close>, \<open>validation_accepts_nan\<close>, \<open>zone_label_not_home\<close>,
  \<open>drop_hook_misses_evicted\<close>, \<open>reconnect_during_announce_loses_config\<close>, \<open>prune_failure_is_partial\<close>, \<open>capture_limit_wraps\<close>.

  \<^bold>\<open>Conventions and assumptions.\<close>

  \<^item> A Go map is an association list with distinct keys in the order of its next iteration; the relations \<open>estep\<close> and \<open>bstep\<close> may reorder it.
  \<^item> Every operation that holds a mutex is one step, every event of the publisher too but in \<open>Mqtt_Race\<close>, and the clock is read once
    per operation or request. Floating-point operations are rounded one by one (no fused multiply-add).
  \<^item> Code that is not in the repository is a parameter: the decoders of JSON, YAML and gzip, the broker (\<open>broker_fn\<close>), the metrics
    library (\<open>accepts\<close>, \<open>register\<close>), the driver. What a channel does between two operations on it is an environment function (\<open>env\<close>), and
    which statements of the database fail is a fault argument. A transaction that fails leaves the tables unchanged; the order of
    text columns is a parameter. Times in the database have microseconds.
  \<^item> \<open>handleIngest\<close> is the ingest handler when no metric call panics; \<open>handleIngest_checked\<close> is the handler with the panics, and
    \<open>ingest_runs_through\<close> says when they agree. The relation \<open>bstep\<close> has both.
  \<^item> Loops are structural or have a termination proof; the only fuel is in the integer root for the constants of SHA-256, and those
    constants are evaluated. The search for the shortest digits of a float64 ends at 17, which \<open>attempt_17\<close> shows to suffice.

  \<^bold>\<open>Not modelled.\<close> The markup of the pages but for the fields of the tunables form, and the texts of errors and log lines; help texts
  and the scrape handler of the metrics; the legacy columns that \<open>schema.sql\<close> migrates; flags, listeners, signals and tickers; timeouts of requests and of statements, except as faults.
\<close>

end
